theory Spec2Isabelle
  imports Main "HOL-Library.Word" "HOL-Library.Signed_Division"
begin

unbundle bit_operations_syntax

section \<open>Peer-logic core of net\_processing.cpp: data model\<close>

text \<open>
  The embedding follows \<^verbatim>\<open>src/p2p/net_processing.cpp\<close>.  Every function that can
  hit undefined behaviour or abort (a null \<^verbatim>\<open>CNodeState*\<close> dereference, a failed
  \<^verbatim>\<open>assert\<close>, a dangling list iterator, a signed overflow of a peer-driven counter)
  returns an \<open>option\<close>, and \<open>None\<close> is that outcome.  Clock reads
  (\<^verbatim>\<open>GetTimeMicros\<close>, \<^verbatim>\<open>GetTime\<close>), configuration reads and the chain engine are
  arguments.  Messages handed to \<^verbatim>\<open>connman->PushMessage\<close> and bans are collected in an
  event list, in program order.
\<close>

type_synonym NodeId = int
type_synonym uint256 = "256 word"

text \<open>A \<^verbatim>\<open>const CBlockIndex *\<close> is a reference into the block index owned by the chain
  engine; \<open>None\<close> is \<^verbatim>\<open>nullptr\<close>.\<close>
type_synonym blockref = nat

text \<open>A \<^verbatim>\<open>std::list<QueuedBlock>::iterator\<close> is the address of a list node.\<close>
type_synonym qiter = nat

record QueuedBlock =
  hash :: uint256
  pindex :: "blockref option"
  fValidatedHeaders :: bool
  partialBlock :: bool \<comment> \<open>whether a \<^verbatim>\<open>PartiallyDownloadedBlock\<close> is attached\<close>

record CBlockReject =
  chRejectCode :: "8 word"
  strRejectReason :: string
  hashBlock :: uint256

record ChainSyncTimeoutState =
  m_timeout :: int
  m_work_header :: "blockref option"
  m_sent_getheaders :: bool
  m_protect :: bool

record CNodeState =
  address :: string
  fCurrentlyConnected :: bool
  nMisbehavior :: int
  fShouldBan :: bool
  name :: string
  rejects :: "CBlockReject list"
  pindexBestKnownBlock :: "blockref option"
  hashLastUnknownBlock :: uint256
  pindexLastCommonBlock :: "blockref option"
  pindexBestHeaderSent :: "blockref option"
  nUnconnectingHeaders :: int
  fSyncStarted :: bool
  nHeadersSyncTimeout :: int
  nStallingSince :: int
  vBlocksInFlight :: "(qiter \<times> QueuedBlock) list"
  nDownloadingSince :: int
  nBlocksInFlight :: int
  nBlocksInFlightValidHeaders :: int
  fPreferredDownload :: bool
  fPreferHeaders :: bool
  fPreferHeaderAndIDs :: bool
  fProvidesHeaderAndIDs :: bool
  fHaveWitness :: bool
  fWantsCmpctWitness :: bool
  fSupportsDesiredCmpctVersion :: bool
  m_chain_sync :: ChainSyncTimeoutState
  m_last_block_announcement :: int

text \<open>The constructor \<^verbatim>\<open>CNodeState(addrIn, addrNameIn)\<close>.\<close>
definition CNodeState_ctor :: "string \<Rightarrow> string \<Rightarrow> CNodeState" where
  "CNodeState_ctor addrIn addrNameIn =
    \<lparr> address = addrIn,
      fCurrentlyConnected = False,
      nMisbehavior = 0,
      fShouldBan = False,
      name = addrNameIn,
      rejects = [],
      pindexBestKnownBlock = None,
      hashLastUnknownBlock = 0,
      pindexLastCommonBlock = None,
      pindexBestHeaderSent = None,
      nUnconnectingHeaders = 0,
      fSyncStarted = False,
      nHeadersSyncTimeout = 0,
      nStallingSince = 0,
      vBlocksInFlight = [],
      nDownloadingSince = 0,
      nBlocksInFlight = 0,
      nBlocksInFlightValidHeaders = 0,
      fPreferredDownload = False,
      fPreferHeaders = False,
      fPreferHeaderAndIDs = False,
      fProvidesHeaderAndIDs = False,
      fHaveWitness = False,
      fWantsCmpctWitness = False,
      fSupportsDesiredCmpctVersion = False,
      m_chain_sync = \<lparr> m_timeout = 0, m_work_header = None,
                       m_sent_getheaders = False, m_protect = False \<rparr>,
      m_last_block_announcement = 0 \<rparr>"

text \<open>The file-level globals guarded by \<^verbatim>\<open>cs_main\<close>.  \<open>heap_next\<close> is the allocator's
  next free address for list nodes of \<^verbatim>\<open>vBlocksInFlight\<close>.\<close>
record net_state =
  mapNodeState :: "NodeId \<rightharpoonup> CNodeState"
  mapBlocksInFlight :: "uint256 \<rightharpoonup> (NodeId \<times> qiter)"
  nSyncStarted :: int
  nPreferredDownload :: int
  nPeersWithValidatedDownloads :: int
  g_outbound_peers_with_protect_from_disconnect :: int
  heap_next :: qiter

definition net_state_init :: net_state where
  "net_state_init =
    \<lparr> mapNodeState = Map.empty, mapBlocksInFlight = Map.empty, nSyncStarted = 0,
      nPreferredDownload = 0, nPeersWithValidatedDownloads = 0,
      g_outbound_peers_with_protect_from_disconnect = 0, heap_next = 0 \<rparr>"

text \<open>The fields of the connection manager's \<^verbatim>\<open>CNode\<close> that this file reads or writes.\<close>
record CNode =
  GetId :: NodeId
  fInbound :: bool
  fWhitelisted :: bool
  fOneShot :: bool
  fClient :: bool
  fFeeler :: bool
  m_manual_connection :: bool
  addr_IsLocal :: bool \<comment> \<open>\<^verbatim>\<open>pnode->addr.IsLocal()\<close>\<close>
  fDisconnect :: bool
  fSuccessfullyConnected :: bool
  nVersion :: int
  nSendVersion :: int
  nRecvVersion :: int
  nServices :: "64 word"
  nServicesExpected :: "64 word"
  nLocalServices :: "64 word" \<comment> \<open>\<^verbatim>\<open>GetLocalServices()\<close>\<close>
  nStartingHeight :: int
  fRelayTxes :: bool
  fGetAddr :: bool
  nTimeOffset :: int
  strSubVer :: string

datatype CInv = CInv (inv_type: "32 word") (inv_hash: uint256)

datatype net_msg =
    REJECT_BLOCK "8 word" string uint256
  | REJECT_VERSION string
  | VERSION
  | VERACK
  | GETADDR
  | ALERT
  | SENDHEADERS
  | SENDCMPCT bool "64 word"
  | GETHEADERS "blockref option" uint256
      \<comment> \<open>the block handed to \<^verbatim>\<open>chainActive.GetLocator\<close>, and the stop hash\<close>
  | GETDATA "CInv list"

text \<open>What leaves this file: a message for \<^verbatim>\<open>connman->PushMessage\<close>, a ban, and the
  calls of collaborators whose results this file does not read.\<close>
datatype event =
    PushMessage NodeId net_msg
  | Ban NodeId
  | SubmitHeaders \<comment> \<open>\<^verbatim>\<open>ProcessNewBlockHeaders\<close>\<close>
  | SetServices NodeId "64 word"
  | SeenLocal
  | PushAddress NodeId
  | MarkAddressGood NodeId
  | AddTimeData NodeId int

section \<open>Peer state store\<close>

definition State :: "net_state \<Rightarrow> NodeId \<Rightarrow> CNodeState option" where
  "State st pnode = mapNodeState st pnode"

definition put_State :: "NodeId \<Rightarrow> CNodeState \<Rightarrow> net_state \<Rightarrow> net_state" where
  "put_State pnode s st = st\<lparr> mapNodeState := (mapNodeState st)(pnode \<mapsto> s) \<rparr>"

text \<open>C++ \<^verbatim>\<open>int\<close> addition; a signed overflow is undefined behaviour.\<close>
definition int_add :: "int \<Rightarrow> int \<Rightarrow> int option" where
  "int_add a b = (if - (2 ^ 31) \<le> a + b \<and> a + b \<le> 2 ^ 31 - 1 then Some (a + b) else None)"

text \<open>\<^verbatim>\<open>Misbehaving(pnode, howmuch)\<close>; \<open>banscore\<close> is the value of \<^verbatim>\<open>-banscore\<close>.\<close>
definition Misbehaving :: "int \<Rightarrow> NodeId \<Rightarrow> int \<Rightarrow> net_state \<Rightarrow> net_state option" where
  "Misbehaving banscore pnode howmuch st =
    (if howmuch = 0 then Some st
     else case State st pnode of
       None \<Rightarrow> Some st
     | Some state \<Rightarrow>
        (case int_add (nMisbehavior state) howmuch of
           None \<Rightarrow> None
         | Some n \<Rightarrow>
            let state1 = state\<lparr> nMisbehavior := n \<rparr>;
                state2 = (if banscore \<le> n \<and> n - howmuch < banscore
                          then state1\<lparr> fShouldBan := True \<rparr> else state1)
            in Some (put_State pnode state2 st)))"

text \<open>\<^verbatim>\<open>PeerLogicValidation::SendRejectsAndCheckIfBanned(pnode)\<close>: returns the flag, the
  node, the state and the events.\<close>
definition SendRejectsAndCheckIfBanned ::
  "CNode \<Rightarrow> net_state \<Rightarrow> (bool \<times> CNode \<times> net_state \<times> event list) option" where
  "SendRejectsAndCheckIfBanned pnode st =
    (case State st (GetId pnode) of
       None \<Rightarrow> None
     | Some state \<Rightarrow>
        let ev = map (\<lambda>r. PushMessage (GetId pnode)
                          (REJECT_BLOCK (chRejectCode r) (strRejectReason r) (hashBlock r)))
                     (rejects state);
            state1 = state\<lparr> rejects := [] \<rparr>
        in if fShouldBan state1 then
             let st2 = put_State (GetId pnode) (state1\<lparr> fShouldBan := False \<rparr>) st
             in if fWhitelisted pnode then Some (True, pnode, st2, ev)
                else if m_manual_connection pnode then Some (True, pnode, st2, ev)
                else if addr_IsLocal pnode
                  then Some (True, pnode\<lparr> fDisconnect := True \<rparr>, st2, ev)
                  else Some (True, pnode\<lparr> fDisconnect := True \<rparr>, st2,
                             ev @ [Ban (GetId pnode)])
           else Some (False, pnode, put_State (GetId pnode) state1 st, ev))"


text \<open>\<^verbatim>\<open>UpdatePreferredDownload(node, state)\<close>, with \<^verbatim>\<open>state = State(node->GetId())\<close> as
  at its call site.\<close>
definition UpdatePreferredDownload :: "CNode \<Rightarrow> net_state \<Rightarrow> net_state option" where
  "UpdatePreferredDownload node st =
    (case State st (GetId node) of
       None \<Rightarrow> None
     | Some state \<Rightarrow>
        let n1 = nPreferredDownload st - of_bool (fPreferredDownload state);
            pref = ((\<not> fInbound node \<or> fWhitelisted node) \<and> \<not> fOneShot node \<and> \<not> fClient node);
            n2 = n1 + of_bool pref
        in Some ((put_State (GetId node) (state\<lparr> fPreferredDownload := pref \<rparr>) st)
                   \<lparr> nPreferredDownload := n2 \<rparr>))"

text \<open>\<^verbatim>\<open>MarkBlockAsReceived(hash)\<close>; \<open>now\<close> is the value \<^verbatim>\<open>GetTimeMicros()\<close> returns.\<close>
definition MarkBlockAsReceived :: "int \<Rightarrow> uint256 \<Rightarrow> net_state \<Rightarrow> (bool \<times> net_state) option" where
  "MarkBlockAsReceived now h st =
    (case mapBlocksInFlight st h of
       None \<Rightarrow> Some (False, st)
     | Some (nodeid, it) \<Rightarrow>
        (case State st nodeid of
           None \<Rightarrow> None
         | Some state \<Rightarrow>
            (case map_of (vBlocksInFlight state) it of
               None \<Rightarrow> None
             | Some qb \<Rightarrow>
                let vh = nBlocksInFlightValidHeaders state - of_bool (fValidatedHeaders qb);
                    npeers = (if vh = 0 \<and> fValidatedHeaders qb
                              then nPeersWithValidatedDownloads st - 1
                              else nPeersWithValidatedDownloads st);
                    since = (if (case vBlocksInFlight state of [] \<Rightarrow> False | e # _ \<Rightarrow> fst e = it)
                             then max (nDownloadingSince state) now
                             else nDownloadingSince state);
                    state' = state\<lparr> nBlocksInFlightValidHeaders := vh,
                                    nDownloadingSince := since,
                                    vBlocksInFlight := filter (\<lambda>e. fst e \<noteq> it) (vBlocksInFlight state),
                                    nBlocksInFlight := nBlocksInFlight state - 1,
                                    nStallingSince := 0 \<rparr>
                in Some (True, (put_State nodeid state' st)
                                 \<lparr> mapBlocksInFlight := (mapBlocksInFlight st)(h := None),
                                   nPeersWithValidatedDownloads := npeers \<rparr>))))"

text \<open>\<^verbatim>\<open>MarkBlockAsInFlight(nodeid, hash, pindex, pit)\<close>.  \<open>want_pit\<close> says whether the
  caller passed a non-null \<^verbatim>\<open>pit\<close>; the second component of the result is what \<^verbatim>\<open>*pit\<close>
  then refers to (the iterator stored in the map entry).  \<open>now0\<close> is the clock read inside
  \<^verbatim>\<open>MarkBlockAsReceived\<close>, \<open>now\<close> the later one of this function.\<close>
definition MarkBlockAsInFlight ::
  "int \<Rightarrow> int \<Rightarrow> NodeId \<Rightarrow> uint256 \<Rightarrow> blockref option \<Rightarrow> bool \<Rightarrow> net_state
     \<Rightarrow> (bool \<times> qiter option \<times> net_state) option" where
  "MarkBlockAsInFlight now0 now nodeid h pindex' want_pit st =
    (case State st nodeid of
       None \<Rightarrow> None
     | Some _ \<Rightarrow>
        (case (case mapBlocksInFlight st h of
                 None \<Rightarrow> None
               | Some (n, it) \<Rightarrow> if n = nodeid then Some it else None) of
           Some it \<Rightarrow> Some (False, if want_pit then Some it else None, st)
         | None \<Rightarrow>
            (case MarkBlockAsReceived now0 h st of
               None \<Rightarrow> None
             | Some (_, st1) \<Rightarrow>
                (case State st1 nodeid of
                   None \<Rightarrow> None
                 | Some state \<Rightarrow>
                    let it = heap_next st1;
                        qb = \<lparr> hash = h, pindex = pindex', fValidatedHeaders = (pindex' \<noteq> None),
                               partialBlock = want_pit \<rparr>;
                        n = nBlocksInFlight state + 1;
                        vh = nBlocksInFlightValidHeaders state + of_bool (fValidatedHeaders qb);
                        since = (if n = 1 then now else nDownloadingSince state);
                        npeers = (if vh = 1 \<and> pindex' \<noteq> None
                                  then nPeersWithValidatedDownloads st1 + 1
                                  else nPeersWithValidatedDownloads st1);
                        state' = state\<lparr> vBlocksInFlight := vBlocksInFlight state @ [(it, qb)],
                                        nBlocksInFlight := n,
                                        nBlocksInFlightValidHeaders := vh,
                                        nDownloadingSince := since \<rparr>
                    in Some (True, if want_pit then Some it else None,
                             (put_State nodeid state' st1)
                               \<lparr> mapBlocksInFlight := (mapBlocksInFlight st1)(h \<mapsto> (nodeid, it)),
                                 nPeersWithValidatedDownloads := npeers,
                                 heap_next := Suc it \<rparr>)))))"

text \<open>\<^verbatim>\<open>PeerLogicValidation::InitializeNode(pnode)\<close>: \<^verbatim>\<open>emplace_hint\<close> keeps an existing
  row; an outbound peer is sent our version.\<close>
definition InitializeNode :: "string \<Rightarrow> string \<Rightarrow> CNode \<Rightarrow> net_state \<Rightarrow> net_state \<times> event list" where
  "InitializeNode addr addrName pnode st =
    (let st' = (case mapNodeState st (GetId pnode) of
                  None \<Rightarrow> put_State (GetId pnode) (CNodeState_ctor addr addrName) st
                | Some _ \<Rightarrow> st)
     in (st', if \<not> fInbound pnode then [PushMessage (GetId pnode) VERSION] else []))"

text \<open>\<^verbatim>\<open>PeerLogicValidation::FinalizeNode(nodeid, fUpdateConnectionTime)\<close>: the result is
  the flag and the new state; \<open>None\<close> is a failed \<^verbatim>\<open>assert\<close>.  The call of the mempool's
  \<^verbatim>\<open>RemoveOrphanTxForNode\<close> touches nothing of this state.\<close>
definition FinalizeNode :: "NodeId \<Rightarrow> net_state \<Rightarrow> (bool \<times> net_state) option" where
  "FinalizeNode nodeid st =
    (case State st nodeid of
       None \<Rightarrow> None
     | Some state \<Rightarrow>
        let nsync = (if fSyncStarted state then nSyncStarted st - 1 else nSyncStarted st);
            fUpdateConnectionTime = (nMisbehavior state = 0 \<and> fCurrentlyConnected state);
            inflight = fold (\<lambda>entry m. m(hash (snd entry) := None))
                            (vBlocksInFlight state) (mapBlocksInFlight st);
            npref = nPreferredDownload st - of_bool (fPreferredDownload state);
            npeers = nPeersWithValidatedDownloads st
                       - of_bool (nBlocksInFlightValidHeaders state \<noteq> 0);
            nprot = g_outbound_peers_with_protect_from_disconnect st
                       - of_bool (m_protect (m_chain_sync state));
            nodes = (mapNodeState st)(nodeid := None)
        in if npeers < 0 then None
           else if nprot < 0 then None
           else if nodes = Map.empty
                   \<and> \<not> (inflight = Map.empty \<and> npref = 0 \<and> npeers = 0 \<and> nprot = 0) then None
           else Some (fUpdateConnectionTime,
                      st\<lparr> mapNodeState := nodes, mapBlocksInFlight := inflight,
                          nSyncStarted := nsync, nPreferredDownload := npref,
                          nPeersWithValidatedDownloads := npeers,
                          g_outbound_peers_with_protect_from_disconnect := nprot \<rparr>))"



section \<open>The chain engine as this file sees it\<close>

text \<open>\<^verbatim>\<open>CBlockIndex\<close>, \<^verbatim>\<open>CChain\<close> and the chain component are declared outside this
  file.  An entry of the block index is a record; the operations this file calls on the
  index, on \<^verbatim>\<open>chainActive\<close> and on the chain component are the fields of
  \<open>chain_iface\<close>, one per call, so every result below holds for any chain engine.\<close>
record CBlockIndex =
  phashBlock :: uint256 \<comment> \<open>\<^verbatim>\<open>GetBlockHash()\<close>\<close>
  pprev :: "blockref option"
  nHeight :: int
  nChainWork :: nat
  nChainTx :: nat
  nStatus :: "32 word"
  nTime :: int \<comment> \<open>\<^verbatim>\<open>GetBlockTime()\<close>\<close>

record CBlockHeader =
  hashPrevBlock :: uint256
  hashMerkleRoot :: uint256
  header_nTime :: "32 word"
  nBits :: "32 word"
  nNonce :: "32 word"

datatype BlockStatus = BLOCK_VALID_TREE | BLOCK_VALID_CHAIN

record chain_iface =
  blk :: "blockref \<Rightarrow> CBlockIndex" \<comment> \<open>the entry a non-null pointer refers to\<close>
  GetBlockIndex :: "uint256 \<Rightarrow> blockref option"
  DoesBlockExist :: "uint256 \<Rightarrow> bool"
  GetHash :: "CBlockHeader \<Rightarrow> uint256"
  Tip :: "blockref option" \<comment> \<open>\<^verbatim>\<open>chainActive.Tip()\<close>\<close>
  Height :: int \<comment> \<open>\<^verbatim>\<open>chainActive.Height()\<close>\<close>
  ChainAt :: "int \<Rightarrow> blockref option" \<comment> \<open>\<^verbatim>\<open>chainActive[h]\<close>\<close>
  Contains :: "blockref \<Rightarrow> bool" \<comment> \<open>\<^verbatim>\<open>chainActive.Contains(p)\<close>\<close>
  GetAncestor :: "blockref \<Rightarrow> int \<Rightarrow> blockref option"
  LastCommonAncestor :: "blockref \<Rightarrow> blockref \<Rightarrow> blockref option"
  IsValid :: "blockref \<Rightarrow> BlockStatus \<Rightarrow> bool"
  BLOCK_HAVE_DATA :: "32 word"
  IsWitnessEnabled :: "blockref option \<Rightarrow> bool"
  GetIndexBestHeader :: "blockref option"
  IsInitialBlockDownload :: bool
  nMinimumChainWork :: nat
  nPowTargetSpacing :: int \<comment> \<open>\<^verbatim>\<open>consensusParams.nPowTargetSpacing\<close>\<close>

text \<open>\<^verbatim>\<open>p->nChainWork\<close> and \<^verbatim>\<open>chainActive.Tip()->nChainWork\<close>; the latter dereferences a
  null pointer when the active chain is empty.\<close>
definition work :: "chain_iface \<Rightarrow> blockref \<Rightarrow> nat" where
  "work c p = nChainWork (blk c p)"

definition tip_work :: "chain_iface \<Rightarrow> nat option" where
  "tip_work c = map_option (work c) (Tip c)"

text \<open>\<^verbatim>\<open>ProcessBlockAvailability(nodeid)\<close>.\<close>
definition ProcessBlockAvailability :: "chain_iface \<Rightarrow> NodeId \<Rightarrow> net_state \<Rightarrow> net_state option" where
  "ProcessBlockAvailability c nodeid st =
    (case State st nodeid of
       None \<Rightarrow> None
     | Some state \<Rightarrow>
        if hashLastUnknownBlock state \<noteq> 0 then
          (case GetBlockIndex c (hashLastUnknownBlock state) of
             None \<Rightarrow> Some st
           | Some pIndexOld \<Rightarrow>
              if 0 < work c pIndexOld then
                let state1 =
                      (if (case pindexBestKnownBlock state of
                             None \<Rightarrow> True
                           | Some best \<Rightarrow> work c best \<le> work c pIndexOld)
                       then state\<lparr> pindexBestKnownBlock := Some pIndexOld \<rparr>
                       else state)
                in Some (put_State nodeid (state1\<lparr> hashLastUnknownBlock := 0 \<rparr>) st)
              else Some st)
        else Some st)"

text \<open>\<^verbatim>\<open>UpdateBlockAvailability(nodeid, hash)\<close>.\<close>
definition UpdateBlockAvailability ::
  "chain_iface \<Rightarrow> NodeId \<Rightarrow> uint256 \<Rightarrow> net_state \<Rightarrow> net_state option" where
  "UpdateBlockAvailability c nodeid h st =
    (case State st nodeid of
       None \<Rightarrow> None
     | Some _ \<Rightarrow>
        (case ProcessBlockAvailability c nodeid st of
           None \<Rightarrow> None
         | Some st1 \<Rightarrow>
            (case State st1 nodeid of
               None \<Rightarrow> None
             | Some state \<Rightarrow>
                (case (case GetBlockIndex c h of
                         None \<Rightarrow> None
                       | Some pIndex \<Rightarrow> if 0 < work c pIndex then Some pIndex else None) of
                   Some pIndex \<Rightarrow>
                    if (case pindexBestKnownBlock state of
                          None \<Rightarrow> True
                        | Some best \<Rightarrow> work c best \<le> work c pIndex)
                    then Some (put_State nodeid (state\<lparr> pindexBestKnownBlock := Some pIndex \<rparr>) st1)
                    else Some st1
                 | None \<Rightarrow>
                    Some (put_State nodeid (state\<lparr> hashLastUnknownBlock := h \<rparr>) st1)))))"

text \<open>\<^verbatim>\<open>IsOutboundDisconnectionCandidate(node)\<close>.\<close>
definition IsOutboundDisconnectionCandidate :: "CNode \<Rightarrow> bool" where
  "IsOutboundDisconnectionCandidate node =
    (\<not> (fInbound node \<or> m_manual_connection node \<or> fFeeler node \<or> fOneShot node))"

text \<open>\<^verbatim>\<open>CanDirectFetch(consensusParams)\<close>; \<open>adjusted\<close> is \<^verbatim>\<open>GetAdjustedTime()\<close>.\<close>
definition CanDirectFetch :: "chain_iface \<Rightarrow> int \<Rightarrow> bool option" where
  "CanDirectFetch c adjusted =
    (case Tip c of
       None \<Rightarrow> None
     | Some tip \<Rightarrow> Some (adjusted - nPowTargetSpacing c * 20 < nTime (blk c tip)))"


section \<open>Block download scheduler\<close>

text \<open>Modelled from the spec: the constants below are declared in headers that are not
  part of the source at hand; their values are those of the specification's table of
  constants.\<close>
definition BLOCK_DOWNLOAD_WINDOW :: int where
  "BLOCK_DOWNLOAD_WINDOW = 1024"

definition MAX_BLOCKS_IN_TRANSIT_PER_PEER :: int where
  "MAX_BLOCKS_IN_TRANSIT_PER_PEER = 16"

definition MAX_HEADERS_RESULTS :: nat where
  "MAX_HEADERS_RESULTS = 2000"

definition MAX_BLOCKS_TO_ANNOUNCE :: nat where
  "MAX_BLOCKS_TO_ANNOUNCE = 8"

definition MAX_UNCONNECTING_HEADERS :: int where
  "MAX_UNCONNECTING_HEADERS = 10"

definition MAX_OUTBOUND_PEERS_TO_PROTECT_FROM_DISCONNECT :: int where
  "MAX_OUTBOUND_PEERS_TO_PROTECT_FROM_DISCONNECT = 4"



text \<open>The body of \<^verbatim>\<open>for (i = nToFetch - 1; i > 0; i--) vToFetch[i - 1] = vToFetch[i]->pprev\<close>,
  started from the last entry: \<open>n\<close> more entries are put in front of \<open>p\<close>.  A null
  entry is dereferenced later in any case, by this loop or by the scan.\<close>
primrec prepend_ancestors ::
  "chain_iface \<Rightarrow> nat \<Rightarrow> blockref \<Rightarrow> blockref list \<Rightarrow> blockref list option" where
  "prepend_ancestors c 0 p acc = Some (p # acc)"
| "prepend_ancestors c (Suc n) p acc =
    (case pprev (blk c p) of
       None \<Rightarrow> None
     | Some q \<Rightarrow> prepend_ancestors c n q (p # acc))"

text \<open>The loop \<^verbatim>\<open>for (const CBlockIndex *pindex : vToFetch)\<close> of
  \<^verbatim>\<open>FindNextBlocksToDownload\<close>.  The first component of the result says whether the
  function returned from inside the loop.\<close>
fun fetch_scan ::
  "chain_iface \<Rightarrow> NodeId \<Rightarrow> nat \<Rightarrow> int \<Rightarrow> blockref list
     \<Rightarrow> blockref list \<Rightarrow> NodeId \<Rightarrow> NodeId \<Rightarrow> net_state
     \<Rightarrow> (bool \<times> blockref list \<times> NodeId \<times> NodeId \<times> net_state) option" where
  "fetch_scan c nodeid count nWindowEnd [] vBlocks nodeStaller waitingfor st =
     Some (False, vBlocks, nodeStaller, waitingfor, st)"
| "fetch_scan c nodeid count nWindowEnd (p # rest) vBlocks nodeStaller waitingfor st =
    (if \<not> IsValid c p BLOCK_VALID_TREE then Some (True, vBlocks, nodeStaller, waitingfor, st)
     else case State st nodeid of
       None \<Rightarrow> None
     | Some state \<Rightarrow>
        if \<not> fHaveWitness state \<and> IsWitnessEnabled c (pprev (blk c p))
        then Some (True, vBlocks, nodeStaller, waitingfor, st)
        else if nStatus (blk c p) AND BLOCK_HAVE_DATA c \<noteq> 0 \<or> Contains c p then
          fetch_scan c nodeid count nWindowEnd rest vBlocks nodeStaller waitingfor
            (if nChainTx (blk c p) \<noteq> 0
             then put_State nodeid (state\<lparr> pindexLastCommonBlock := Some p \<rparr>) st
             else st)
        else
          (case mapBlocksInFlight st (phashBlock (blk c p)) of
             None \<Rightarrow>
              if nWindowEnd < nHeight (blk c p) then
                Some (True, vBlocks,
                      if vBlocks = [] \<and> waitingfor \<noteq> nodeid then waitingfor else nodeStaller,
                      waitingfor, st)
              else if length (vBlocks @ [p]) = count
                then Some (True, vBlocks @ [p], nodeStaller, waitingfor, st)
                else fetch_scan c nodeid count nWindowEnd rest (vBlocks @ [p])
                       nodeStaller waitingfor st
           | Some (owner, _) \<Rightarrow>
              fetch_scan c nodeid count nWindowEnd rest vBlocks nodeStaller
                (if waitingfor = - 1 then owner else waitingfor) st))"

text \<open>The loop \<^verbatim>\<open>while (pindexWalk->nHeight < nMaxHeight)\<close>.  Nothing in this file bounds
  the heights the chain engine reports, so not returning is the value \<open>None\<close>.\<close>
partial_function (option) fetch_loop ::
  "chain_iface \<Rightarrow> NodeId \<Rightarrow> nat \<Rightarrow> blockref \<Rightarrow> int \<Rightarrow> int \<Rightarrow> blockref
     \<Rightarrow> blockref list \<Rightarrow> NodeId \<Rightarrow> NodeId \<Rightarrow> net_state
     \<Rightarrow> (blockref list \<times> NodeId \<times> net_state) option" where
  "fetch_loop c nodeid count best nWindowEnd nMaxHeight pindexWalk vBlocks nodeStaller waitingfor st =
    (if nHeight (blk c pindexWalk) < nMaxHeight then
       (let nToFetch = min (nMaxHeight - nHeight (blk c pindexWalk))
                           (max (int count - int (length vBlocks)) 128)
        in case GetAncestor c best (nHeight (blk c pindexWalk) + nToFetch) of
             None \<Rightarrow> None
           | Some w \<Rightarrow>
              (case prepend_ancestors c (nat nToFetch - 1) w [] of
                 None \<Rightarrow> None
               | Some vToFetch \<Rightarrow>
                  (case fetch_scan c nodeid count nWindowEnd vToFetch vBlocks nodeStaller
                          waitingfor st of
                     None \<Rightarrow> None
                   | Some (returned, vBlocks1, nodeStaller1, waitingfor1, st1) \<Rightarrow>
                      if returned then Some (vBlocks1, nodeStaller1, st1)
                      else fetch_loop c nodeid count best nWindowEnd nMaxHeight w
                             vBlocks1 nodeStaller1 waitingfor1 st1)))
     else Some (vBlocks, nodeStaller, st))"

text \<open>\<^verbatim>\<open>FindNextBlocksToDownload(nodeid, count, vBlocks, nodeStaller, consensusParams)\<close>,
  called with an empty \<^verbatim>\<open>vBlocks\<close> as at its one call site.  The result is the vector,
  the staller and the state.\<close>
definition FindNextBlocksToDownload ::
  "chain_iface \<Rightarrow> NodeId \<Rightarrow> nat \<Rightarrow> NodeId \<Rightarrow> net_state
     \<Rightarrow> (blockref list \<times> NodeId \<times> net_state) option" where
  "FindNextBlocksToDownload c nodeid count nodeStaller st =
    (if count = 0 then Some ([], nodeStaller, st)
     else case State st nodeid of
       None \<Rightarrow> None
     | Some _ \<Rightarrow>
        (case ProcessBlockAvailability c nodeid st of
           None \<Rightarrow> None
         | Some st1 \<Rightarrow>
            (case State st1 nodeid of
               None \<Rightarrow> None
             | Some state \<Rightarrow>
                (case pindexBestKnownBlock state of
                   None \<Rightarrow> Some ([], nodeStaller, st1)
                 | Some best \<Rightarrow>
                    (case Tip c of
                       None \<Rightarrow> None
                     | Some tip \<Rightarrow>
                        if work c best < work c tip \<or> work c best < nMinimumChainWork c
                        then Some ([], nodeStaller, st1)
                        else
                          (case (case pindexLastCommonBlock state of
                                   None \<Rightarrow> ChainAt c (min (nHeight (blk c best)) (Height c))
                                 | Some l \<Rightarrow> Some l) of
                             None \<Rightarrow> None
                           | Some l0 \<Rightarrow>
                              let lc = LastCommonAncestor c l0 best;
                                  st2 = put_State nodeid (state\<lparr> pindexLastCommonBlock := lc \<rparr>) st1
                              in if lc = Some best then Some ([], nodeStaller, st2)
                                 else
                                   (case lc of
                                      None \<Rightarrow> None
                                    | Some l \<Rightarrow>
                                       let nWindowEnd = nHeight (blk c l) + BLOCK_DOWNLOAD_WINDOW;
                                           nMaxHeight = min (nHeight (blk c best)) (nWindowEnd + 1)
                                       in fetch_loop c nodeid count best nWindowEnd nMaxHeight l
                                            [] nodeStaller (- 1) st2)))))))"

section \<open>Headers processing\<close>

text \<open>Clock reads, configuration reads and the protocol constants of headers outside
  this file, as arguments.  One value per clock: the reads of one call see one time.\<close>
record net_env =
  GetTime :: int
  GetTimeMicros :: int
  GetAdjustedTime :: int
  arg_banscore :: int \<comment> \<open>\<^verbatim>\<open>-banscore\<close>\<close>
  NODE_NETWORK :: "64 word"
  NODE_WITNESS :: "64 word"
  MSG_BLOCK :: "32 word"
  MSG_WITNESS_FLAG :: "32 word"
  MSG_CMPCT_BLOCK :: "32 word"
  PROTOCOL_VERSION :: int
  MIN_PEER_PROTO_VERSION :: int
  SBTC_CONTRACT_VERSION :: int
  SENDHEADERS_VERSION :: int
  SHORT_IDS_BLOCKS_VERSION :: int
  CADDR_TIME_VERSION :: int

text \<open>What \<^verbatim>\<open>ProcessNewBlockHeaders\<close> hands back: its return value, the validation
  state, \<^verbatim>\<open>pindexLast\<close> and \<^verbatim>\<open>first_invalid_header\<close>.\<close>
record headers_result =
  accepted :: bool
  IsInvalid :: bool
  nDoS :: int
  pindexLast :: "blockref option"
  first_invalid_header :: CBlockHeader

text \<open>The loop that enforces continuity; the result is whether the sequence is
  continuous so far, and \<^verbatim>\<open>hashLastBlock\<close>.\<close>
fun check_continuity :: "chain_iface \<Rightarrow> uint256 \<Rightarrow> CBlockHeader list \<Rightarrow> bool \<times> uint256" where
  "check_continuity c hashLastBlock [] = (True, hashLastBlock)"
| "check_continuity c hashLastBlock (header # rest) =
    (if hashLastBlock \<noteq> 0 \<and> hashPrevBlock header \<noteq> hashLastBlock then (False, hashLastBlock)
     else check_continuity c (GetHash c header) rest)"

text \<open>\<^verbatim>\<open>GetFetchFlags(pfrom)\<close>.\<close>
definition GetFetchFlags :: "net_env \<Rightarrow> CNode \<Rightarrow> net_state \<Rightarrow> 32 word option" where
  "GetFetchFlags env pfrom st =
    (if nLocalServices pfrom AND NODE_WITNESS env \<noteq> 0 then
       (case State st (GetId pfrom) of
          None \<Rightarrow> None
        | Some state \<Rightarrow> Some (if fHaveWitness state then MSG_WITNESS_FLAG env else 0))
     else Some 0)"

text \<open>The walk back from \<^verbatim>\<open>pindexLast\<close> that collects the blocks of a direct fetch.
  \<open>witness_ok\<close> is \<^verbatim>\<open>State(pfrom->GetId())->fHaveWitness\<close>, which the loop does not
  change.\<close>
partial_function (option) direct_fetch_walk ::
  "chain_iface \<Rightarrow> net_state \<Rightarrow> bool \<Rightarrow> blockref option \<Rightarrow> blockref list
     \<Rightarrow> (blockref list \<times> blockref option) option" where
  "direct_fetch_walk c st witness_ok pindexWalk vToFetch =
    (case pindexWalk of
       None \<Rightarrow> Some (vToFetch, None)
     | Some w \<Rightarrow>
        if \<not> Contains c w \<and> int (length vToFetch) \<le> MAX_BLOCKS_IN_TRANSIT_PER_PEER then
          direct_fetch_walk c st witness_ok (pprev (blk c w))
            (if nStatus (blk c w) AND BLOCK_HAVE_DATA c = 0
                \<and> mapBlocksInFlight st (phashBlock (blk c w)) = None
                \<and> (\<not> IsWitnessEnabled c (pprev (blk c w)) \<or> witness_ok)
             then vToFetch @ [w] else vToFetch)
        else Some (vToFetch, Some w))"

text \<open>The loop over \<^verbatim>\<open>reverse_iterate(vToFetch)\<close> that requests the blocks.\<close>
fun request_blocks ::
  "net_env \<Rightarrow> chain_iface \<Rightarrow> CNode \<Rightarrow> blockref list \<Rightarrow> CInv list \<Rightarrow> net_state
     \<Rightarrow> (CInv list \<times> net_state) option" where
  "request_blocks env c pfrom [] vGetData st = Some (vGetData, st)"
| "request_blocks env c pfrom (p # rest) vGetData st =
    (case State st (GetId pfrom) of
       None \<Rightarrow> None
     | Some nodestate \<Rightarrow>
        if MAX_BLOCKS_IN_TRANSIT_PER_PEER \<le> nBlocksInFlight nodestate then Some (vGetData, st)
        else
          (case GetFetchFlags env pfrom st of
             None \<Rightarrow> None
           | Some nFetchFlags \<Rightarrow>
              (case MarkBlockAsInFlight (GetTimeMicros env) (GetTimeMicros env) (GetId pfrom)
                      (phashBlock (blk c p)) (Some p) False st of
                 None \<Rightarrow> None
               | Some (_, _, st1) \<Rightarrow>
                  request_blocks env c pfrom rest
                    (vGetData @ [CInv (MSG_BLOCK env OR nFetchFlags) (phashBlock (blk c p))])
                    st1)))"

text \<open>The direct fetch of \<^verbatim>\<open>ProcessHeadersMessage\<close>.\<close>
definition direct_fetch ::
  "net_env \<Rightarrow> chain_iface \<Rightarrow> CNode \<Rightarrow> blockref \<Rightarrow> net_state
     \<Rightarrow> (net_state \<times> event list) option" where
  "direct_fetch env c pfrom pl st =
    (case State st (GetId pfrom) of
       None \<Rightarrow> None
     | Some nodestate \<Rightarrow>
        (case direct_fetch_walk c st (fHaveWitness nodestate) (Some pl) [] of
           None \<Rightarrow> None
         | Some (vToFetch, pindexWalk) \<Rightarrow>
            (case pindexWalk of
               None \<Rightarrow> None
             | Some w \<Rightarrow>
                if \<not> Contains c w then Some (st, [])
                else
                  (case request_blocks env c pfrom (rev vToFetch) [] st of
                     None \<Rightarrow> None
                   | Some (vGetData, st1) \<Rightarrow>
                      if vGetData = [] then Some (st1, [])
                      else
                        (case State st1 (GetId pfrom) of
                           None \<Rightarrow> None
                         | Some nodestate1 \<Rightarrow>
                            if fSupportsDesiredCmpctVersion nodestate1 \<and> length vGetData = 1
                                \<and> card (dom (mapBlocksInFlight st1)) = 1
                            then
                              (case pprev (blk c pl) of
                                 None \<Rightarrow> None
                               | Some pp \<Rightarrow>
                                  Some (st1,
                                    [PushMessage (GetId pfrom)
                                       (GETDATA
                                         (if IsValid c pp BLOCK_VALID_CHAIN
                                          then [CInv (MSG_CMPCT_BLOCK env) (inv_hash (hd vGetData))]
                                          else vGetData))]))
                            else Some (st1, [PushMessage (GetId pfrom) (GETDATA vGetData)]))))))"

text \<open>The last block of \<^verbatim>\<open>ProcessHeadersMessage\<close>: an outbound peer whose best known
  block has at least the tip's work is protected from the chain-sync eviction, as long as
  fewer than four peers are.\<close>
definition protect_outbound_peer :: "chain_iface \<Rightarrow> CNode \<Rightarrow> net_state \<Rightarrow> net_state option" where
  "protect_outbound_peer c pfrom st =
    (case State st (GetId pfrom) of
       None \<Rightarrow> None
     | Some nodestate \<Rightarrow>
        (case pindexBestKnownBlock nodestate of
           None \<Rightarrow> Some st
         | Some best \<Rightarrow>
            if \<not> fDisconnect pfrom \<and> IsOutboundDisconnectionCandidate pfrom then
              if g_outbound_peers_with_protect_from_disconnect st
                   < MAX_OUTBOUND_PEERS_TO_PROTECT_FROM_DISCONNECT
              then
                (case Tip c of
                   None \<Rightarrow> None
                 | Some tip \<Rightarrow>
                    if work c tip \<le> work c best \<and> \<not> m_protect (m_chain_sync nodestate) then
                      Some ((put_State (GetId pfrom)
                               (nodestate\<lparr> m_chain_sync :=
                                   (m_chain_sync nodestate)\<lparr> m_protect := True \<rparr> \<rparr>) st)
                            \<lparr> g_outbound_peers_with_protect_from_disconnect :=
                                g_outbound_peers_with_protect_from_disconnect st + 1 \<rparr>)
                    else Some st)
              else Some st
            else Some st))"

text \<open>\<^verbatim>\<open>ProcessHeadersMessage\<close> after \<^verbatim>\<open>ProcessNewBlockHeaders\<close> accepted the headers;
  \<open>c\<close> is the chain engine after that call.\<close>
definition ProcessHeadersMessage_accepted ::
  "net_env \<Rightarrow> chain_iface \<Rightarrow> headers_result \<Rightarrow> CNode \<Rightarrow> nat \<Rightarrow> bool \<Rightarrow> net_state
     \<Rightarrow> (bool \<times> CNode \<times> net_state \<times> event list) option" where
  "ProcessHeadersMessage_accepted env c res pfrom nCount received_new_header st =
    (case State st (GetId pfrom) of
       None \<Rightarrow> None
     | Some nodestate \<Rightarrow>
        (case pindexLast res of
          None \<Rightarrow> None
        | Some pl \<Rightarrow>
           (case UpdateBlockAvailability c (GetId pfrom) (phashBlock (blk c pl))
                   (put_State (GetId pfrom) (nodestate\<lparr> nUnconnectingHeaders := 0 \<rparr>) st) of
              None \<Rightarrow> None
            | Some st2 \<Rightarrow>
               (case (Tip c, State st2 (GetId pfrom)) of
                  (Some tip, Some nodestate2) \<Rightarrow>
                   let st3 = (if received_new_header \<and> work c tip < work c pl
                              then put_State (GetId pfrom)
                                     (nodestate2\<lparr> m_last_block_announcement := GetTime env \<rparr>) st2
                              else st2);
                       ev1 = (if nCount = MAX_HEADERS_RESULTS
                              then [PushMessage (GetId pfrom) (GETHEADERS (Some pl) 0)] else [])
                   in (case CanDirectFetch c (GetAdjustedTime env) of
                         None \<Rightarrow> None
                       | Some fCanDirectFetch \<Rightarrow>
                          (case (if fCanDirectFetch \<and> IsValid c pl BLOCK_VALID_TREE
                                     \<and> work c tip \<le> work c pl
                                 then direct_fetch env c pfrom pl st3 else Some (st3, [])) of
                             None \<Rightarrow> None
                           | Some (st4, ev2) \<Rightarrow>
                              (case State st4 (GetId pfrom) of
                                 None \<Rightarrow> None
                               | Some nodestate4 \<Rightarrow>
                                  let pfrom1 =
                                        (if IsInitialBlockDownload c \<and> nCount \<noteq> MAX_HEADERS_RESULTS
                                            \<and> (case pindexBestKnownBlock nodestate4 of
                                                  None \<Rightarrow> False
                                                | Some best \<Rightarrow> work c best < nMinimumChainWork c)
                                            \<and> IsOutboundDisconnectionCandidate pfrom
                                         then pfrom\<lparr> fDisconnect := True \<rparr> else pfrom)
                                  in (case protect_outbound_peer c pfrom1 st4 of
                                        None \<Rightarrow> None
                                      | Some st5 \<Rightarrow> Some (True, pfrom1, st5, ev1 @ ev2)))))
                | _ \<Rightarrow> None))))"

text \<open>\<^verbatim>\<open>ProcessHeadersMessage(pfrom, connman, headers, chainparams,
  punish_duplicate_invalid)\<close>.  \<open>c\<close> is the chain engine before the call of
  \<^verbatim>\<open>ProcessNewBlockHeaders\<close>, \<open>c2\<close> after it, \<open>res\<close> what that call hands back.  The
  remainder \<^verbatim>\<open>%\<close> of C++ truncates, as \<open>smod\<close> does.  The log line of the announcement
  branch reads \<^verbatim>\<open>GetIndexBestHeader()->nHeight\<close>, so a null best header ends the run
  there.\<close>
definition ProcessHeadersMessage ::
  "net_env \<Rightarrow> chain_iface \<Rightarrow> chain_iface \<Rightarrow> headers_result \<Rightarrow> CNode \<Rightarrow> CBlockHeader list
     \<Rightarrow> bool \<Rightarrow> net_state \<Rightarrow> (bool \<times> CNode \<times> net_state \<times> event list) option" where
  "ProcessHeadersMessage env c c2 res pfrom headers punish_duplicate_invalid st =
    (if headers = [] then Some (True, pfrom, st, [])
     else if \<not> DoesBlockExist c (hashPrevBlock (hd headers))
              \<and> length headers < MAX_BLOCKS_TO_ANNOUNCE then
       (case State st (GetId pfrom) of
          None \<Rightarrow> None
        | Some nodestate \<Rightarrow>
           (case int_add (nUnconnectingHeaders nodestate) 1 of
              None \<Rightarrow> None
            | Some n \<Rightarrow>
               (case GetIndexBestHeader c of
                  None \<Rightarrow> None
                | Some pindexBestHeader \<Rightarrow>
                   (case UpdateBlockAvailability c (GetId pfrom) (GetHash c (last headers))
                           (put_State (GetId pfrom) (nodestate\<lparr> nUnconnectingHeaders := n \<rparr>) st) of
                      None \<Rightarrow> None
                    | Some st2 \<Rightarrow>
                       (case (if n smod MAX_UNCONNECTING_HEADERS = 0
                              then Misbehaving (arg_banscore env) (GetId pfrom) 20 st2
                              else Some st2) of
                          None \<Rightarrow> None
                        | Some st3 \<Rightarrow>
                           Some (True, pfrom, st3,
                                 [PushMessage (GetId pfrom)
                                    (GETHEADERS (Some pindexBestHeader) 0)]))))))
     else
       (case check_continuity c 0 headers of
          (False, _) \<Rightarrow>
           (case Misbehaving (arg_banscore env) (GetId pfrom) 20 st of
              None \<Rightarrow> None
            | Some st1 \<Rightarrow> Some (False, pfrom, st1, []))
        | (True, hashLastBlock) \<Rightarrow>
           if \<not> accepted res \<and> IsInvalid res then
             (case (if 0 < nDoS res
                    then Misbehaving (arg_banscore env) (GetId pfrom) (nDoS res) st
                    else Some st) of
                None \<Rightarrow> None
              | Some st1 \<Rightarrow>
                 Some (False,
                       if punish_duplicate_invalid
                           \<and> DoesBlockExist c2 (GetHash c2 (first_invalid_header res))
                       then pfrom\<lparr> fDisconnect := True \<rparr> else pfrom,
                       st1, [SubmitHeaders]))
           else
             (case ProcessHeadersMessage_accepted env c2 res pfrom (length headers)
                     (\<not> DoesBlockExist c hashLastBlock) st of
                None \<Rightarrow> None
              | Some (r, pfrom1, st1, ev) \<Rightarrow> Some (r, pfrom1, st1, SubmitHeaders # ev))))"


section \<open>The outbound tick: timeouts and eviction\<close>


text \<open>The block download timeout of \<^verbatim>\<open>SendMessages\<close> (the statement that starts with
  \<^verbatim>\<open>if (state.vBlocksInFlight.size() > 0)\<close>).  \<open>base\<close> and \<open>per_peer\<close> are
  \<^verbatim>\<open>BLOCK_DOWNLOAD_TIMEOUT_BASE\<close> and \<^verbatim>\<open>BLOCK_DOWNLOAD_TIMEOUT_PER_PEER\<close>, \<open>nNow\<close> the
  clock in microseconds.  The first component says whether \<^verbatim>\<open>SendMessages\<close> returns
  here.  \<^verbatim>\<open>SendMessages\<close> gets to this statement only with \<^verbatim>\<open>fDisconnect\<close> unset.\<close>
definition SendMessages_block_timeout ::
  "int \<Rightarrow> int \<Rightarrow> chain_iface \<Rightarrow> int \<Rightarrow> CNode \<Rightarrow> net_state \<Rightarrow> (bool \<times> CNode) option" where
  "SendMessages_block_timeout base per_peer c nNow pto st =
    (case State st (GetId pto) of
       None \<Rightarrow> None
     | Some state \<Rightarrow>
        if vBlocksInFlight state \<noteq> [] then
          let nOtherPeersWithValidatedDownloads =
                nPeersWithValidatedDownloads st - of_bool (0 < nBlocksInFlightValidHeaders state)
          in if nDownloadingSince state
                  + nPowTargetSpacing c * (base + per_peer * nOtherPeersWithValidatedDownloads)
                < nNow
             then Some (True, pto\<lparr> fDisconnect := True \<rparr>)
             else Some (False, pto)
        else Some (False, pto))"

text \<open>Modelled from the spec: \<^verbatim>\<open>BLOCK_DOWNLOAD_TIMEOUT_BASE\<close> and
  \<^verbatim>\<open>BLOCK_DOWNLOAD_TIMEOUT_PER_PEER\<close> are declared in a header that is not part of the
  source at hand.  The specification's table of constants gives them as
  \<open>1000 \<cdot> target_spacing\<close> and \<open>500 \<cdot> target_spacing\<close> microseconds.\<close>
definition BLOCK_DOWNLOAD_TIMEOUT_BASE :: "int \<Rightarrow> int" where
  "BLOCK_DOWNLOAD_TIMEOUT_BASE target_spacing = 1000 * target_spacing"

definition BLOCK_DOWNLOAD_TIMEOUT_PER_PEER :: "int \<Rightarrow> int" where
  "BLOCK_DOWNLOAD_TIMEOUT_PER_PEER target_spacing = 500 * target_spacing"

text \<open>The start of the headers sync in \<^verbatim>\<open>SendMessages\<close> (\<^verbatim>\<open>// Start block sync\<close>).
  \<open>hdr_base\<close> and \<open>hdr_per_header\<close> are \<^verbatim>\<open>HEADERS_DOWNLOAD_TIMEOUT_BASE\<close> and
  \<^verbatim>\<open>HEADERS_DOWNLOAD_TIMEOUT_PER_HEADER\<close>; \<open>busy\<close> is
  \<^verbatim>\<open>fImporting || IsReindexing()\<close>.  C++ division truncates, as \<open>sdiv\<close> does; a division
  by zero is undefined.\<close>
definition SendMessages_start_sync ::
  "net_env \<Rightarrow> chain_iface \<Rightarrow> int \<Rightarrow> int \<Rightarrow> bool \<Rightarrow> CNode \<Rightarrow> net_state
     \<Rightarrow> (net_state \<times> event list) option" where
  "SendMessages_start_sync env c hdr_base hdr_per_header busy pto st =
    (case State st (GetId pto) of
       None \<Rightarrow> None
     | Some state \<Rightarrow>
        let fFetch = (fPreferredDownload state
                      \<or> (nPreferredDownload st = 0 \<and> \<not> fClient pto \<and> \<not> fOneShot pto))
        in if \<not> fSyncStarted state \<and> \<not> fClient pto \<and> \<not> busy then
             (case GetIndexBestHeader c of
                None \<Rightarrow> None
              | Some pindexBestHeader \<Rightarrow>
                 if (nSyncStarted st = 0 \<and> fFetch)
                    \<or> GetAdjustedTime env - 24 * 60 * 60 < nTime (blk c pindexBestHeader)
                 then
                   if nPowTargetSpacing c = 0 then None
                   else
                     Some ((put_State (GetId pto)
                              (state\<lparr> fSyncStarted := True,
                                      nHeadersSyncTimeout :=
                                        GetTimeMicros env + hdr_base
                                        + (hdr_per_header
                                             * (GetAdjustedTime env - nTime (blk c pindexBestHeader)))
                                          sdiv nPowTargetSpacing c \<rparr>) st)
                           \<lparr> nSyncStarted := nSyncStarted st + 1 \<rparr>,
                           [PushMessage (GetId pto)
                              (GETHEADERS
                                 (case pprev (blk c pindexBestHeader) of
                                    None \<Rightarrow> Some pindexBestHeader
                                  | Some pp \<Rightarrow> Some pp) 0)])
                 else Some (st, []))
           else Some (st, []))"

text \<open>\<^verbatim>\<open>std::numeric_limits<int64_t>::max()\<close>.\<close>
definition INT64_MAX :: int where
  "INT64_MAX = 2 ^ 63 - 1"

text \<open>The headers sync timeout of \<^verbatim>\<open>SendMessages\<close> (\<^verbatim>\<open>// Check for headers sync
  timeouts\<close>); the first component says whether \<^verbatim>\<open>SendMessages\<close> returns here.\<close>
definition SendMessages_headers_timeout ::
  "net_env \<Rightarrow> chain_iface \<Rightarrow> int \<Rightarrow> CNode \<Rightarrow> net_state \<Rightarrow> (bool \<times> CNode \<times> net_state) option" where
  "SendMessages_headers_timeout env c nNow pto st =
    (case State st (GetId pto) of
       None \<Rightarrow> None
     | Some state \<Rightarrow>
        if fSyncStarted state \<and> nHeadersSyncTimeout state < INT64_MAX then
          (case GetIndexBestHeader c of
             None \<Rightarrow> None
           | Some pindexBestHeader \<Rightarrow>
              if nTime (blk c pindexBestHeader) \<le> GetAdjustedTime env - 24 * 60 * 60 then
                if nHeadersSyncTimeout state < nNow \<and> nSyncStarted st = 1
                   \<and> 1 \<le> nPreferredDownload st - of_bool (fPreferredDownload state)
                then
                  if \<not> fWhitelisted pto then Some (True, pto\<lparr> fDisconnect := True \<rparr>, st)
                  else
                    Some (False, pto,
                          (put_State (GetId pto)
                             (state\<lparr> fSyncStarted := False, nHeadersSyncTimeout := 0 \<rparr>) st)
                          \<lparr> nSyncStarted := nSyncStarted st - 1 \<rparr>)
                else Some (False, pto, st)
              else
                Some (False, pto,
                      put_State (GetId pto) (state\<lparr> nHeadersSyncTimeout := INT64_MAX \<rparr>) st))
        else Some (False, pto, st))"


section \<open>The version handshake\<close>

text \<open>The payload of a \<^verbatim>\<open>version\<close> message as \<^verbatim>\<open>ProcessVersionMsg\<close> reads it from the
  stream.  The fields after \<^verbatim>\<open>addrMe\<close> are read while the stream is not empty, so a
  message ends after any of them.\<close>
datatype version_tail =
    NoTail
  | Tail1 "64 word" \<comment> \<open>\<^verbatim>\<open>addrFrom\<close> and \<^verbatim>\<open>nNonce\<close>\<close>
  | Tail2 "64 word" string \<comment> \<open>and \<^verbatim>\<open>strSubVer\<close>\<close>
  | Tail3 "64 word" string int \<comment> \<open>and \<^verbatim>\<open>nStartingHeight\<close>\<close>
  | Tail4 "64 word" string int bool \<comment> \<open>and \<^verbatim>\<open>fRelay\<close>\<close>

record version_msg =
  v_nVersion :: int
  v_nServiceInt :: "64 word"
  v_nTime :: int
  v_addrMe_IsRoutable :: bool
  v_tail :: version_tail

fun tail_nNonce :: "version_tail \<Rightarrow> 64 word" where
  "tail_nNonce NoTail = 1"
| "tail_nNonce (Tail1 n) = n"
| "tail_nNonce (Tail2 n _) = n"
| "tail_nNonce (Tail3 n _ _) = n"
| "tail_nNonce (Tail4 n _ _ _) = n"

fun tail_strSubVer :: "version_tail \<Rightarrow> string" where
  "tail_strSubVer (Tail2 _ s) = s"
| "tail_strSubVer (Tail3 _ s _) = s"
| "tail_strSubVer (Tail4 _ s _ _) = s"
| "tail_strSubVer _ = []"

fun tail_nStartingHeight :: "version_tail \<Rightarrow> int" where
  "tail_nStartingHeight (Tail3 _ _ h) = h"
| "tail_nStartingHeight (Tail4 _ _ h _) = h"
| "tail_nStartingHeight _ = - 1"

fun tail_fRelay :: "version_tail \<Rightarrow> bool" where
  "tail_fRelay (Tail4 _ _ _ r) = r"
| "tail_fRelay _ = True"

text \<open>What the handshake reads from the connection manager, the address manager and the
  active chain.\<close>
record handshake_iface =
  CheckIncomingNonce :: "64 word \<Rightarrow> bool"
  GetAddressCount :: nat
  fListen :: bool
  LocalAddress_IsRoutable :: bool \<comment> \<open>\<^verbatim>\<open>GetLocalAddress(...).IsRoutable()\<close>\<close>
  IsPeerAddrLocalGood :: bool
  in_IBD :: bool \<comment> \<open>\<^verbatim>\<open>IsInitialBlockDownload()\<close>\<close>
  tip_signals_contract :: bool
    \<comment> \<open>\<^verbatim>\<open>Tip()->nVersion & (1 << VERSIONBITS_SBTC_CONTRACT)\<close>\<close>
  tip_past_contract_fork :: bool
    \<comment> \<open>\<^verbatim>\<open>Tip()->nHeight > SBTCContractForkHeight\<close>\<close>

text \<open>\<^verbatim>\<open>PeerLogicValidation::ProcessVersionMsg(pfrom, vRecv)\<close>, in three parts.  A reject
  carries the format string of its reason.  The node's local address
  (\<^verbatim>\<open>SetAddrLocal\<close>) and the sanitised sub-version, which nothing here reads, are left
  out.

  First the exits that refuse the peer, after the duplicate check: each marks the node for
  disconnection and returns; the result is the return value and what is sent, or \<open>None\<close>
  when the message passes.\<close>
definition version_refused ::
  "net_env \<Rightarrow> handshake_iface \<Rightarrow> CNode \<Rightarrow> version_msg \<Rightarrow> (bool \<times> event list) option" where
  "version_refused env hs pfrom msg =
    (if nServicesExpected pfrom AND NOT (v_nServiceInt msg) \<noteq> 0 then
       Some (False, [PushMessage (GetId pfrom) (REJECT_VERSION ''Expected to offer services %08x'')])
     else if v_nServiceInt msg AND (push_bit 7 1 OR push_bit 5 1) \<noteq> 0
             \<and> GetTime env < 1533096000 then
       Some (False, [])
     else if v_nVersion msg
               < (if tip_signals_contract hs then SBTC_CONTRACT_VERSION env
                  else MIN_PEER_PROTO_VERSION env) then
       Some (False, [PushMessage (GetId pfrom) (REJECT_VERSION ''Version must be %d or greater'')])
     else if fInbound pfrom \<and> \<not> CheckIncomingNonce hs (tail_nNonce (v_tail msg)) then
       Some (True, [])
     else None)"

text \<open>The node after the fields of the message are stored, up to \<^verbatim>\<open>pfrom->nVersion\<close>.\<close>
definition version_recorded :: "net_env \<Rightarrow> CNode \<Rightarrow> version_msg \<Rightarrow> CNode" where
  "version_recorded env pfrom msg =
     pfrom\<lparr> nServices := v_nServiceInt msg,
            strSubVer := tail_strSubVer (v_tail msg),
            nStartingHeight := tail_nStartingHeight (v_tail msg),
            fClient := (v_nServiceInt msg AND NODE_NETWORK env = 0),
            fRelayTxes := tail_fRelay (v_tail msg),
            nSendVersion := min (v_nVersion msg) (PROTOCOL_VERSION env),
            nVersion := (if v_nVersion msg = 10300 then 300 else v_nVersion msg) \<rparr>"

text \<open>\<^verbatim>\<open>// Get recent addresses\<close>: whether \<^verbatim>\<open>getaddr\<close> is sent; \<open>pfrom1\<close> is the node
  with the message recorded.\<close>
definition version_getaddr :: "net_env \<Rightarrow> handshake_iface \<Rightarrow> CNode \<Rightarrow> bool" where
  "version_getaddr env hs pfrom1 =
     (\<not> fInbound pfrom1
      \<and> (fOneShot pfrom1 \<or> CADDR_TIME_VERSION env \<le> nVersion pfrom1
         \<or> GetAddressCount hs < 1000))"

text \<open>What an accepted message sends and calls, in program order.\<close>
definition version_events ::
  "net_env \<Rightarrow> handshake_iface \<Rightarrow> CNode \<Rightarrow> CNode \<Rightarrow> version_msg \<Rightarrow> event list" where
  "version_events env hs pfrom pfrom1 msg =
     (if fInbound pfrom \<and> v_addrMe_IsRoutable msg then [SeenLocal] else [])
     @ (if fInbound pfrom then [PushMessage (GetId pfrom) VERSION] else [])
     @ [PushMessage (GetId pfrom) VERACK]
     @ (if \<not> fInbound pfrom1 then
          (if fListen hs \<and> \<not> in_IBD hs
              \<and> (LocalAddress_IsRoutable hs \<or> IsPeerAddrLocalGood hs)
           then [PushAddress (GetId pfrom)] else [])
          @ (if version_getaddr env hs pfrom1 then [PushMessage (GetId pfrom) GETADDR] else [])
          @ [MarkAddressGood (GetId pfrom)]
        else [])
     @ [AddTimeData (GetId pfrom) (v_nTime msg - GetTime env)]
     @ (if nVersion pfrom1 \<le> 70012 then [PushMessage (GetId pfrom) ALERT] else [])"

text \<open>The rest of the function for a message that passed; \<open>ev0\<close> is what was called
  before.\<close>
definition version_accept ::
  "net_env \<Rightarrow> handshake_iface \<Rightarrow> CNode \<Rightarrow> version_msg \<Rightarrow> event list \<Rightarrow> net_state
     \<Rightarrow> (bool \<times> CNode \<times> net_state \<times> event list) option" where
  "version_accept env hs pfrom msg ev0 st =
    (case (if v_nServiceInt msg AND NODE_WITNESS env \<noteq> 0 then
             (case State st (GetId pfrom) of
                None \<Rightarrow> None
              | Some state \<Rightarrow>
                 Some (put_State (GetId pfrom) (state\<lparr> fHaveWitness := True \<rparr>) st))
           else Some st) of
       None \<Rightarrow> None
     | Some st1 \<Rightarrow>
        (case UpdatePreferredDownload (version_recorded env pfrom msg) st1 of
           None \<Rightarrow> None
         | Some st2 \<Rightarrow>
            let pfrom1 = version_recorded env pfrom msg;
                pfrom2 = pfrom1\<lparr> fGetAddr := (fGetAddr pfrom1 \<or> version_getaddr env hs pfrom1),
                                 nTimeOffset := v_nTime msg - GetTime env \<rparr>;
                ev = ev0 @ version_events env hs pfrom pfrom1 msg
            in if fFeeler pfrom2 then
                 if fInbound pfrom2 then None
                 else Some (True, pfrom2\<lparr> fDisconnect := True \<rparr>, st2, ev)
               else Some (True, pfrom2, st2, ev)))"

definition ProcessVersionMsg ::
  "net_env \<Rightarrow> handshake_iface \<Rightarrow> CNode \<Rightarrow> version_msg \<Rightarrow> net_state
     \<Rightarrow> (bool \<times> CNode \<times> net_state \<times> event list) option" where
  "ProcessVersionMsg env hs pfrom msg st =
    (if nVersion pfrom \<noteq> 0 then
       (case Misbehaving (arg_banscore env) (GetId pfrom) 1 st of
          None \<Rightarrow> None
        | Some st1 \<Rightarrow>
           Some (False, pfrom, st1,
                 [PushMessage (GetId pfrom) (REJECT_VERSION ''Duplicate version message'')]))
     else
       let ev0 = (if \<not> fInbound pfrom then [SetServices (GetId pfrom) (v_nServiceInt msg)] else [])
       in (case version_refused env hs pfrom msg of
             Some (r, ev) \<Rightarrow> Some (r, pfrom\<lparr> fDisconnect := True \<rparr>, st, ev0 @ ev)
           | None \<Rightarrow> version_accept env hs pfrom msg ev0 st))"

text \<open>\<^verbatim>\<open>PeerLogicValidation::ProcessVerAckMsg(pfrom, vRecv)\<close>.\<close>
definition ProcessVerAckMsg ::
  "net_env \<Rightarrow> CNode \<Rightarrow> net_state \<Rightarrow> (bool \<times> CNode \<times> net_state \<times> event list) option" where
  "ProcessVerAckMsg env pfrom st =
    (case (if \<not> fInbound pfrom then
             (case State st (GetId pfrom) of
                None \<Rightarrow> None
              | Some state \<Rightarrow>
                 Some (put_State (GetId pfrom) (state\<lparr> fCurrentlyConnected := True \<rparr>) st))
           else Some st) of
       None \<Rightarrow> None
     | Some st1 \<Rightarrow>
        Some (True,
              pfrom\<lparr> nRecvVersion := min (nVersion pfrom) (PROTOCOL_VERSION env),
                     fSuccessfullyConnected := True \<rparr>,
              st1,
              (if SENDHEADERS_VERSION env \<le> nVersion pfrom
               then [PushMessage (GetId pfrom) SENDHEADERS] else [])
              @ (if SHORT_IDS_BLOCKS_VERSION env \<le> nVersion pfrom then
                   (if nLocalServices pfrom AND NODE_WITNESS env \<noteq> 0
                    then [PushMessage (GetId pfrom) (SENDCMPCT False 2)] else [])
                   @ [PushMessage (GetId pfrom) (SENDCMPCT False 1)]
                 else [])))"

text \<open>\<^verbatim>\<open>PeerLogicValidation::ProcessMessage\<close> for the two handshake commands, with
  \<^verbatim>\<open>-dropmessagestest\<close> unset.  The checks before the dispatch that concern other
  commands (the bloom filter commands, \<^verbatim>\<open>reject\<close>) do not apply to these two.\<close>
datatype handshake_cmd = CmdVersion version_msg | CmdVerack

definition ProcessMessage_handshake ::
  "net_env \<Rightarrow> handshake_iface \<Rightarrow> CNode \<Rightarrow> handshake_cmd \<Rightarrow> net_state
     \<Rightarrow> (bool \<times> CNode \<times> net_state \<times> event list) option" where
  "ProcessMessage_handshake env hs pfrom cmd st =
    (if tip_past_contract_fork hs \<and> nVersion pfrom \<noteq> 0
        \<and> nVersion pfrom < SBTC_CONTRACT_VERSION env then
       Some (False, pfrom\<lparr> fDisconnect := True \<rparr>, st,
             [PushMessage (GetId pfrom) (REJECT_VERSION ''Version must be %d or greater'')])
     else
       (case cmd of
          CmdVersion msg \<Rightarrow> ProcessVersionMsg env hs pfrom msg st
        | CmdVerack \<Rightarrow>
           if nVersion pfrom = 0 then
             (case Misbehaving (arg_banscore env) (GetId pfrom) 1 st of
                None \<Rightarrow> None
              | Some st1 \<Rightarrow> Some (False, pfrom, st1, []))
           else ProcessVerAckMsg env pfrom st))"


section \<open>Consistency of the store\<close>

text \<open>The number of rows of \<^verbatim>\<open>mapNodeState\<close> that satisfy \<open>P\<close>.\<close>
definition tally :: "(CNodeState \<Rightarrow> bool) \<Rightarrow> (NodeId \<rightharpoonup> CNodeState) \<Rightarrow> int" where
  "tally P m = int (card {p. \<exists>s. m p = Some s \<and> P s})"

text \<open>A peer's queue: its list nodes are allocated and distinct, every entry is the one
  \<^verbatim>\<open>mapBlocksInFlight\<close> holds for its hash, and \<^verbatim>\<open>nBlocksInFlightValidHeaders\<close> counts
  the entries with validated headers.\<close>
definition queue_ok :: "net_state \<Rightarrow> NodeId \<Rightarrow> CNodeState \<Rightarrow> bool" where
  "queue_ok st p s =
    (distinct (map fst (vBlocksInFlight s))
     \<and> (\<forall>e \<in> set (vBlocksInFlight s).
           fst e < heap_next st \<and> mapBlocksInFlight st (hash (snd e)) = Some (p, fst e))
     \<and> nBlocksInFlightValidHeaders s
         = int (length (filter (\<lambda>e. fValidatedHeaders (snd e)) (vBlocksInFlight s))))"

definition store_inv :: "net_state \<Rightarrow> bool" where
  "store_inv st =
    (finite (dom (mapNodeState st))
     \<and> (\<forall>p s. mapNodeState st p = Some s \<longrightarrow> queue_ok st p s)
     \<and> (\<forall>h p it. mapBlocksInFlight st h = Some (p, it) \<longrightarrow>
           (\<exists>s qb. mapNodeState st p = Some s \<and> (it, qb) \<in> set (vBlocksInFlight s) \<and> hash qb = h))
     \<and> nSyncStarted st = tally fSyncStarted (mapNodeState st)
     \<and> nPreferredDownload st = tally fPreferredDownload (mapNodeState st)
     \<and> nPeersWithValidatedDownloads st
         = tally (\<lambda>s. nBlocksInFlightValidHeaders s \<noteq> 0) (mapNodeState st)
     \<and> g_outbound_peers_with_protect_from_disconnect st
         = tally (\<lambda>s. m_protect (m_chain_sync s)) (mapNodeState st))"

text \<open>The fields of a \<^verbatim>\<open>CNodeState\<close> that the global tallies and the in-flight map
  depend on.\<close>
definition same_tallied_fields :: "CNodeState \<Rightarrow> CNodeState \<Rightarrow> bool" where
  "same_tallied_fields s s' =
    (fSyncStarted s' = fSyncStarted s
     \<and> fPreferredDownload s' = fPreferredDownload s
     \<and> vBlocksInFlight s' = vBlocksInFlight s
     \<and> nBlocksInFlightValidHeaders s' = nBlocksInFlightValidHeaders s
     \<and> m_protect (m_chain_sync s') = m_protect (m_chain_sync s))"

text \<open>The states of the store that the file can get to.  There is one rule for each
  place of the file that writes \<^verbatim>\<open>mapNodeState\<close>, \<^verbatim>\<open>mapBlocksInFlight\<close>, a tally, or one
  of the fields above: \<^verbatim>\<open>InitializeNode\<close>, \<^verbatim>\<open>FinalizeNode\<close>, \<^verbatim>\<open>MarkBlockAsInFlight\<close>,
  \<^verbatim>\<open>MarkBlockAsReceived\<close>, \<^verbatim>\<open>UpdatePreferredDownload\<close>, the start and the timeout of the
  headers sync in \<^verbatim>\<open>SendMessages\<close>, and the protection of an outbound peer in
  \<^verbatim>\<open>ProcessHeadersMessage\<close>.  Every other write of the file changes other fields of one
  row (rule \<open>other_fields\<close>).\<close>
inductive reachable :: "net_state \<Rightarrow> bool" where
  init: "reachable net_state_init"
| initialize:
    "reachable st \<Longrightarrow> reachable (fst (InitializeNode addr addrName pnode st))"
| finalize:
    "reachable st \<Longrightarrow> FinalizeNode nodeid st = Some (b, st') \<Longrightarrow> reachable st'"
| in_flight:
    "reachable st \<Longrightarrow> MarkBlockAsInFlight now0 now nodeid h pindex' want_pit st = Some (b, pit, st')
       \<Longrightarrow> reachable st'"
| received:
    "reachable st \<Longrightarrow> MarkBlockAsReceived now h st = Some (b, st') \<Longrightarrow> reachable st'"
| preferred:
    "reachable st \<Longrightarrow> UpdatePreferredDownload node st = Some st' \<Longrightarrow> reachable st'"
| start_sync:
    "reachable st \<Longrightarrow> SendMessages_start_sync env c hdr_base hdr_per_header busy pto st = Some (st', ev)
       \<Longrightarrow> reachable st'"
| headers_timeout:
    "reachable st \<Longrightarrow> SendMessages_headers_timeout env c nNow pto st = Some (b, pto', st')
       \<Longrightarrow> reachable st'"
| protect:
    "reachable st \<Longrightarrow> protect_outbound_peer c pfrom st = Some st' \<Longrightarrow> reachable st'"
| other_fields:
    "reachable st \<Longrightarrow> State st p = Some s \<Longrightarrow> same_tallied_fields s s'
       \<Longrightarrow> reachable (put_State p s' st)"


text \<open>The state after \<^verbatim>\<open>MarkBlockAsReceived\<close> removed the entry \<open>(it, qb)\<close> of peer \<open>p\<close>.\<close>
definition received_state :: "int \<Rightarrow> uint256 \<Rightarrow> NodeId \<Rightarrow> qiter \<Rightarrow> QueuedBlock \<Rightarrow> CNodeState \<Rightarrow> net_state \<Rightarrow> net_state" where
  "received_state now h p it qb s st =
     (put_State p
        (s\<lparr> nBlocksInFlightValidHeaders :=
               nBlocksInFlightValidHeaders s - of_bool (fValidatedHeaders qb),
             nDownloadingSince :=
               (if (case vBlocksInFlight s of [] \<Rightarrow> False | e # _ \<Rightarrow> fst e = it)
                then max (nDownloadingSince s) now else nDownloadingSince s),
             vBlocksInFlight := filter (\<lambda>e. fst e \<noteq> it) (vBlocksInFlight s),
             nBlocksInFlight := nBlocksInFlight s - 1,
             nStallingSince := 0 \<rparr>) st)
       \<lparr> mapBlocksInFlight := (mapBlocksInFlight st)(h := None),
         nPeersWithValidatedDownloads :=
           (if nBlocksInFlightValidHeaders s - of_bool (fValidatedHeaders qb) = 0
               \<and> fValidatedHeaders qb
            then nPeersWithValidatedDownloads st - 1 else nPeersWithValidatedDownloads st) \<rparr>"


text \<open>The state after \<^verbatim>\<open>MarkBlockAsInFlight\<close> appended a new entry for \<open>h\<close> to the queue
  of peer \<open>p\<close>, whose row is \<open>s\<close>.\<close>
definition inflight_state ::
  "int \<Rightarrow> uint256 \<Rightarrow> blockref option \<Rightarrow> bool \<Rightarrow> NodeId \<Rightarrow> CNodeState \<Rightarrow> net_state \<Rightarrow> net_state" where
  "inflight_state now h pindex' want_pit p s st =
     (put_State p
        (s\<lparr> vBlocksInFlight :=
               vBlocksInFlight s
               @ [(heap_next st, \<lparr> hash = h, pindex = pindex', fValidatedHeaders = (pindex' \<noteq> None),
                                    partialBlock = want_pit \<rparr>)],
             nBlocksInFlight := nBlocksInFlight s + 1,
             nBlocksInFlightValidHeaders :=
               nBlocksInFlightValidHeaders s + of_bool (pindex' \<noteq> None),
             nDownloadingSince :=
               (if nBlocksInFlight s + 1 = 1 then now else nDownloadingSince s) \<rparr>) st)
       \<lparr> mapBlocksInFlight := (mapBlocksInFlight st)(h \<mapsto> (p, heap_next st)),
         nPeersWithValidatedDownloads :=
           (if nBlocksInFlightValidHeaders s + of_bool (pindex' \<noteq> None) = 1 \<and> pindex' \<noteq> None
            then nPeersWithValidatedDownloads st + 1 else nPeersWithValidatedDownloads st),
         heap_next := Suc (heap_next st) \<rparr>"


text \<open>The state after \<^verbatim>\<open>FinalizeNode\<close> removed peer \<open>p\<close>, whose row was \<open>s\<close>.\<close>
definition finalized_state :: "NodeId \<Rightarrow> CNodeState \<Rightarrow> net_state \<Rightarrow> net_state" where
  "finalized_state p s st =
     st\<lparr> mapNodeState := (mapNodeState st)(p := None),
         mapBlocksInFlight := fold (\<lambda>entry m. m(hash (snd entry) := None))
                                   (vBlocksInFlight s) (mapBlocksInFlight st),
         nSyncStarted := nSyncStarted st - of_bool (fSyncStarted s),
         nPreferredDownload := nPreferredDownload st - of_bool (fPreferredDownload s),
         nPeersWithValidatedDownloads :=
           nPeersWithValidatedDownloads st - of_bool (nBlocksInFlightValidHeaders s \<noteq> 0),
         g_outbound_peers_with_protect_from_disconnect :=
           g_outbound_peers_with_protect_from_disconnect st
             - of_bool (m_protect (m_chain_sync s)) \<rparr>"


section \<open>A connection seen from the misbehaviour score\<close>

text \<open>The two operations on the score of one peer during one connection: a call of
  \<^verbatim>\<open>Misbehaving\<close> with some increment, and the flush of
  \<^verbatim>\<open>SendRejectsAndCheckIfBanned\<close> (run by every \<^verbatim>\<open>ProcessMessages\<close> and
  \<^verbatim>\<open>SendMessages\<close>).  \<open>peer_run\<close> runs a sequence of them and collects the flags the
  flushes returned and the events.\<close>
datatype peer_step = Misbehave int | SendRejects

fun positive_step :: "peer_step \<Rightarrow> bool" where
  "positive_step (Misbehave n) = (0 < n)"
| "positive_step SendRejects = True"

fun peer_run ::
  "int \<Rightarrow> peer_step list \<Rightarrow> CNode \<Rightarrow> net_state
     \<Rightarrow> (bool list \<times> CNode \<times> net_state \<times> event list) option" where
  "peer_run banscore [] pnode st = Some ([], pnode, st, [])"
| "peer_run banscore (Misbehave n # xs) pnode st =
    (case Misbehaving banscore (GetId pnode) n st of
       None \<Rightarrow> None
     | Some st1 \<Rightarrow> peer_run banscore xs pnode st1)"
| "peer_run banscore (SendRejects # xs) pnode st =
    (case SendRejectsAndCheckIfBanned pnode st of
       None \<Rightarrow> None
     | Some (b, pnode1, st1, ev) \<Rightarrow>
        (case peer_run banscore xs pnode1 st1 of
           None \<Rightarrow> None
         | Some (bs, pnode2, st2, ev2) \<Rightarrow> Some (b # bs, pnode2, st2, ev @ ev2)))"

definition count_bans :: "event list \<Rightarrow> nat" where
  "count_bans ev = length (filter (\<lambda>e. case e of Ban _ \<Rightarrow> True | _ \<Rightarrow> False) ev)"

definition count_true :: "bool list \<Rightarrow> nat" where
  "count_true bs = length (filter (\<lambda>b. b) bs)"



text \<open>A \<^verbatim>\<open>version\<close> message followed by a \<^verbatim>\<open>verack\<close>, both through
  \<^verbatim>\<open>ProcessMessage\<close>: the result is what the first call returned and sent, and the whole
  result of the second.\<close>
definition version_then_verack ::
  "net_env \<Rightarrow> handshake_iface \<Rightarrow> CNode \<Rightarrow> version_msg \<Rightarrow> net_state
     \<Rightarrow> ((bool \<times> event list) \<times> (bool \<times> CNode \<times> net_state \<times> event list)) option" where
  "version_then_verack env hs pfrom msg st =
    (case ProcessMessage_handshake env hs pfrom (CmdVersion msg) st of
       None \<Rightarrow> None
     | Some (r1, pfrom1, st1, ev1) \<Rightarrow>
        (case ProcessMessage_handshake env hs pfrom1 CmdVerack st1 of
           None \<Rightarrow> None
         | Some res \<Rightarrow> Some ((r1, ev1), res)))"

section \<open>Example inputs\<close>

text \<open>An outbound peer with id 7, and the store after \<^verbatim>\<open>InitializeNode\<close> for it.\<close>
definition ex_node :: CNode where
  "ex_node =
    \<lparr> GetId = 7, fInbound = False, fWhitelisted = False, fOneShot = False, fClient = False,
      fFeeler = False, m_manual_connection = False, addr_IsLocal = False, fDisconnect = False,
      fSuccessfullyConnected = False, nVersion = 0, nSendVersion = 0, nRecvVersion = 0,
      nServices = 0, nServicesExpected = 0, nLocalServices = 0, nStartingHeight = - 1,
      fRelayTxes = False, fGetAddr = False, nTimeOffset = 0, strSubVer = [] \<rparr>"

definition ex_store :: net_state where
  "ex_store = fst (InitializeNode ''203.0.113.7:8333'' ''peer7'' ex_node net_state_init)"

text \<open>The same store after \<^verbatim>\<open>MarkBlockAsInFlight(7, 17, pindex)\<close> with a known
  \<^verbatim>\<open>pindex\<close>, at time 100.\<close>
definition ex_busy :: net_state where
  "ex_busy = inflight_state 100 17 (Some 3) False 7
               (CNodeState_ctor ''203.0.113.7:8333'' ''peer7'') ex_store"

text \<open>The first store after the peer's \<^verbatim>\<open>verack\<close>.\<close>
definition ex_connected :: net_state where
  "ex_connected = put_State 7
     ((CNodeState_ctor ''203.0.113.7:8333'' ''peer7'')\<lparr> fCurrentlyConnected := True \<rparr>) ex_store"

text \<open>A chain engine for the examples: block \<open>r\<close> has hash \<open>r + 1\<close>, height \<open>r\<close>, work
  \<open>r + 1\<close> and parent \<open>r - 1\<close>; the index holds the blocks 0 to 5, the active chain the
  blocks 0 to 2.  A header's hash is read off its Merkle root.\<close>
definition ex_chain :: chain_iface where
  "ex_chain =
    \<lparr> blk = (\<lambda>r. \<lparr> phashBlock = of_nat (r + 1),
                     pprev = (if r = 0 then None else Some (r - 1)),
                     nHeight = int r, nChainWork = r + 1, nChainTx = 1, nStatus = 0,
                     nTime = 1600000000 + 600 * int r \<rparr>),
      GetBlockIndex = (\<lambda>h. if 1 \<le> unat h \<and> unat h \<le> 6 then Some (unat h - 1) else None),
      DoesBlockExist = (\<lambda>h. 1 \<le> unat h \<and> unat h \<le> 6),
      GetHash = hashMerkleRoot,
      Tip = Some 2,
      Height = 2,
      ChainAt = (\<lambda>h. if 0 \<le> h \<and> h \<le> 2 then Some (nat h) else None),
      Contains = (\<lambda>r. r \<le> 2),
      GetAncestor = (\<lambda>r h. if 0 \<le> h \<and> h \<le> int r then Some (nat h) else None),
      LastCommonAncestor = (\<lambda>a b. Some (min a b)),
      IsValid = (\<lambda>_ _. True),
      BLOCK_HAVE_DATA = 8,
      IsWitnessEnabled = (\<lambda>_. False),
      GetIndexBestHeader = Some 5,
      IsInitialBlockDownload = False,
      nMinimumChainWork = 0,
      nPowTargetSpacing = 600 \<rparr>"

definition ex_env :: net_env where
  "ex_env =
    \<lparr> GetTime = 1600003000, GetTimeMicros = 1600003000000000, GetAdjustedTime = 1600003000,
      arg_banscore = 100, NODE_NETWORK = 1, NODE_WITNESS = 8, MSG_BLOCK = 2,
      MSG_WITNESS_FLAG = 1073741824, MSG_CMPCT_BLOCK = 4, PROTOCOL_VERSION = 70015,
      MIN_PEER_PROTO_VERSION = 31800, SBTC_CONTRACT_VERSION = 70016,
      SENDHEADERS_VERSION = 70012, SHORT_IDS_BLOCKS_VERSION = 70014,
      CADDR_TIME_VERSION = 31402 \<rparr>"



text \<open>An inbound peer with id 9 and its store; the connection manager and a
  \<^verbatim>\<open>version\<close> message of protocol 70015 offering \<^verbatim>\<open>NODE_NETWORK\<close> and
  \<^verbatim>\<open>NODE_WITNESS\<close>.\<close>
definition ex_inbound :: CNode where
  "ex_inbound = ex_node\<lparr> GetId := 9, fInbound := True, nLocalServices := 9 \<rparr>"

definition ex_outbound :: CNode where
  "ex_outbound = ex_node\<lparr> nLocalServices := 9 \<rparr>"

definition ex_store_in :: net_state where
  "ex_store_in = fst (InitializeNode ''198.51.100.9:50001'' ''peer9'' ex_inbound net_state_init)"

definition ex_hs :: handshake_iface where
  "ex_hs =
    \<lparr> CheckIncomingNonce = (\<lambda>n. n \<noteq> 4242), GetAddressCount = 5000, fListen = True,
      LocalAddress_IsRoutable = True, IsPeerAddrLocalGood = False, in_IBD = False,
      tip_signals_contract = False, tip_past_contract_fork = False \<rparr>"

definition ex_version :: version_msg where
  "ex_version =
    \<lparr> v_nVersion = 70015, v_nServiceInt = 9, v_nTime = 1600003001,
      v_addrMe_IsRoutable = True, v_tail = Tail4 77 ''/Satoshi:0.16.0/'' 2 True \<rparr>"

text \<open>Peer 7 after it announced the hash 2 while that block was not yet indexed: the hash
  is its \<^verbatim>\<open>hashLastUnknownBlock\<close>.  In \<open>ex_chain\<close> the hash 2 is block 1, with work 2, less
  than the tip's.\<close>
definition ex_announced_row :: CNodeState where
  "ex_announced_row =
     (CNodeState_ctor ''203.0.113.7:8333'' ''peer7'')\<lparr> hashLastUnknownBlock := 2 \<rparr>"

definition ex_announced :: net_state where
  "ex_announced = put_State 7 ex_announced_row ex_store"

text \<open>Peer 7 known to have block 5.\<close>
definition ex_ahead :: net_state where
  "ex_ahead = put_State 7
     ((CNodeState_ctor ''203.0.113.7:8333'' ''peer7'')\<lparr> pindexBestKnownBlock := Some 5 \<rparr>)
     ex_store"

text \<open>A batch of two headers: the first builds on block 2 (hash 3), the second names a
  parent other than the first.\<close>
definition ex_header :: "uint256 \<Rightarrow> uint256 \<Rightarrow> CBlockHeader" where
  "ex_header prev h =
     \<lparr> hashPrevBlock = prev, hashMerkleRoot = h, header_nTime = 0, nBits = 0, nNonce = 0 \<rparr>"

definition ex_broken_batch :: "CBlockHeader list" where
  "ex_broken_batch = [ex_header 3 50, ex_header 777 51]"

text \<open>What the chain engine would hand back, were it asked.\<close>
definition ex_result :: headers_result where
  "ex_result = \<lparr> accepted = True, IsInvalid = False, nDoS = 0, pindexLast = Some 4,
                  first_invalid_header = ex_header 0 0 \<rparr>"








section \<open>The store stays consistent\<close>

lemma tally_empty: "tally P Map.empty = 0"
  by (simp add: tally_def)

lemma tally_nonneg: "0 \<le> tally P m"
  by (simp add: tally_def)

lemma tally_finite: "finite (dom m) \<Longrightarrow> finite {p. \<exists>s. m p = Some s \<and> P s}"
  by (rule finite_subset [of _ "dom m"]) auto

lemma tally_upd:
  assumes "finite (dom m)"
  shows "tally P (m(p \<mapsto> s'))
       = tally P m - of_bool (case m p of None \<Rightarrow> False | Some s \<Rightarrow> P s) + of_bool (P s')"
proof -
  let ?A = "{q. \<exists>s. m q = Some s \<and> P s}"
  let ?B = "{q. \<exists>s. (m(p \<mapsto> s')) q = Some s \<and> P s}"
  have fA: "finite ?A" using assms by (rule tally_finite)
  have B: "?B = (?A - {p}) \<union> (if P s' then {p} else {})" by auto
  have pA: "p \<in> ?A \<longleftrightarrow> (case m p of None \<Rightarrow> False | Some s \<Rightarrow> P s)"
    by (auto split: option.splits)
  have c1: "int (card (?A - {p})) = int (card ?A) - of_bool (p \<in> ?A)"
  proof (cases "p \<in> ?A")
    case True
    with fA have "0 < card ?A" by (auto simp: card_gt_0_iff)
    with True fA show ?thesis by (simp add: card_Diff_singleton_if Suc_leI)
  next
    case False
    then show ?thesis by simp
  qed
  have c2: "card ((?A - {p}) \<union> (if P s' then {p} else {})) = card (?A - {p}) + of_bool (P s')"
  proof (cases "P s'")
    case True
    have "card (insert p (?A - {p})) = Suc (card (?A - {p}))"
      using fA by (intro card_insert_disjoint) auto
    with True show ?thesis by simp
  next
    case False
    then show ?thesis by simp
  qed
  have "int (card ?B) = int (card (?A - {p})) + of_bool (P s')"
    unfolding B c2 by simp
  then show ?thesis
    unfolding tally_def using c1 pA by simp
qed

lemma tally_del:
  assumes "finite (dom m)"
  shows "tally P (m(p := None))
       = tally P m - of_bool (case m p of None \<Rightarrow> False | Some s \<Rightarrow> P s)"
proof -
  let ?A = "{q. \<exists>s. m q = Some s \<and> P s}"
  let ?B = "{q. \<exists>s. (m(p := None)) q = Some s \<and> P s}"
  have fA: "finite ?A" using assms by (rule tally_finite)
  have B: "?B = ?A - {p}" by auto
  have pA: "p \<in> ?A \<longleftrightarrow> (case m p of None \<Rightarrow> False | Some s \<Rightarrow> P s)"
    by (auto split: option.splits)
  have c1: "int (card (?A - {p})) = int (card ?A) - of_bool (p \<in> ?A)"
  proof (cases "p \<in> ?A")
    case True
    with fA have "0 < card ?A" by (auto simp: card_gt_0_iff)
    with True fA show ?thesis by (simp add: card_Diff_singleton_if Suc_leI)
  next
    case False
    then show ?thesis by simp
  qed
  show ?thesis
    unfolding tally_def B using c1 pA by simp
qed


lemma store_invD_queue:
  "store_inv st \<Longrightarrow> mapNodeState st p = Some s \<Longrightarrow> queue_ok st p s"
  by (simp add: store_inv_def)

lemma store_invD_owner:
  "store_inv st \<Longrightarrow> mapBlocksInFlight st h = Some (p, it) \<Longrightarrow>
     \<exists>s qb. mapNodeState st p = Some s \<and> (it, qb) \<in> set (vBlocksInFlight s) \<and> hash qb = h"
  unfolding store_inv_def by blast

lemma store_invD_finite: "store_inv st \<Longrightarrow> finite (dom (mapNodeState st))"
  by (simp add: store_inv_def)

lemma queue_ok_cong:
  assumes "vBlocksInFlight s' = vBlocksInFlight s"
    "nBlocksInFlightValidHeaders s' = nBlocksInFlightValidHeaders s"
    "heap_next st' = heap_next st" "mapBlocksInFlight st' = mapBlocksInFlight st"
  shows "queue_ok st' p s' = queue_ok st p s"
  using assms by (simp add: queue_ok_def)

lemma store_inv_update_row:
  assumes inv: "store_inv st" and row: "mapNodeState st p = Some s"
    and q: "vBlocksInFlight s' = vBlocksInFlight s"
           "nBlocksInFlightValidHeaders s' = nBlocksInFlightValidHeaders s"
    and m: "mapNodeState st' = (mapNodeState st)(p \<mapsto> s')"
    and f: "mapBlocksInFlight st' = mapBlocksInFlight st" "heap_next st' = heap_next st"
    and t1: "nSyncStarted st' = nSyncStarted st - of_bool (fSyncStarted s) + of_bool (fSyncStarted s')"
    and t2: "nPreferredDownload st'
              = nPreferredDownload st - of_bool (fPreferredDownload s) + of_bool (fPreferredDownload s')"
    and t3: "nPeersWithValidatedDownloads st' = nPeersWithValidatedDownloads st"
    and t4: "g_outbound_peers_with_protect_from_disconnect st'
              = g_outbound_peers_with_protect_from_disconnect st
                 - of_bool (m_protect (m_chain_sync s)) + of_bool (m_protect (m_chain_sync s'))"
  shows "store_inv st'"
proof -
  note fin = store_invD_finite [OF inv]
  have tallies:
    "nSyncStarted st = tally fSyncStarted (mapNodeState st)"
    "nPreferredDownload st = tally fPreferredDownload (mapNodeState st)"
    "nPeersWithValidatedDownloads st
       = tally (\<lambda>s. nBlocksInFlightValidHeaders s \<noteq> 0) (mapNodeState st)"
    "g_outbound_peers_with_protect_from_disconnect st
       = tally (\<lambda>s. m_protect (m_chain_sync s)) (mapNodeState st)"
    using inv by (simp_all add: store_inv_def)
  have 1: "finite (dom (mapNodeState st'))" using fin m by simp
  have 2: "queue_ok st' r sr" if "mapNodeState st' r = Some sr" for r sr
  proof (cases "r = p")
    case True
    with that m have "sr = s'" by simp
    with True queue_ok_cong [OF q f(2) f(1)] store_invD_queue [OF inv row]
    show ?thesis by simp
  next
    case False
    with that m have "mapNodeState st r = Some sr" by simp
    from store_invD_queue [OF inv this] queue_ok_cong [OF refl refl f(2) f(1), of r sr]
    show ?thesis by simp
  qed
  have 3: "\<exists>sr qb. mapNodeState st' r = Some sr \<and> (it, qb) \<in> set (vBlocksInFlight sr) \<and> hash qb = h"
    if "mapBlocksInFlight st' h = Some (r, it)" for h r it
  proof -
    from that f have "mapBlocksInFlight st h = Some (r, it)" by simp
    from store_invD_owner [OF inv this] obtain sr qb where
      o: "mapNodeState st r = Some sr" "(it, qb) \<in> set (vBlocksInFlight sr)" "hash qb = h"
      by blast
    show ?thesis
    proof (cases "r = p")
      case True
      with o row q m show ?thesis by auto
    next
      case False
      with o m show ?thesis by auto
    qed
  qed
  have 4: "nSyncStarted st' = tally fSyncStarted (mapNodeState st')"
    unfolding m tally_upd [OF fin] using t1 tallies row by simp
  have 5: "nPreferredDownload st' = tally fPreferredDownload (mapNodeState st')"
    unfolding m tally_upd [OF fin] using t2 tallies row by simp
  have 6: "nPeersWithValidatedDownloads st'
       = tally (\<lambda>s. nBlocksInFlightValidHeaders s \<noteq> 0) (mapNodeState st')"
    unfolding m tally_upd [OF fin] using t3 tallies row q by simp
  have 7: "g_outbound_peers_with_protect_from_disconnect st'
       = tally (\<lambda>s. m_protect (m_chain_sync s)) (mapNodeState st')"
    unfolding m tally_upd [OF fin] using t4 tallies row by simp
  show ?thesis
    unfolding store_inv_def
  proof (intro conjI allI impI)
    show "finite (dom (mapNodeState st'))" by (rule 1)
    show "queue_ok st' r sr" if "mapNodeState st' r = Some sr" for r sr by (rule 2 [OF that])
    show "\<exists>sr qb. mapNodeState st' r = Some sr \<and> (it, qb) \<in> set (vBlocksInFlight sr) \<and> hash qb = h"
      if "mapBlocksInFlight st' h = Some (r, it)" for h r it by (rule 3 [OF that])
  qed (rule 4 5 6 7)+
qed

lemma store_inv_init: "store_inv net_state_init"
  by (simp add: store_inv_def net_state_init_def tally_empty)

lemma store_inv_other_fields:
  assumes "store_inv st" "State st p = Some s" "same_tallied_fields s s'"
  shows "store_inv (put_State p s' st)"
proof -
  from assms(2) have row: "mapNodeState st p = Some s" by (simp add: State_def)
  show ?thesis
    by (rule store_inv_update_row [OF assms(1) row, where s' = s'])
       (use assms(3) in \<open>simp_all add: put_State_def same_tallied_fields_def\<close>)
qed

lemma store_inv_UpdatePreferredDownload:
  assumes "store_inv st" "UpdatePreferredDownload node st = Some st'"
  shows "store_inv st'"
proof -
  from assms(2) obtain s where row: "mapNodeState st (GetId node) = Some s"
    by (auto simp: UpdatePreferredDownload_def State_def split: option.splits)
  let ?pref = "((\<not> fInbound node \<or> fWhitelisted node) \<and> \<not> fOneShot node \<and> \<not> fClient node)"
  from assms(2) row have st': "st' = (put_State (GetId node) (s\<lparr> fPreferredDownload := ?pref \<rparr>) st)
        \<lparr> nPreferredDownload := nPreferredDownload st - of_bool (fPreferredDownload s) + of_bool ?pref \<rparr>"
    by (simp add: UpdatePreferredDownload_def State_def Let_def)
  show ?thesis
    unfolding st'
    by (rule store_inv_update_row [OF assms(1) row, where s' = "s\<lparr> fPreferredDownload := ?pref \<rparr>"])
       (simp_all add: put_State_def)
qed

lemma store_inv_InitializeNode:
  assumes inv: "store_inv st"
  shows "store_inv (fst (InitializeNode addr addrName pnode st))"
proof (cases "mapNodeState st (GetId pnode)")
  case (Some s)
  with inv show ?thesis by (simp add: InitializeNode_def)
next
  case None
  let ?p = "GetId pnode" and ?s = "CNodeState_ctor addr addrName"
  let ?st = "put_State ?p ?s st"
  note fin = store_invD_finite [OF inv]
  have tallies:
    "nSyncStarted st = tally fSyncStarted (mapNodeState st)"
    "nPreferredDownload st = tally fPreferredDownload (mapNodeState st)"
    "nPeersWithValidatedDownloads st
       = tally (\<lambda>s. nBlocksInFlightValidHeaders s \<noteq> 0) (mapNodeState st)"
    "g_outbound_peers_with_protect_from_disconnect st
       = tally (\<lambda>s. m_protect (m_chain_sync s)) (mapNodeState st)"
    using inv by (simp_all add: store_inv_def)
  have "store_inv ?st"
    unfolding store_inv_def
  proof (intro conjI allI impI)
    show "finite (dom (mapNodeState ?st))" using fin by (simp add: put_State_def)
    show "queue_ok ?st r sr" if "mapNodeState ?st r = Some sr" for r sr
    proof (cases "r = ?p")
      case True
      with that have "sr = ?s" by (simp add: put_State_def)
      then show ?thesis by (simp add: queue_ok_def CNodeState_ctor_def)
    next
      case False
      with that have "mapNodeState st r = Some sr" by (simp add: put_State_def)
      from store_invD_queue [OF inv this] show ?thesis
        by (simp add: queue_ok_def put_State_def)
    qed
    show "\<exists>sr qb. mapNodeState ?st r = Some sr \<and> (it, qb) \<in> set (vBlocksInFlight sr) \<and> hash qb = h"
      if "mapBlocksInFlight ?st h = Some (r, it)" for h r it
    proof -
      from that have "mapBlocksInFlight st h = Some (r, it)" by (simp add: put_State_def)
      from store_invD_owner [OF inv this] obtain sr qb where
        o: "mapNodeState st r = Some sr" "(it, qb) \<in> set (vBlocksInFlight sr)" "hash qb = h"
        by blast
      with None have "r \<noteq> ?p" by auto
      with o show ?thesis by (auto simp: put_State_def)
    qed
    show "nSyncStarted ?st = tally fSyncStarted (mapNodeState ?st)"
      using tallies None by (simp add: put_State_def tally_upd [OF fin] CNodeState_ctor_def)
    show "nPreferredDownload ?st = tally fPreferredDownload (mapNodeState ?st)"
      using tallies None by (simp add: put_State_def tally_upd [OF fin] CNodeState_ctor_def)
    show "nPeersWithValidatedDownloads ?st
       = tally (\<lambda>s. nBlocksInFlightValidHeaders s \<noteq> 0) (mapNodeState ?st)"
      using tallies None by (simp add: put_State_def tally_upd [OF fin] CNodeState_ctor_def)
    show "g_outbound_peers_with_protect_from_disconnect ?st
       = tally (\<lambda>s. m_protect (m_chain_sync s)) (mapNodeState ?st)"
      using tallies None by (simp add: put_State_def tally_upd [OF fin] CNodeState_ctor_def)
  qed
  with None show ?thesis by (simp add: InitializeNode_def)
qed

lemma store_inv_start_sync:
  assumes "store_inv st"
    "SendMessages_start_sync env c hdr_base hdr_per_header busy pto st = Some (st', ev)"
  shows "store_inv st'"
proof -
  from assms(2) obtain s where row: "mapNodeState st (GetId pto) = Some s"
    by (auto simp: SendMessages_start_sync_def State_def split: option.splits)
  show ?thesis
  proof (cases "st' = st")
    case True
    with assms(1) show ?thesis by simp
  next
    case False
    with assms(2) row obtain t where
      st': "st' = (put_State (GetId pto) (s\<lparr> fSyncStarted := True, nHeadersSyncTimeout := t \<rparr>) st)
                    \<lparr> nSyncStarted := nSyncStarted st + 1 \<rparr>" and ns: "\<not> fSyncStarted s"
      by (auto simp: SendMessages_start_sync_def State_def Let_def split: option.splits if_splits)
    show ?thesis
      unfolding st'
      by (rule store_inv_update_row [OF assms(1) row,
                where s' = "s\<lparr> fSyncStarted := True, nHeadersSyncTimeout := t \<rparr>"])
         (use ns in \<open>simp_all add: put_State_def\<close>)
  qed
qed

lemma store_inv_headers_timeout:
  assumes "store_inv st"
    "SendMessages_headers_timeout env c nNow pto st = Some (b, pto', st')"
  shows "store_inv st'"
proof -
  from assms(2) obtain s where row: "mapNodeState st (GetId pto) = Some s"
    by (auto simp: SendMessages_headers_timeout_def State_def split: option.splits)
  from assms(2) row consider
      (same) "st' = st"
    | (reset) "fSyncStarted s"
        "st' = (put_State (GetId pto) (s\<lparr> fSyncStarted := False, nHeadersSyncTimeout := 0 \<rparr>) st)
                 \<lparr> nSyncStarted := nSyncStarted st - 1 \<rparr>"
    | (caught_up) "st' = put_State (GetId pto) (s\<lparr> nHeadersSyncTimeout := INT64_MAX \<rparr>) st"
    by (auto simp: SendMessages_headers_timeout_def State_def Let_def split: option.splits if_splits)
  then show ?thesis
  proof cases
    case same
    with assms(1) show ?thesis by simp
  next
    case reset
    show ?thesis
      unfolding reset(2)
      by (rule store_inv_update_row [OF assms(1) row,
                where s' = "s\<lparr> fSyncStarted := False, nHeadersSyncTimeout := 0 \<rparr>"])
         (use reset(1) in \<open>simp_all add: put_State_def\<close>)
  next
    case caught_up
    show ?thesis
      unfolding caught_up
      by (rule store_inv_update_row [OF assms(1) row,
                where s' = "s\<lparr> nHeadersSyncTimeout := INT64_MAX \<rparr>"])
         (simp_all add: put_State_def)
  qed
qed

lemma store_inv_protect:
  assumes "store_inv st" "protect_outbound_peer c pfrom st = Some st'"
  shows "store_inv st'"
proof -
  from assms(2) obtain s where row: "mapNodeState st (GetId pfrom) = Some s"
    by (auto simp: protect_outbound_peer_def State_def split: option.splits)
  show ?thesis
  proof (cases "st' = st")
    case True
    with assms(1) show ?thesis by simp
  next
    case False
    with assms(2) row have
      st': "st' = (put_State (GetId pfrom)
                     (s\<lparr> m_chain_sync := (m_chain_sync s)\<lparr> m_protect := True \<rparr> \<rparr>) st)
                  \<lparr> g_outbound_peers_with_protect_from_disconnect :=
                      g_outbound_peers_with_protect_from_disconnect st + 1 \<rparr>"
      and np: "\<not> m_protect (m_chain_sync s)"
      by (auto simp: protect_outbound_peer_def State_def Let_def split: option.splits if_splits)
    show ?thesis
      unfolding st'
      by (rule store_inv_update_row [OF assms(1) row,
                where s' = "s\<lparr> m_chain_sync := (m_chain_sync s)\<lparr> m_protect := True \<rparr> \<rparr>"])
         (use np in \<open>simp_all add: put_State_def\<close>)
  qed
qed


lemma filter_erase_count:
  assumes "distinct (map fst xs)" "(it, qb) \<in> set xs"
  shows "int (length (filter Q (filter (\<lambda>e. fst e \<noteq> it) xs)))
       = int (length (filter Q xs)) - of_bool (Q (it, qb))"
  using assms
proof (induction xs)
  case Nil
  then show ?case by simp
next
  case (Cons x xs)
  show ?case
  proof (cases "x = (it, qb)")
    case True
    with Cons.prems have "it \<notin> fst ` set xs" by auto
    then have "filter (\<lambda>e. fst e \<noteq> it) xs = xs"
      by (auto simp: filter_id_conv)
    with True show ?thesis by simp
  next
    case False
    with Cons.prems have mem: "(it, qb) \<in> set xs" and d: "distinct (map fst xs)" by auto
    from Cons.prems mem have "fst x \<noteq> it" by (auto simp: image_iff)
    with Cons.IH [OF d mem] show ?thesis by simp
  qed
qed

lemma tallies_of_inv:
  assumes "store_inv st"
  shows "nSyncStarted st = tally fSyncStarted (mapNodeState st)"
    "nPreferredDownload st = tally fPreferredDownload (mapNodeState st)"
    "nPeersWithValidatedDownloads st
       = tally (\<lambda>s. nBlocksInFlightValidHeaders s \<noteq> 0) (mapNodeState st)"
    "g_outbound_peers_with_protect_from_disconnect st
       = tally (\<lambda>s. m_protect (m_chain_sync s)) (mapNodeState st)"
  using assms by (simp_all add: store_inv_def)

lemma queue_okD:
  assumes "queue_ok st p s"
  shows "distinct (map fst (vBlocksInFlight s))"
    "\<And>e. e \<in> set (vBlocksInFlight s) \<Longrightarrow> fst e < heap_next st"
    "\<And>e. e \<in> set (vBlocksInFlight s) \<Longrightarrow> mapBlocksInFlight st (hash (snd e)) = Some (p, fst e)"
    "nBlocksInFlightValidHeaders s
       = int (length (filter (\<lambda>e. fValidatedHeaders (snd e)) (vBlocksInFlight s)))"
  using assms by (simp_all add: queue_ok_def)

lemma MarkBlockAsReceived_inflight:
  assumes inv: "store_inv st" and f: "mapBlocksInFlight st h = Some (p, it)"
  obtains s qb where "mapNodeState st p = Some s" "(it, qb) \<in> set (vBlocksInFlight s)"
    "hash qb = h" "MarkBlockAsReceived now h st = Some (True, received_state now h p it qb s st)"
proof -
  from store_invD_owner [OF inv f] obtain s qb where
    row: "mapNodeState st p = Some s" and mem: "(it, qb) \<in> set (vBlocksInFlight s)"
    and hq: "hash qb = h" by blast
  from queue_okD(1) [OF store_invD_queue [OF inv row]] mem
  have "map_of (vBlocksInFlight s) it = Some qb" by simp
  with f row have "MarkBlockAsReceived now h st = Some (True, received_state now h p it qb s st)"
    by (simp add: MarkBlockAsReceived_def State_def Let_def received_state_def)
  with row mem hq show ?thesis by (rule that)
qed

lemma MarkBlockAsReceived_idle:
  "mapBlocksInFlight st h = None \<Longrightarrow> MarkBlockAsReceived now h st = Some (False, st)"
  by (simp add: MarkBlockAsReceived_def)

lemma store_inv_received_state:
  assumes inv: "store_inv st" and f: "mapBlocksInFlight st h = Some (p, it)"
    and row: "mapNodeState st p = Some s" and mem: "(it, qb) \<in> set (vBlocksInFlight s)"
    and hq: "hash qb = h"
  shows "store_inv (received_state now h p it qb s st)"
proof -
  let ?st = "received_state now h p it qb s st"
  let ?xs = "vBlocksInFlight s"
  let ?ys = "filter (\<lambda>e. fst e \<noteq> it) ?xs"
  note fin = store_invD_finite [OF inv]
  note qs = queue_okD [OF store_invD_queue [OF inv row]]
  have m': "mapNodeState ?st = (mapNodeState st)(p \<mapsto> the (mapNodeState ?st p))"
    by (auto simp: received_state_def put_State_def)
  have row': "\<exists>s'. mapNodeState ?st p = Some s' \<and> vBlocksInFlight s' = ?ys
      \<and> nBlocksInFlightValidHeaders s' = nBlocksInFlightValidHeaders s - of_bool (fValidatedHeaders qb)
      \<and> fSyncStarted s' = fSyncStarted s \<and> fPreferredDownload s' = fPreferredDownload s
      \<and> m_protect (m_chain_sync s') = m_protect (m_chain_sync s)"
    by (simp add: received_state_def put_State_def)
  then obtain s' where s': "mapNodeState ?st p = Some s'" "vBlocksInFlight s' = ?ys"
      "nBlocksInFlightValidHeaders s' = nBlocksInFlightValidHeaders s - of_bool (fValidatedHeaders qb)"
      "fSyncStarted s' = fSyncStarted s" "fPreferredDownload s' = fPreferredDownload s"
      "m_protect (m_chain_sync s') = m_protect (m_chain_sync s)" by blast
  have other: "mapNodeState ?st r = mapNodeState st r" if "r \<noteq> p" for r
    using that by (simp add: received_state_def put_State_def)
  have f': "mapBlocksInFlight ?st = (mapBlocksInFlight st)(h := None)"
    by (simp add: received_state_def put_State_def)
  have hn: "heap_next ?st = heap_next st"
    by (simp add: received_state_def put_State_def)
  have mnew: "mapNodeState ?st = (mapNodeState st)(p \<mapsto> s')"
    using s'(1) other by (auto simp: fun_eq_iff)
  have cnt: "nBlocksInFlightValidHeaders s'
       = int (length (filter (\<lambda>e. fValidatedHeaders (snd e)) ?ys))"
    using filter_erase_count [OF qs(1) mem, of "\<lambda>e. fValidatedHeaders (snd e)"] qs(4) s'(3)
    by simp
  have pos: "1 \<le> nBlocksInFlightValidHeaders s" if "fValidatedHeaders qb"
  proof -
    from mem that have "(it, qb) \<in> set (filter (\<lambda>e. fValidatedHeaders (snd e)) ?xs)" by simp
    then have "0 < length (filter (\<lambda>e. fValidatedHeaders (snd e)) ?xs)"
      by (rule length_pos_if_in_set)
    then have "1 \<le> int (length (filter (\<lambda>e. fValidatedHeaders (snd e)) ?xs))"
      by linarith
    with qs(4) show ?thesis by simp
  qed
  show ?thesis
    unfolding store_inv_def
  proof (intro conjI allI impI)
    show "finite (dom (mapNodeState ?st))" using fin by (subst mnew) simp
    show "queue_ok ?st r sr" if r: "mapNodeState ?st r = Some sr" for r sr
    proof (cases "r = p")
      case True
      with r s'(1) have sr: "sr = s'" by simp
      have "mapBlocksInFlight ?st (hash (snd e)) = Some (p, fst e)" if "e \<in> set ?ys" for e
      proof -
        from that have e: "e \<in> set ?xs" "fst e \<noteq> it" by auto
        from qs(3) [OF e(1)] f e(2) have "hash (snd e) \<noteq> h" by auto
        with qs(3) [OF e(1)] show ?thesis by (simp add: f')
      qed
      moreover have "fst e < heap_next ?st" if "e \<in> set ?ys" for e
        using that qs(2) [of e] hn by simp
      moreover have "distinct (map fst ?ys)" using qs(1) by (simp add: distinct_map_filter)
      ultimately show ?thesis using cnt s'(2) unfolding queue_ok_def sr True by simp
    next
      case False
      with r other have rr: "mapNodeState st r = Some sr" by simp
      note qr = queue_okD [OF store_invD_queue [OF inv rr]]
      have "mapBlocksInFlight ?st (hash (snd e)) = Some (r, fst e)" if "e \<in> set (vBlocksInFlight sr)" for e
      proof -
        from qr(3) [OF that] f False have "hash (snd e) \<noteq> h" by auto
        with qr(3) [OF that] show ?thesis by (simp add: f')
      qed
      then show ?thesis using qr(1,2,4) hn unfolding queue_ok_def by simp
    qed
    show "\<exists>sr qb'. mapNodeState ?st r = Some sr \<and> (it', qb') \<in> set (vBlocksInFlight sr) \<and> hash qb' = h'"
      if "mapBlocksInFlight ?st h' = Some (r, it')" for h' r it'
    proof -
      from that have hh: "h' \<noteq> h" and o: "mapBlocksInFlight st h' = Some (r, it')"
        by (auto simp: f' split: if_splits)
      from store_invD_owner [OF inv o] obtain sr qb' where
        o': "mapNodeState st r = Some sr" "(it', qb') \<in> set (vBlocksInFlight sr)" "hash qb' = h'"
        by blast
      show ?thesis
      proof (cases "r = p")
        case True
        with o' row have sr: "sr = s" by simp
        have "it' \<noteq> it"
        proof
          assume "it' = it"
          with o'(2) sr mem qs(1) have "qb' = qb" by (meson eq_key_imp_eq_value)
          with o'(3) hq hh show False by simp
        qed
        with o'(2) sr have "(it', qb') \<in> set ?ys" by simp
        with True s'(1,2) o'(3) show ?thesis by auto
      next
        case False
        with o' other show ?thesis by auto
      qed
    qed
    show "nSyncStarted ?st = tally fSyncStarted (mapNodeState ?st)"
      unfolding mnew tally_upd [OF fin] using tallies_of_inv(1) [OF inv] row s'(4)
      by (simp add: received_state_def put_State_def)
    show "nPreferredDownload ?st = tally fPreferredDownload (mapNodeState ?st)"
      unfolding mnew tally_upd [OF fin] using tallies_of_inv(2) [OF inv] row s'(5)
      by (simp add: received_state_def put_State_def)
    show "g_outbound_peers_with_protect_from_disconnect ?st
       = tally (\<lambda>s. m_protect (m_chain_sync s)) (mapNodeState ?st)"
      unfolding mnew tally_upd [OF fin] using tallies_of_inv(4) [OF inv] row s'(6)
      by (simp add: received_state_def put_State_def)
    have np: "nPeersWithValidatedDownloads ?st =
        (if nBlocksInFlightValidHeaders s - of_bool (fValidatedHeaders qb) = 0 \<and> fValidatedHeaders qb
         then nPeersWithValidatedDownloads st - 1 else nPeersWithValidatedDownloads st)"
      by (simp add: received_state_def put_State_def)
    show "nPeersWithValidatedDownloads ?st
       = tally (\<lambda>s. nBlocksInFlightValidHeaders s \<noteq> 0) (mapNodeState ?st)"
      unfolding mnew tally_upd [OF fin] np using tallies_of_inv(3) [OF inv] row s'(3) pos
      by (cases "fValidatedHeaders qb") auto
  qed
qed

lemma store_inv_MarkBlockAsReceived:
  assumes inv: "store_inv st" and r: "MarkBlockAsReceived now h st = Some (b, st')"
  shows "store_inv st'"
proof (cases "mapBlocksInFlight st h")
  case None
  with r inv show ?thesis by (simp add: MarkBlockAsReceived_idle)
next
  case (Some a)
  obtain p it where a: "a = (p, it)" by (cases a)
  from MarkBlockAsReceived_inflight [OF inv Some [unfolded a], of now]
  obtain s qb where *: "mapNodeState st p = Some s" "(it, qb) \<in> set (vBlocksInFlight s)"
    "hash qb = h" "MarkBlockAsReceived now h st = Some (True, received_state now h p it qb s st)"
    by blast
  from *(4) r have "st' = received_state now h p it qb s st" by simp
  with store_inv_received_state [OF inv Some [unfolded a] *(1,2,3)] show ?thesis by simp
qed

lemma MarkBlockAsInFlight_again:
  assumes "State st p = Some s" "mapBlocksInFlight st h = Some (p, it)"
  shows "MarkBlockAsInFlight now0 now p h pindex' want_pit st
       = Some (False, if want_pit then Some it else None, st)"
  using assms by (simp add: MarkBlockAsInFlight_def)

lemma MarkBlockAsInFlight_new:
  assumes "State st p = Some s0"
    and "\<forall>it. mapBlocksInFlight st h \<noteq> Some (p, it)"
    and "MarkBlockAsReceived now0 h st = Some (b, st1)" "State st1 p = Some s"
  shows "MarkBlockAsInFlight now0 now p h pindex' want_pit st
       = Some (True, if want_pit then Some (heap_next st1) else None,
               inflight_state now h pindex' want_pit p s st1)"
proof -
  from assms(2) have "(case mapBlocksInFlight st h of None \<Rightarrow> None
         | Some (n, it) \<Rightarrow> if n = p then Some it else None) = None"
    by (auto split: option.splits)
  with assms(1,3,4) show ?thesis
    by (simp add: MarkBlockAsInFlight_def Let_def inflight_state_def)
qed

lemma store_inv_inflight_state:
  assumes inv: "store_inv st" and row: "mapNodeState st p = Some s"
    and free: "mapBlocksInFlight st h = None"
  shows "store_inv (inflight_state now h pindex' want_pit p s st)"
proof -
  let ?st = "inflight_state now h pindex' want_pit p s st"
  let ?qb = "\<lparr> hash = h, pindex = pindex', fValidatedHeaders = (pindex' \<noteq> None),
                partialBlock = want_pit \<rparr>"
  let ?it = "heap_next st"
  let ?xs = "vBlocksInFlight s"
  let ?ys = "?xs @ [(?it, ?qb)]"
  note fin = store_invD_finite [OF inv]
  note qs = queue_okD [OF store_invD_queue [OF inv row]]
  have row': "\<exists>s'. mapNodeState ?st p = Some s' \<and> vBlocksInFlight s' = ?ys
      \<and> nBlocksInFlightValidHeaders s' = nBlocksInFlightValidHeaders s + of_bool (pindex' \<noteq> None)
      \<and> fSyncStarted s' = fSyncStarted s \<and> fPreferredDownload s' = fPreferredDownload s
      \<and> m_protect (m_chain_sync s') = m_protect (m_chain_sync s)"
    by (simp add: inflight_state_def put_State_def)
  then obtain s' where s': "mapNodeState ?st p = Some s'" "vBlocksInFlight s' = ?ys"
      "nBlocksInFlightValidHeaders s' = nBlocksInFlightValidHeaders s + of_bool (pindex' \<noteq> None)"
      "fSyncStarted s' = fSyncStarted s" "fPreferredDownload s' = fPreferredDownload s"
      "m_protect (m_chain_sync s') = m_protect (m_chain_sync s)" by blast
  have other: "mapNodeState ?st r = mapNodeState st r" if "r \<noteq> p" for r
    using that by (simp add: inflight_state_def put_State_def)
  have f': "mapBlocksInFlight ?st = (mapBlocksInFlight st)(h \<mapsto> (p, ?it))"
    by (simp add: inflight_state_def put_State_def)
  have hn: "heap_next ?st = Suc (heap_next st)"
    by (simp add: inflight_state_def put_State_def)
  have mnew: "mapNodeState ?st = (mapNodeState st)(p \<mapsto> s')"
    using s'(1) other by (auto simp: fun_eq_iff)
  have nonneg: "0 \<le> nBlocksInFlightValidHeaders s" using qs(4) by simp
  show ?thesis
    unfolding store_inv_def
  proof (intro conjI allI impI)
    show "finite (dom (mapNodeState ?st))" using fin by (subst mnew) simp
    show "queue_ok ?st r sr" if r: "mapNodeState ?st r = Some sr" for r sr
    proof (cases "r = p")
      case True
      with r s'(1) have sr: "sr = s'" by simp
      have fresh: "?it \<notin> fst ` set ?xs" using qs(2) by fastforce
      have d: "distinct (map fst ?ys)" using qs(1) fresh by simp
      have lt: "fst e < heap_next ?st" if "e \<in> set ?ys" for e
        using that qs(2) [of e] hn by auto
      have own: "mapBlocksInFlight ?st (hash (snd e)) = Some (p, fst e)" if "e \<in> set ?ys" for e
      proof (cases "e = (?it, ?qb)")
        case True
        then show ?thesis by (simp add: f')
      next
        case False
        with that have e: "e \<in> set ?xs" by simp
        from qs(3) [OF e] free have "hash (snd e) \<noteq> h" by auto
        with qs(3) [OF e] show ?thesis by (simp add: f')
      qed
      have cnt: "nBlocksInFlightValidHeaders s'
            = int (length (filter (\<lambda>e. fValidatedHeaders (snd e)) ?ys))"
        using qs(4) s'(3) by simp
      show ?thesis unfolding queue_ok_def sr True s'(2) using d lt own cnt s'(2) by simp
    next
      case False
      with r other have rr: "mapNodeState st r = Some sr" by simp
      note qr = queue_okD [OF store_invD_queue [OF inv rr]]
      have "mapBlocksInFlight ?st (hash (snd e)) = Some (r, fst e)" if "e \<in> set (vBlocksInFlight sr)" for e
      proof -
        from qr(3) [OF that] free have "hash (snd e) \<noteq> h" by auto
        with qr(3) [OF that] show ?thesis by (simp add: f')
      qed
      moreover have "fst e < heap_next ?st" if "e \<in> set (vBlocksInFlight sr)" for e
        using qr(2) [OF that] hn by simp
      ultimately show ?thesis using qr(1,4) unfolding queue_ok_def by simp
    qed
    show "\<exists>sr qb'. mapNodeState ?st r = Some sr \<and> (it', qb') \<in> set (vBlocksInFlight sr) \<and> hash qb' = h'"
      if o: "mapBlocksInFlight ?st h' = Some (r, it')" for h' r it'
    proof (cases "h' = h")
      case True
      with o have "r = p" "it' = ?it" by (simp_all add: f')
      with True s'(1,2) show ?thesis by auto
    next
      case False
      with o have o1: "mapBlocksInFlight st h' = Some (r, it')" by (simp add: f')
      from store_invD_owner [OF inv o1] obtain sr qb' where
        o': "mapNodeState st r = Some sr" "(it', qb') \<in> set (vBlocksInFlight sr)" "hash qb' = h'"
        by blast
      show ?thesis
      proof (cases "r = p")
        case True
        with o' row have "sr = s" by simp
        with o'(2) have "(it', qb') \<in> set ?ys" by simp
        with True s'(1,2) o'(3) show ?thesis by auto
      next
        case False
        with o' other show ?thesis by auto
      qed
    qed
    show "nSyncStarted ?st = tally fSyncStarted (mapNodeState ?st)"
      unfolding mnew tally_upd [OF fin] using tallies_of_inv(1) [OF inv] row s'(4)
      by (simp add: inflight_state_def put_State_def)
    show "nPreferredDownload ?st = tally fPreferredDownload (mapNodeState ?st)"
      unfolding mnew tally_upd [OF fin] using tallies_of_inv(2) [OF inv] row s'(5)
      by (simp add: inflight_state_def put_State_def)
    show "g_outbound_peers_with_protect_from_disconnect ?st
       = tally (\<lambda>s. m_protect (m_chain_sync s)) (mapNodeState ?st)"
      unfolding mnew tally_upd [OF fin] using tallies_of_inv(4) [OF inv] row s'(6)
      by (simp add: inflight_state_def put_State_def)
    have np: "nPeersWithValidatedDownloads ?st =
        (if nBlocksInFlightValidHeaders s + of_bool (pindex' \<noteq> None) = 1 \<and> pindex' \<noteq> None
         then nPeersWithValidatedDownloads st + 1 else nPeersWithValidatedDownloads st)"
      by (simp add: inflight_state_def put_State_def)
    show "nPeersWithValidatedDownloads ?st
       = tally (\<lambda>s. nBlocksInFlightValidHeaders s \<noteq> 0) (mapNodeState ?st)"
      unfolding mnew tally_upd [OF fin] np using tallies_of_inv(3) [OF inv] row s'(3) nonneg
      by (cases "pindex' = None") auto
  qed
qed

lemma MarkBlockAsReceived_clears:
  assumes "MarkBlockAsReceived now h st = Some (b, st')"
  shows "mapBlocksInFlight st' h = None"
  using assms
  by (auto simp: MarkBlockAsReceived_def Let_def put_State_def split: option.splits prod.splits)

lemma MarkBlockAsReceived_dom:
  assumes "MarkBlockAsReceived now h st = Some (b, st')"
  shows "dom (mapNodeState st') = dom (mapNodeState st)"
  using assms
  by (auto simp: MarkBlockAsReceived_def Let_def put_State_def State_def
           split: option.splits prod.splits if_splits)

lemma store_inv_MarkBlockAsInFlight:
  assumes inv: "store_inv st"
    and r: "MarkBlockAsInFlight now0 now p h pindex' want_pit st = Some (b, pit, st')"
  shows "store_inv st'"
proof -
  from r obtain s0 where s0: "State st p = Some s0"
    by (auto simp: MarkBlockAsInFlight_def split: option.splits)
  show ?thesis
  proof (cases "\<exists>it. mapBlocksInFlight st h = Some (p, it)")
    case True
    then obtain it where "mapBlocksInFlight st h = Some (p, it)" by blast
    from MarkBlockAsInFlight_again [OF s0 this, of now0 now pindex' want_pit] r inv
    show ?thesis by simp
  next
    case False
    then have nf: "\<forall>it. mapBlocksInFlight st h \<noteq> Some (p, it)" by blast
    from r s0 nf obtain b1 st1 where r1: "MarkBlockAsReceived now0 h st = Some (b1, st1)"
      by (auto simp: MarkBlockAsInFlight_def split: option.splits prod.splits if_splits)
    from MarkBlockAsReceived_dom [OF r1] s0 obtain s where s: "State st1 p = Some s"
      by (auto simp: State_def dom_def)
    from MarkBlockAsInFlight_new [OF s0 nf r1 s, of now pindex' want_pit] r
    have st': "st' = inflight_state now h pindex' want_pit p s st1" by simp
    from s have row: "mapNodeState st1 p = Some s" by (simp add: State_def)
    show ?thesis
      unfolding st'
      by (rule store_inv_inflight_state [OF store_inv_MarkBlockAsReceived [OF inv r1] row
                 MarkBlockAsReceived_clears [OF r1]])
  qed
qed

lemma fold_erase:
  "fold (\<lambda>entry m. m(hash (snd entry) := None)) xs m h
     = (if h \<in> (\<lambda>e. hash (snd e)) ` set xs then None else m h)"
  by (induction xs arbitrary: m) auto

lemma store_inv_empty:
  assumes inv: "store_inv st" and e: "mapNodeState st = Map.empty"
  shows "mapBlocksInFlight st = Map.empty" "nSyncStarted st = 0" "nPreferredDownload st = 0"
    "nPeersWithValidatedDownloads st = 0" "g_outbound_peers_with_protect_from_disconnect st = 0"
proof -
  show "mapBlocksInFlight st = Map.empty"
  proof (rule ext)
    fix h
    show "mapBlocksInFlight st h = None"
    proof (cases "mapBlocksInFlight st h")
      case None
      then show ?thesis .
    next
      case (Some a)
      obtain p it where "a = (p, it)" by (cases a)
      with Some store_invD_owner [OF inv, of h p it] e show ?thesis by simp
    qed
  qed
qed (use tallies_of_inv [OF inv] e in \<open>simp_all add: tally_empty\<close>)

lemma store_inv_finalized_state:
  assumes inv: "store_inv st" and row: "mapNodeState st p = Some s"
  shows "store_inv (finalized_state p s st)"
proof -
  let ?st = "finalized_state p s st"
  note fin = store_invD_finite [OF inv]
  note qs = queue_okD [OF store_invD_queue [OF inv row]]
  have m': "mapNodeState ?st = (mapNodeState st)(p := None)"
    by (simp add: finalized_state_def)
  have f': "mapBlocksInFlight ?st h
        = (if h \<in> (\<lambda>e. hash (snd e)) ` set (vBlocksInFlight s) then None
           else mapBlocksInFlight st h)" for h
    by (simp add: finalized_state_def fold_erase)
  have hn: "heap_next ?st = heap_next st" by (simp add: finalized_state_def)
  show ?thesis
    unfolding store_inv_def
  proof (intro conjI allI impI)
    show "finite (dom (mapNodeState ?st))" using fin by (simp add: m')
    show "queue_ok ?st r sr" if r: "mapNodeState ?st r = Some sr" for r sr
    proof -
      from r have rp: "r \<noteq> p" and rr: "mapNodeState st r = Some sr"
        by (auto simp: m' split: if_splits)
      note qr = queue_okD [OF store_invD_queue [OF inv rr]]
      have "mapBlocksInFlight ?st (hash (snd e)) = Some (r, fst e)" if "e \<in> set (vBlocksInFlight sr)" for e
      proof -
        have "hash (snd e) \<notin> (\<lambda>e. hash (snd e)) ` set (vBlocksInFlight s)"
        proof
          assume "hash (snd e) \<in> (\<lambda>e. hash (snd e)) ` set (vBlocksInFlight s)"
          then obtain e' where e': "e' \<in> set (vBlocksInFlight s)" "hash (snd e') = hash (snd e)"
            by auto
          from qs(3) [OF e'(1)] qr(3) [OF that] e'(2) rp show False by simp
        qed
        with qr(3) [OF that] show ?thesis by (simp add: f')
      qed
      then show ?thesis using qr(1,2,4) hn unfolding queue_ok_def by simp
    qed
    show "\<exists>sr qb. mapNodeState ?st r = Some sr \<and> (it, qb) \<in> set (vBlocksInFlight sr) \<and> hash qb = h"
      if o: "mapBlocksInFlight ?st h = Some (r, it)" for h r it
    proof -
      from o have nh: "h \<notin> (\<lambda>e. hash (snd e)) ` set (vBlocksInFlight s)"
        and o1: "mapBlocksInFlight st h = Some (r, it)"
        by (auto simp: f' split: if_splits)
      from store_invD_owner [OF inv o1] obtain sr qb where
        o': "mapNodeState st r = Some sr" "(it, qb) \<in> set (vBlocksInFlight sr)" "hash qb = h"
        by blast
      have "r \<noteq> p"
      proof
        assume "r = p"
        with o' row have "(it, qb) \<in> set (vBlocksInFlight s)" by simp
        with o'(3) nh show False by force
      qed
      with o' show ?thesis by (auto simp: m')
    qed
    show "nSyncStarted ?st = tally fSyncStarted (mapNodeState ?st)"
      unfolding m' tally_del [OF fin] using tallies_of_inv(1) [OF inv] row
      by (simp add: finalized_state_def)
    show "nPreferredDownload ?st = tally fPreferredDownload (mapNodeState ?st)"
      unfolding m' tally_del [OF fin] using tallies_of_inv(2) [OF inv] row
      by (simp add: finalized_state_def)
    show "nPeersWithValidatedDownloads ?st
       = tally (\<lambda>s. nBlocksInFlightValidHeaders s \<noteq> 0) (mapNodeState ?st)"
      unfolding m' tally_del [OF fin] using tallies_of_inv(3) [OF inv] row
      by (simp add: finalized_state_def)
    show "g_outbound_peers_with_protect_from_disconnect ?st
       = tally (\<lambda>s. m_protect (m_chain_sync s)) (mapNodeState ?st)"
      unfolding m' tally_del [OF fin] using tallies_of_inv(4) [OF inv] row
      by (simp add: finalized_state_def)
  qed
qed

lemma FinalizeNode_result:
  assumes inv: "store_inv st" and row: "State st p = Some s"
  shows "FinalizeNode p st
       = Some (nMisbehavior s = 0 \<and> fCurrentlyConnected s, finalized_state p s st)"
proof -
  from row have row': "mapNodeState st p = Some s" by (simp add: State_def)
  note inv' = store_inv_finalized_state [OF inv row']
  let ?st = "finalized_state p s st"
  have a1: "\<not> nPeersWithValidatedDownloads st - of_bool (nBlocksInFlightValidHeaders s \<noteq> 0) < 0"
    using tallies_of_inv(3) [OF inv'] tally_nonneg [of "\<lambda>s. nBlocksInFlightValidHeaders s \<noteq> 0" "mapNodeState ?st"]
    by (simp add: finalized_state_def)
  have a2: "\<not> g_outbound_peers_with_protect_from_disconnect st - of_bool (m_protect (m_chain_sync s)) < 0"
    using tallies_of_inv(4) [OF inv'] tally_nonneg [of "\<lambda>s. m_protect (m_chain_sync s)" "mapNodeState ?st"]
    by (simp add: finalized_state_def)
  have a3: "fold (\<lambda>entry m. m(hash (snd entry) := None)) (vBlocksInFlight s) (mapBlocksInFlight st) = Map.empty
      \<and> nPreferredDownload st - of_bool (fPreferredDownload s) = 0
      \<and> nPeersWithValidatedDownloads st - of_bool (nBlocksInFlightValidHeaders s \<noteq> 0) = 0
      \<and> g_outbound_peers_with_protect_from_disconnect st - of_bool (m_protect (m_chain_sync s)) = 0"
    if "(mapNodeState st)(p := None) = Map.empty"
  proof -
    from that have "mapNodeState ?st = Map.empty" by (simp add: finalized_state_def)
    from store_inv_empty [OF inv' this] show ?thesis by (simp add: finalized_state_def)
  qed
  have ns: "(if fSyncStarted s then nSyncStarted st - 1 else nSyncStarted st)
        = nSyncStarted st - of_bool (fSyncStarted s)" by simp
  show ?thesis
    using row a1 a2 a3
    by (simp add: FinalizeNode_def Let_def finalized_state_def ns)
qed

lemma reachable_store_inv: "reachable st \<Longrightarrow> store_inv st"
proof (induction rule: reachable.induct)
  case init
  show ?case by (rule store_inv_init)
next
  case (initialize st addr addrName pnode)
  then show ?case by (simp add: store_inv_InitializeNode)
next
  case (finalize st nodeid b st')
  from finalize.hyps(2) obtain s where s: "State st nodeid = Some s"
    by (auto simp: FinalizeNode_def split: option.splits)
  from FinalizeNode_result [OF finalize.IH s] finalize.hyps(2)
  have "st' = finalized_state nodeid s st" by simp
  with store_inv_finalized_state [OF finalize.IH] s show ?case by (simp add: State_def)
next
  case (in_flight st now0 now nodeid h pindex' want_pit b pit st')
  then show ?case by (blast intro: store_inv_MarkBlockAsInFlight)
next
  case (received st now h b st')
  then show ?case by (blast intro: store_inv_MarkBlockAsReceived)
next
  case (preferred st node st')
  then show ?case by (blast intro: store_inv_UpdatePreferredDownload)
next
  case (start_sync st env c hdr_base hdr_per_header busy pto st' ev)
  then show ?case by (blast intro: store_inv_start_sync)
next
  case (headers_timeout st env c nNow pto b pto' st')
  then show ?case by (blast intro: store_inv_headers_timeout)
next
  case (protect st c pfrom st')
  then show ?case by (blast intro: store_inv_protect)
next
  case (other_fields st p s s')
  then show ?case by (blast intro: store_inv_other_fields)
qed

lemma finalized_state_facts:
  assumes inv: "store_inv st" and row: "mapNodeState st p = Some s"
  shows "\<forall>e \<in> set (vBlocksInFlight s). mapBlocksInFlight (finalized_state p s st) (hash (snd e)) = None"
    "\<forall>h it. mapBlocksInFlight (finalized_state p s st) h \<noteq> Some (p, it)"
    "\<forall>h r it. mapBlocksInFlight (finalized_state p s st) h = Some (r, it)
        \<longrightarrow> mapBlocksInFlight st h = Some (r, it)"
    "\<forall>h r it. mapBlocksInFlight st h = Some (r, it) \<and> r \<noteq> p
        \<longrightarrow> mapBlocksInFlight (finalized_state p s st) h = Some (r, it)"
proof -
  note qs = queue_okD [OF store_invD_queue [OF inv row]]
  have f': "mapBlocksInFlight (finalized_state p s st) h
        = (if h \<in> (\<lambda>e. hash (snd e)) ` set (vBlocksInFlight s) then None
           else mapBlocksInFlight st h)" for h
    by (simp add: finalized_state_def fold_erase)
  show "\<forall>e \<in> set (vBlocksInFlight s). mapBlocksInFlight (finalized_state p s st) (hash (snd e)) = None"
    by (simp add: f')
  show "\<forall>h it. mapBlocksInFlight (finalized_state p s st) h \<noteq> Some (p, it)"
  proof (intro allI notI)
    fix h it
    assume a: "mapBlocksInFlight (finalized_state p s st) h = Some (p, it)"
    then have nh: "h \<notin> (\<lambda>e. hash (snd e)) ` set (vBlocksInFlight s)"
      and o: "mapBlocksInFlight st h = Some (p, it)" by (auto simp: f' split: if_splits)
    from store_invD_owner [OF inv o] row obtain qb where
      "(it, qb) \<in> set (vBlocksInFlight s)" "hash qb = h" by auto
    with nh show False by force
  qed
  show "\<forall>h r it. mapBlocksInFlight (finalized_state p s st) h = Some (r, it)
        \<longrightarrow> mapBlocksInFlight st h = Some (r, it)"
    by (auto simp: f' split: if_splits)
  show "\<forall>h r it. mapBlocksInFlight st h = Some (r, it) \<and> r \<noteq> p
        \<longrightarrow> mapBlocksInFlight (finalized_state p s st) h = Some (r, it)"
  proof (intro allI impI)
    fix h r it
    assume a: "mapBlocksInFlight st h = Some (r, it) \<and> r \<noteq> p"
    have "h \<notin> (\<lambda>e. hash (snd e)) ` set (vBlocksInFlight s)"
    proof
      assume "h \<in> (\<lambda>e. hash (snd e)) ` set (vBlocksInFlight s)"
      then obtain e where "e \<in> set (vBlocksInFlight s)" "hash (snd e) = h" by auto
      with qs(3) [of e] a show False by simp
    qed
    with a show "mapBlocksInFlight (finalized_state p s st) h = Some (r, it)" by (simp add: f')
  qed
qed



section \<open>Block availability\<close>

lemma ProcessBlockAvailability_known:
  assumes "State st nodeid = Some state"
  shows "\<exists>state1. ProcessBlockAvailability c nodeid st = Some (put_State nodeid state1 st)
          \<and> state1 = state\<lparr> pindexBestKnownBlock := pindexBestKnownBlock state1,
                             hashLastUnknownBlock := hashLastUnknownBlock state1 \<rparr>"
proof -
  from assms have same: "put_State nodeid state st = st"
    by (simp add: put_State_def State_def fun_upd_idem)
  have idle: ?thesis if "ProcessBlockAvailability c nodeid st = Some st"
    using that same by (intro exI [of _ state]) simp
  show ?thesis
  proof (cases "hashLastUnknownBlock state \<noteq> 0")
    case False
    with assms show ?thesis by (intro idle) (simp add: ProcessBlockAvailability_def)
  next
    case True
    note nz = this
    show ?thesis
    proof (cases "GetBlockIndex c (hashLastUnknownBlock state)")
      case None
      with assms nz show ?thesis by (intro idle) (simp add: ProcessBlockAvailability_def)
    next
      case (Some pIndexOld)
      show ?thesis
      proof (cases "0 < work c pIndexOld")
        case False
        with assms nz Some show ?thesis by (intro idle) (simp add: ProcessBlockAvailability_def)
      next
        case True
        show ?thesis
        proof (cases "case pindexBestKnownBlock state of None \<Rightarrow> True
                           | Some best \<Rightarrow> work c best \<le> work c pIndexOld")
          case True
          with assms nz Some \<open>0 < work c pIndexOld\<close> show ?thesis
            by (intro exI [of _ "state\<lparr> pindexBestKnownBlock := Some pIndexOld,
                                          hashLastUnknownBlock := 0 \<rparr>"])
               (simp add: ProcessBlockAvailability_def)
        next
          case False
          with assms nz Some \<open>0 < work c pIndexOld\<close> show ?thesis
            by (intro exI [of _ "state\<lparr> hashLastUnknownBlock := 0 \<rparr>"])
               (simp add: ProcessBlockAvailability_def)
        qed
      qed
    qed
  qed
qed



section \<open>What the headers handlers leave of a row\<close>




















section \<open>Facts about the example inputs\<close>

lemmas ex_defs = ex_store_def ex_node_def InitializeNode_def net_state_init_def
  CNodeState_ctor_def put_State_def State_def

lemma reachable_ex_store: "reachable ex_store"
  unfolding ex_store_def by (rule reachable.initialize [OF reachable.init])

lemma ex_store_row: "State ex_store 7 = Some (CNodeState_ctor ''203.0.113.7:8333'' ''peer7'')"
  by (simp add: ex_defs)

lemma ex_busy_step:
  "MarkBlockAsInFlight 100 100 7 17 (Some 3) False ex_store = Some (True, None, ex_busy)"
proof -
  have r: "MarkBlockAsReceived 100 17 ex_store = Some (False, ex_store)"
    by (rule MarkBlockAsReceived_idle) (simp add: ex_defs)
  have f: "\<forall>it. mapBlocksInFlight ex_store 17 \<noteq> Some (7, it)" by (simp add: ex_defs)
  from MarkBlockAsInFlight_new [OF ex_store_row f r ex_store_row, of 100 "Some 3" False]
  show ?thesis by (simp add: ex_busy_def)
qed

lemma reachable_ex_busy: "reachable ex_busy"
  by (rule reachable.in_flight [OF reachable_ex_store ex_busy_step])

lemma reachable_ex_connected: "reachable ex_connected"
  unfolding ex_connected_def
  by (rule reachable.other_fields [OF reachable_ex_store ex_store_row])
     (simp add: same_tallied_fields_def)

lemma ex_busy_row:
  "State ex_busy 7 =
     Some ((CNodeState_ctor ''203.0.113.7:8333'' ''peer7'')
             \<lparr> vBlocksInFlight := [(0, \<lparr> hash = 17, pindex = Some 3, fValidatedHeaders = True,
                                          partialBlock = False \<rparr>)],
               nDownloadingSince := 100, nBlocksInFlight := 1,
               nBlocksInFlightValidHeaders := 1 \<rparr>)"
  by (simp add: ex_busy_def inflight_state_def ex_defs)


lemma ex_connected_row:
  "State ex_connected 7
     = Some ((CNodeState_ctor ''203.0.113.7:8333'' ''peer7'')\<lparr> fCurrentlyConnected := True \<rparr>)"
  by (simp add: ex_connected_def ex_defs)




lemma ex_announced_row_eq: "State ex_announced 7 = Some ex_announced_row"
  by (simp add: ex_announced_def ex_defs)

lemma ex_announced_refresh:
  "ProcessBlockAvailability ex_chain 7 ex_announced
     = Some (put_State 7
               (ex_announced_row\<lparr> pindexBestKnownBlock := Some 1, hashLastUnknownBlock := 0 \<rparr>)
               ex_announced)"
  by (simp add: ProcessBlockAvailability_def ex_announced_row_eq ex_chain_def work_def
        ex_announced_row_def CNodeState_ctor_def)



section \<open>Misbehaviour score and ban latch\<close>

lemma Misbehaving_known:
  assumes "State st pnode = Some state" "howmuch \<noteq> 0"
    "Misbehaving banscore pnode howmuch st = Some st'"
  shows "State st' pnode = Some (state\<lparr> nMisbehavior := nMisbehavior state + howmuch,
            fShouldBan := (fShouldBan state \<or>
               (banscore \<le> nMisbehavior state + howmuch \<and> nMisbehavior state < banscore)) \<rparr>)"
  using assms
  by (auto simp: Misbehaving_def State_def put_State_def int_add_def Let_def
           split: option.splits if_splits)

lemma Misbehaving_total:
  assumes "State st pnode = Some state"
    "- (2 ^ 31) \<le> nMisbehavior state + howmuch" "nMisbehavior state + howmuch \<le> 2 ^ 31 - 1"
  shows "\<exists>st'. Misbehaving banscore pnode howmuch st = Some st'"
  using assms
  by (auto simp: Misbehaving_def State_def put_State_def int_add_def Let_def
           split: option.splits if_splits)

lemma SendRejects_result:
  assumes "SendRejectsAndCheckIfBanned pnode st = Some (b, pnode', st', ev)"
    "State st (GetId pnode) = Some state"
  shows "b = fShouldBan state"
    "GetId pnode' = GetId pnode"
    "State st' (GetId pnode) = Some (state\<lparr> rejects := [], fShouldBan := False \<rparr>)"
    "count_bans ev = (if fShouldBan state \<and> \<not> fWhitelisted pnode \<and> \<not> m_manual_connection pnode \<and> \<not> addr_IsLocal pnode then 1 else 0)"
    "fDisconnect pnode' = (fDisconnect pnode \<or> (fShouldBan state \<and> \<not> fWhitelisted pnode \<and> \<not> m_manual_connection pnode))"
  using assms
  by (auto simp: SendRejectsAndCheckIfBanned_def State_def put_State_def Let_def count_bans_def
           split: option.splits if_splits)


lemma peer_run_GetId:
  "peer_run banscore xs pnode st = Some (bs, pnode', st', ev) \<Longrightarrow> GetId pnode' = GetId pnode"
proof (induction xs arbitrary: pnode st bs ev)
  case Nil
  then show ?case by simp
next
  case (Cons x xs)
  show ?case
  proof (cases x)
    case (Misbehave n)
    with Cons show ?thesis by (auto split: option.splits)
  next
    case SendRejects
    with Cons.prems obtain b pnode1 st1 ev1 bs2 ev2 where
      s: "SendRejectsAndCheckIfBanned pnode st = Some (b, pnode1, st1, ev1)" and
      r: "peer_run banscore xs pnode1 st1 = Some (bs2, pnode', st', ev2)"
      by (auto split: option.splits)
    from s have "GetId pnode1 = GetId pnode"
      by (auto simp: SendRejectsAndCheckIfBanned_def Let_def split: option.splits if_splits)
    with Cons.IH [OF r] show ?thesis by simp
  qed
qed

lemma peer_run_latch:
  assumes "peer_run banscore xs pnode st = Some (bs, pnode', st', ev)"
    and "State st (GetId pnode) = Some state"
    and "\<forall>x \<in> set xs. positive_step x"
    and "fShouldBan state \<longrightarrow> banscore \<le> nMisbehavior state"
  shows "count_true bs \<le> (if banscore \<le> nMisbehavior state \<and> \<not> fShouldBan state then 0 else 1)
       \<and> count_bans ev \<le> count_true bs
       \<and> (fDisconnect pnode' \<longrightarrow> fDisconnect pnode \<or> count_true bs = 1)"
  using assms
proof (induction xs arbitrary: pnode st state bs ev)
  case Nil
  then show ?case by (simp add: count_true_def count_bans_def)
next
  case (Cons x xs)
  show ?case
  proof (cases x)
    case (Misbehave n)
    with Cons.prems have n: "0 < n" by simp
    from Cons.prems Misbehave obtain st1 where
      m: "Misbehaving banscore (GetId pnode) n st = Some st1" and
      r: "peer_run banscore xs pnode st1 = Some (bs, pnode', st', ev)"
      by (auto split: option.splits)
    let ?s1 = "state\<lparr> nMisbehavior := nMisbehavior state + n,
            fShouldBan := (fShouldBan state \<or>
               (banscore \<le> nMisbehavior state + n \<and> nMisbehavior state < banscore)) \<rparr>"
    from Misbehaving_known [OF Cons.prems(2) _ m] n
    have s1: "State st1 (GetId pnode) = Some ?s1" by simp
    have pos: "\<forall>x \<in> set xs. positive_step x" using Cons.prems(3) by simp
    have inv: "fShouldBan ?s1 \<longrightarrow> banscore \<le> nMisbehavior ?s1"
      using Cons.prems(4) n by auto
    from Cons.IH [OF r s1 pos inv] n Cons.prems(4) show ?thesis
      by (auto split: if_splits)
  next
    case SendRejects
    with Cons.prems obtain b pnode1 st1 ev1 bs2 ev2 where
      s: "SendRejectsAndCheckIfBanned pnode st = Some (b, pnode1, st1, ev1)" and
      r: "peer_run banscore xs pnode1 st1 = Some (bs2, pnode', st', ev2)" and
      bs: "bs = b # bs2" and ev: "ev = ev1 @ ev2"
      by (auto split: option.splits)
    note res = SendRejects_result [OF s Cons.prems(2)]
    let ?s1 = "state\<lparr> rejects := [], fShouldBan := False \<rparr>"
    have s1: "State st1 (GetId pnode1) = Some ?s1" using res by simp
    have pos: "\<forall>x \<in> set xs. positive_step x" using Cons.prems(3) by simp
    have inv: "fShouldBan ?s1 \<longrightarrow> banscore \<le> nMisbehavior ?s1" by simp
    from Cons.IH [OF r s1 pos inv] res Cons.prems(4) bs ev show ?thesis
      by (auto simp: count_true_def count_bans_def split: if_splits)
  qed
qed


text \<open>
  Claim C2.  For a connected peer, a call of \<^verbatim>\<open>Misbehaving\<close> with a positive score
  returns whenever the new score fits a C++ \<^verbatim>\<open>int\<close>, adds the score (so the score
  never drops), and turns \<open>fShouldBan\<close> on exactly when the score before is below the
  threshold and the score after is not.  Over any sequence of positive
  \<^verbatim>\<open>Misbehaving\<close> calls and \<^verbatim>\<open>SendRejectsAndCheckIfBanned\<close> flushes that starts with
  the latch unset (or set with the score already past the threshold), at most one flush
  reports a ban, at most one \<^verbatim>\<open>Ban\<close> is issued, and the node is only disconnected by that
  flush.
\<close>
theorem Misbehaving_monotone_single_ban:
  assumes "State st (GetId pnode) = Some state"
  shows "(0 < howmuch \<longrightarrow>
           (- (2 ^ 31) \<le> nMisbehavior state + howmuch \<and> nMisbehavior state + howmuch \<le> 2 ^ 31 - 1
              \<longrightarrow> (\<exists>st'. Misbehaving banscore (GetId pnode) howmuch st = Some st')) \<and>
           (\<forall>st'. Misbehaving banscore (GetId pnode) howmuch st = Some st' \<longrightarrow>
              (\<exists>state'. State st' (GetId pnode) = Some state'
                 \<and> nMisbehavior state' = nMisbehavior state + howmuch
                 \<and> nMisbehavior state \<le> nMisbehavior state'
                 \<and> fShouldBan state' =
                     (fShouldBan state \<or>
                      (banscore \<le> nMisbehavior state' \<and> nMisbehavior state < banscore)))))
       \<and> ((\<forall>x \<in> set xs. positive_step x) \<and> (fShouldBan state \<longrightarrow> banscore \<le> nMisbehavior state) \<longrightarrow>
           (\<forall>bs pnode' st' ev. peer_run banscore xs pnode st = Some (bs, pnode', st', ev) \<longrightarrow>
              count_true bs \<le> 1 \<and> count_bans ev \<le> count_true bs
              \<and> (fDisconnect pnode' \<longrightarrow> fDisconnect pnode \<or> count_true bs = 1)))"
proof (intro conjI impI allI)
  assume "- (2 ^ 31) \<le> nMisbehavior state + howmuch \<and> nMisbehavior state + howmuch \<le> 2 ^ 31 - 1"
  then show "\<exists>st'. Misbehaving banscore (GetId pnode) howmuch st = Some st'"
    using Misbehaving_total [OF assms] by blast
next
  fix st'
  assume h: "0 < howmuch" and m: "Misbehaving banscore (GetId pnode) howmuch st = Some st'"
  from Misbehaving_known [OF assms _ m] h
  show "\<exists>state'. State st' (GetId pnode) = Some state'
                 \<and> nMisbehavior state' = nMisbehavior state + howmuch
                 \<and> nMisbehavior state \<le> nMisbehavior state'
                 \<and> fShouldBan state' =
                     (fShouldBan state \<or>
                      (banscore \<le> nMisbehavior state' \<and> nMisbehavior state < banscore))"
    by simp
next
  fix bs pnode' st' ev
  assume a: "(\<forall>x \<in> set xs. positive_step x) \<and> (fShouldBan state \<longrightarrow> banscore \<le> nMisbehavior state)"
    and r: "peer_run banscore xs pnode st = Some (bs, pnode', st', ev)"
  from peer_run_latch [OF r assms] a
  have l: "count_true bs \<le> (if banscore \<le> nMisbehavior state \<and> \<not> fShouldBan state then 0 else 1)
       \<and> count_bans ev \<le> count_true bs
       \<and> (fDisconnect pnode' \<longrightarrow> fDisconnect pnode \<or> count_true bs = 1)"
    by blast
  then show "count_true bs \<le> 1" by (auto split: if_splits)
  from l show "count_bans ev \<le> count_true bs" by blast
  from l show "fDisconnect pnode' \<Longrightarrow> fDisconnect pnode \<or> count_true bs = 1" by blast
qed

theorem Misbehaving_monotone_single_ban_witness:
  "State ex_store (GetId ex_node) = Some (CNodeState_ctor ''203.0.113.7:8333'' ''peer7'')
   \<and> (\<exists>st'. Misbehaving 100 (GetId ex_node) 100 ex_store = Some st'
        \<and> map_option nMisbehavior (State st' 7) = Some 100
        \<and> map_option fShouldBan (State st' 7) = Some True)
   \<and> (\<exists>pnode' st' ev.
        peer_run 100 [Misbehave 100, SendRejects, Misbehave 20, SendRejects] ex_node ex_store
          = Some ([True, False], pnode', st', ev)
        \<and> fDisconnect pnode' \<and> count_bans ev = 1)
   \<and> count_true [True, False] \<le> 1"
  using Misbehaving_monotone_single_ban
    [of ex_store ex_node "CNodeState_ctor ''203.0.113.7:8333'' ''peer7''" 100 100
        "[Misbehave 100, SendRejects, Misbehave 20, SendRejects]"]
  by (simp add: ex_defs Misbehaving_def int_add_def SendRejectsAndCheckIfBanned_def
        count_bans_def count_true_def Let_def)


section \<open>FinalizeNode\<close>

text \<open>
  Claim C1.  In every state the file can get to, \<^verbatim>\<open>FinalizeNode\<close> for a known peer
  returns (no \<^verbatim>\<open>assert\<close> fails), deletes the peer's row, erases every entry of the peer's
  queue from \<^verbatim>\<open>mapBlocksInFlight\<close> and leaves no entry of that peer there (the entries of
  other peers stay), and takes the peer's contribution off each of the four tallies.
  Whenever \<^verbatim>\<open>mapNodeState\<close> is empty, \<^verbatim>\<open>mapBlocksInFlight\<close> is empty and the four
  tallies are zero.
\<close>
theorem FinalizeNode_erases_and_reverses:
  assumes "reachable st"
  shows "(\<forall>nodeid state. State st nodeid = Some state \<longrightarrow>
           (\<exists>flag st'. FinalizeNode nodeid st = Some (flag, st')
              \<and> State st' nodeid = None
              \<and> (\<forall>e \<in> set (vBlocksInFlight state). mapBlocksInFlight st' (hash (snd e)) = None)
              \<and> (\<forall>h it. mapBlocksInFlight st' h \<noteq> Some (nodeid, it))
              \<and> (\<forall>h r it. mapBlocksInFlight st h = Some (r, it) \<and> r \<noteq> nodeid
                    \<longrightarrow> mapBlocksInFlight st' h = Some (r, it))
              \<and> nSyncStarted st' = nSyncStarted st - of_bool (fSyncStarted state)
              \<and> nPreferredDownload st' = nPreferredDownload st - of_bool (fPreferredDownload state)
              \<and> nPeersWithValidatedDownloads st'
                  = nPeersWithValidatedDownloads st
                      - of_bool (nBlocksInFlightValidHeaders state \<noteq> 0)
              \<and> g_outbound_peers_with_protect_from_disconnect st'
                  = g_outbound_peers_with_protect_from_disconnect st
                      - of_bool (m_protect (m_chain_sync state))))
       \<and> (mapNodeState st = Map.empty \<longrightarrow>
            mapBlocksInFlight st = Map.empty \<and> nSyncStarted st = 0 \<and> nPreferredDownload st = 0
            \<and> nPeersWithValidatedDownloads st = 0
            \<and> g_outbound_peers_with_protect_from_disconnect st = 0)"
proof (intro conjI allI impI)
  note inv = reachable_store_inv [OF assms]
  fix nodeid state
  assume row: "State st nodeid = Some state"
  then have row': "mapNodeState st nodeid = Some state" by (simp add: State_def)
  note facts = finalized_state_facts [OF inv row']
  show "\<exists>flag st'. FinalizeNode nodeid st = Some (flag, st')
              \<and> State st' nodeid = None
              \<and> (\<forall>e \<in> set (vBlocksInFlight state). mapBlocksInFlight st' (hash (snd e)) = None)
              \<and> (\<forall>h it. mapBlocksInFlight st' h \<noteq> Some (nodeid, it))
              \<and> (\<forall>h r it. mapBlocksInFlight st h = Some (r, it) \<and> r \<noteq> nodeid
                    \<longrightarrow> mapBlocksInFlight st' h = Some (r, it))
              \<and> nSyncStarted st' = nSyncStarted st - of_bool (fSyncStarted state)
              \<and> nPreferredDownload st' = nPreferredDownload st - of_bool (fPreferredDownload state)
              \<and> nPeersWithValidatedDownloads st'
                  = nPeersWithValidatedDownloads st
                      - of_bool (nBlocksInFlightValidHeaders state \<noteq> 0)
              \<and> g_outbound_peers_with_protect_from_disconnect st'
                  = g_outbound_peers_with_protect_from_disconnect st
                      - of_bool (m_protect (m_chain_sync state))"
    apply (rule exI [of _ "nMisbehavior state = 0 \<and> fCurrentlyConnected state"])
    apply (rule exI [of _ "finalized_state nodeid state st"])
    apply (intro conjI)
            apply (rule FinalizeNode_result [OF inv row])
           apply (simp add: State_def finalized_state_def)
          apply (rule facts(1))
         apply (rule facts(2))
        apply (rule facts(4))
       apply (simp_all add: finalized_state_def)
    done
next
  note inv = reachable_store_inv [OF assms]
  assume e: "mapNodeState st = Map.empty"
  note z = store_inv_empty [OF inv e]
  show "mapBlocksInFlight st = Map.empty" by (rule z(1))
  show "nSyncStarted st = 0" by (rule z(2))
  show "nPreferredDownload st = 0" by (rule z(3))
  show "nPeersWithValidatedDownloads st = 0" by (rule z(4))
  show "g_outbound_peers_with_protect_from_disconnect st = 0" by (rule z(5))
qed

theorem FinalizeNode_erases_and_reverses_witness:
  "reachable ex_busy
   \<and> mapBlocksInFlight ex_busy 17 = Some (7, 0)
   \<and> nPeersWithValidatedDownloads ex_busy = 1
   \<and> (\<exists>state. State ex_busy 7 = Some state
         \<and> map (\<lambda>e. hash (snd e)) (vBlocksInFlight state) = [17]
         \<and> nBlocksInFlightValidHeaders state = 1)
   \<and> (\<exists>flag st'. FinalizeNode 7 ex_busy = Some (flag, st')
         \<and> State st' 7 = None \<and> mapBlocksInFlight st' 17 = None
         \<and> nPeersWithValidatedDownloads st' = 0)"
proof -
  have c1: "mapBlocksInFlight ex_busy 17 = Some (7, 0)"
    by (simp add: ex_busy_def inflight_state_def ex_defs)
  have c2: "nPeersWithValidatedDownloads ex_busy = 1"
    by (simp add: ex_busy_def inflight_state_def ex_defs)
  have c3: "\<exists>state. State ex_busy 7 = Some state
         \<and> map (\<lambda>e. hash (snd e)) (vBlocksInFlight state) = [17]
         \<and> nBlocksInFlightValidHeaders state = 1"
    by (simp add: ex_busy_row)
  let ?row = "(CNodeState_ctor ''203.0.113.7:8333'' ''peer7'')
             \<lparr> vBlocksInFlight := [(0, \<lparr> hash = 17, pindex = Some 3, fValidatedHeaders = True,
                                          partialBlock = False \<rparr>)],
               nDownloadingSince := 100, nBlocksInFlight := 1,
               nBlocksInFlightValidHeaders := 1 \<rparr>"
  from FinalizeNode_erases_and_reverses [OF reachable_ex_busy, THEN conjunct1, rule_format,
         OF ex_busy_row]
  obtain flag st' where
    f: "FinalizeNode 7 ex_busy = Some (flag, st')" "State st' 7 = None"
       "\<forall>e \<in> set (vBlocksInFlight ?row). mapBlocksInFlight st' (hash (snd e)) = None"
       "nPeersWithValidatedDownloads st'
          = nPeersWithValidatedDownloads ex_busy - of_bool (nBlocksInFlightValidHeaders ?row \<noteq> 0)"
    by blast
  from f(3) have "mapBlocksInFlight st' 17 = None" by simp
  moreover from f(4) c2 have "nPeersWithValidatedDownloads st' = 0" by simp
  ultimately have c4: "\<exists>flag st'. FinalizeNode 7 ex_busy = Some (flag, st')
         \<and> State st' 7 = None \<and> mapBlocksInFlight st' 17 = None
         \<and> nPeersWithValidatedDownloads st' = 0"
    using f(1,2) by blast
  from reachable_ex_busy c1 c2 c3 c4 show ?thesis by blast
qed


text \<open>
  Claim C10.  For a known peer, whenever \<^verbatim>\<open>FinalizeNode\<close> returns, the flag
  \<^verbatim>\<open>fUpdateConnectionTime\<close> it reports is true exactly when the departing peer's
  misbehaviour score is zero and its \<^verbatim>\<open>fCurrentlyConnected\<close> flag was set, and false in
  every other case; and in every state the file can get to it does return.
\<close>
theorem FinalizeNode_reports_connection_time:
  assumes "State st nodeid = Some state"
  shows "(\<forall>fUpdateConnectionTime st'.
            FinalizeNode nodeid st = Some (fUpdateConnectionTime, st') \<longrightarrow>
            fUpdateConnectionTime = (nMisbehavior state = 0 \<and> fCurrentlyConnected state))
       \<and> (reachable st \<longrightarrow>
            (\<exists>st'. FinalizeNode nodeid st
                     = Some (nMisbehavior state = 0 \<and> fCurrentlyConnected state, st')))"
proof (intro conjI allI impI)
  fix fUpdateConnectionTime st'
  assume "FinalizeNode nodeid st = Some (fUpdateConnectionTime, st')"
  with assms show "fUpdateConnectionTime = (nMisbehavior state = 0 \<and> fCurrentlyConnected state)"
    by (auto simp: FinalizeNode_def Let_def split: option.splits if_splits)
next
  assume "reachable st"
  from FinalizeNode_result [OF reachable_store_inv [OF this] assms]
  show "\<exists>st'. FinalizeNode nodeid st
                 = Some (nMisbehavior state = 0 \<and> fCurrentlyConnected state, st')"
    by blast
qed

theorem FinalizeNode_reports_connection_time_witness:
  "reachable ex_connected
   \<and> (\<exists>state. State ex_connected 7 = Some state \<and> nMisbehavior state = 0
         \<and> fCurrentlyConnected state)
   \<and> (\<exists>st'. FinalizeNode 7 ex_connected = Some (True, st'))
   \<and> FinalizeNode 7 ex_store = Some (False, net_state_init)"
proof -
  from FinalizeNode_reports_connection_time [OF ex_connected_row, THEN conjunct2, rule_format,
         OF reachable_ex_connected]
  have c1: "\<exists>st'. FinalizeNode 7 ex_connected = Some (True, st')"
    by (simp add: CNodeState_ctor_def)
  have c2: "\<exists>state. State ex_connected 7 = Some state \<and> nMisbehavior state = 0
         \<and> fCurrentlyConnected state"
    by (simp add: ex_connected_row CNodeState_ctor_def)
  have c3: "FinalizeNode 7 ex_store = Some (False, net_state_init)"
    by (simp add: ex_defs FinalizeNode_def Let_def)
  from reachable_ex_connected c1 c2 c3 show ?thesis by blast
qed



section \<open>MarkBlockAsInFlight\<close>

text \<open>
  Claim C3.  After a call of \<^verbatim>\<open>MarkBlockAsInFlight\<close> for a peer and a hash has
  returned, \<^verbatim>\<open>mapBlocksInFlight\<close> holds an entry of that peer's queue for the hash, and
  every further call for the same peer and hash returns false, hands back the iterator
  of that same entry, and returns the state as it is: the peer's counters, the map and
  \<^verbatim>\<open>nPeersWithValidatedDownloads\<close> are unchanged.
\<close>
theorem MarkBlockAsInFlight_twice:
  assumes "reachable st"
    and "MarkBlockAsInFlight now0 now nodeid h pindex' want_pit st = Some (b, pit, st1)"
  shows "\<exists>it qb state1.
           mapBlocksInFlight st1 h = Some (nodeid, it)
         \<and> State st1 nodeid = Some state1
         \<and> (it, qb) \<in> set (vBlocksInFlight state1) \<and> hash qb = h
         \<and> pit = (if want_pit then Some it else None)
         \<and> (\<forall>now0' now' pindex'' want_pit'.
               MarkBlockAsInFlight now0' now' nodeid h pindex'' want_pit' st1
                 = Some (False, if want_pit' then Some it else None, st1))"
proof -
  note inv1 = reachable_store_inv [OF reachable.in_flight [OF assms]]
  from assms(2) obtain s0 where s0: "State st nodeid = Some s0"
    by (auto simp: MarkBlockAsInFlight_def split: option.splits)
  have "\<exists>it. mapBlocksInFlight st1 h = Some (nodeid, it) \<and> pit = (if want_pit then Some it else None)"
  proof (cases "\<exists>it. mapBlocksInFlight st h = Some (nodeid, it)")
    case True
    then obtain it where it: "mapBlocksInFlight st h = Some (nodeid, it)" by blast
    from MarkBlockAsInFlight_again [OF s0 it, of now0 now pindex' want_pit] assms(2) it
    show ?thesis by auto
  next
    case False
    then have nf: "\<forall>it. mapBlocksInFlight st h \<noteq> Some (nodeid, it)" by blast
    from assms(2) s0 nf obtain b1 st0 where r1: "MarkBlockAsReceived now0 h st = Some (b1, st0)"
      by (auto simp: MarkBlockAsInFlight_def split: option.splits prod.splits if_splits)
    from MarkBlockAsReceived_dom [OF r1] s0 obtain s where s: "State st0 nodeid = Some s"
      by (auto simp: State_def dom_def)
    from MarkBlockAsInFlight_new [OF s0 nf r1 s, of now pindex' want_pit] assms(2)
    show ?thesis by (auto simp: inflight_state_def put_State_def)
  qed
  then obtain it where it: "mapBlocksInFlight st1 h = Some (nodeid, it)"
    "pit = (if want_pit then Some it else None)" by blast
  from store_invD_owner [OF inv1 it(1)] obtain state1 qb where
    o: "mapNodeState st1 nodeid = Some state1" "(it, qb) \<in> set (vBlocksInFlight state1)"
       "hash qb = h" by blast
  from o(1) have s1: "State st1 nodeid = Some state1" by (simp add: State_def)
  have "\<forall>now0' now' pindex'' want_pit'.
               MarkBlockAsInFlight now0' now' nodeid h pindex'' want_pit' st1
                 = Some (False, if want_pit' then Some it else None, st1)"
    using MarkBlockAsInFlight_again [OF s1 it(1)] by blast
  with it s1 o(2,3) show ?thesis by blast
qed

theorem MarkBlockAsInFlight_twice_witness:
  "reachable ex_store
   \<and> MarkBlockAsInFlight 100 100 7 17 (Some 3) False ex_store = Some (True, None, ex_busy)
   \<and> MarkBlockAsInFlight 200 200 7 17 (Some 3) True ex_busy = Some (False, Some 0, ex_busy)
   \<and> mapBlocksInFlight ex_busy 17 = Some (7, 0)"
proof -
  from MarkBlockAsInFlight_twice [OF reachable_ex_store ex_busy_step]
  obtain it where it: "mapBlocksInFlight ex_busy 17 = Some (7, it)"
    "MarkBlockAsInFlight 200 200 7 17 (Some 3) True ex_busy
       = Some (False, if True then Some it else None, ex_busy)"
    by blast
  have m: "mapBlocksInFlight ex_busy 17 = Some (7, 0)"
    by (simp add: ex_busy_def inflight_state_def ex_defs)
  with it have "MarkBlockAsInFlight 200 200 7 17 (Some 3) True ex_busy = Some (False, Some 0, ex_busy)"
    by simp
  with reachable_ex_store ex_busy_step m show ?thesis by blast
qed


section \<open>ConsiderEviction\<close>





section \<open>Block download timeout\<close>

lemma block_timeout_any_constants:
  assumes "State st (GetId pto) = Some state" "vBlocksInFlight state \<noteq> []" "\<not> fDisconnect pto"
  shows "\<exists>returned pto'. SendMessages_block_timeout base per_peer c nNow pto st = Some (returned, pto')
         \<and> returned = fDisconnect pto'
         \<and> fDisconnect pto'
            = (nDownloadingSince state
                 + nPowTargetSpacing c
                   * (base + per_peer
                        * (nPeersWithValidatedDownloads st
                             - (if 0 < nBlocksInFlightValidHeaders state then 1 else 0)))
               < nNow)"
  using assms by (simp add: SendMessages_block_timeout_def Let_def)

lemma queue_valid_count:
  assumes "queue_ok st p s"
  shows "(0 < nBlocksInFlightValidHeaders s)
       = (\<exists>e \<in> set (vBlocksInFlight s). fValidatedHeaders (snd e))"
proof -
  have "(0 < length (filter (\<lambda>e. fValidatedHeaders (snd e)) (vBlocksInFlight s)))
       = (\<exists>e \<in> set (vBlocksInFlight s). fValidatedHeaders (snd e))"
    by (simp add: filter_empty_conv)
  with queue_okD(4) [OF assms] show ?thesis by simp
qed

text \<open>
  Claim C8.  At the block download timeout of the outbound tick, for a peer with at least
  one block in flight (and not yet marked for disconnection): with \<open>n_other\<close> the number
  \<^verbatim>\<open>nPeersWithValidatedDownloads\<close> less one if this peer has a block with validated headers
  in flight, the step marks the peer for disconnection (and ends the tick) exactly when
  \<open>now > nDownloadingSince + target_spacing \<cdot> (BLOCK_DOWNLOAD_TIMEOUT_BASE +
  BLOCK_DOWNLOAD_TIMEOUT_PER_PEER \<cdot> n_other)\<close>, the two constants being
  \<open>1000 \<cdot> target_spacing\<close> and \<open>500 \<cdot> target_spacing\<close> as the specification gives them.
\<close>
theorem block_download_timeout:
  assumes "reachable st" "State st (GetId pto) = Some state" "vBlocksInFlight state \<noteq> []"
    and "\<not> fDisconnect pto"
  shows "\<exists>returned pto'.
           SendMessages_block_timeout
             (BLOCK_DOWNLOAD_TIMEOUT_BASE (nPowTargetSpacing c))
             (BLOCK_DOWNLOAD_TIMEOUT_PER_PEER (nPowTargetSpacing c)) c nNow pto st
             = Some (returned, pto')
         \<and> returned = fDisconnect pto'
         \<and> fDisconnect pto'
            = (nNow > nDownloadingSince state
                 + nPowTargetSpacing c
                   * (1000 * nPowTargetSpacing c
                      + 500 * nPowTargetSpacing c
                        * (nPeersWithValidatedDownloads st
                             - (if \<exists>e \<in> set (vBlocksInFlight state). fValidatedHeaders (snd e)
                                then 1 else 0))))"
proof -
  from assms(2) have row: "mapNodeState st (GetId pto) = Some state" by (simp add: State_def)
  note q = queue_valid_count [OF store_invD_queue [OF reachable_store_inv [OF assms(1)] row]]
  from block_timeout_any_constants [OF assms(2,3,4),
         of "BLOCK_DOWNLOAD_TIMEOUT_BASE (nPowTargetSpacing c)"
            "BLOCK_DOWNLOAD_TIMEOUT_PER_PEER (nPowTargetSpacing c)" c nNow]
  show ?thesis
    unfolding q BLOCK_DOWNLOAD_TIMEOUT_BASE_def BLOCK_DOWNLOAD_TIMEOUT_PER_PEER_def
    by (simp add: less_eq_int_code)
qed

theorem block_download_timeout_witness:
  "reachable ex_busy
   \<and> (\<exists>state. State ex_busy (GetId ex_node) = Some state \<and> vBlocksInFlight state \<noteq> []
         \<and> nDownloadingSince state = 100)
   \<and> \<not> fDisconnect ex_node
   \<and> SendMessages_block_timeout
       (BLOCK_DOWNLOAD_TIMEOUT_BASE (nPowTargetSpacing ex_chain))
       (BLOCK_DOWNLOAD_TIMEOUT_PER_PEER (nPowTargetSpacing ex_chain)) ex_chain 360000101 ex_node
       ex_busy
       = Some (True, ex_node\<lparr> fDisconnect := True \<rparr>)
   \<and> SendMessages_block_timeout
       (BLOCK_DOWNLOAD_TIMEOUT_BASE (nPowTargetSpacing ex_chain))
       (BLOCK_DOWNLOAD_TIMEOUT_PER_PEER (nPowTargetSpacing ex_chain)) ex_chain 360000100 ex_node
       ex_busy
       = Some (False, ex_node)"
proof -
  have n: "GetId ex_node = 7" "\<not> fDisconnect ex_node" by (simp_all add: ex_node_def)
  have r: "State ex_busy (GetId ex_node) = Some
       ((CNodeState_ctor ''203.0.113.7:8333'' ''peer7'')
             \<lparr> vBlocksInFlight := [(0, \<lparr> hash = 17, pindex = Some 3, fValidatedHeaders = True,
                                          partialBlock = False \<rparr>)],
               nDownloadingSince := 100, nBlocksInFlight := 1,
               nBlocksInFlightValidHeaders := 1 \<rparr>)"
    by (simp add: n ex_busy_row)
  have c1: "\<exists>state. State ex_busy (GetId ex_node) = Some state \<and> vBlocksInFlight state \<noteq> []
         \<and> nDownloadingSince state = 100"
    by (simp add: r)
  from block_download_timeout [OF reachable_ex_busy r _ n(2), of ex_chain 360000101]
  obtain returned pto' where
    s: "SendMessages_block_timeout
       (BLOCK_DOWNLOAD_TIMEOUT_BASE (nPowTargetSpacing ex_chain))
       (BLOCK_DOWNLOAD_TIMEOUT_PER_PEER (nPowTargetSpacing ex_chain)) ex_chain 360000101 ex_node
       ex_busy = Some (returned, pto')" by auto
  have c2: "SendMessages_block_timeout
       (BLOCK_DOWNLOAD_TIMEOUT_BASE (nPowTargetSpacing ex_chain))
       (BLOCK_DOWNLOAD_TIMEOUT_PER_PEER (nPowTargetSpacing ex_chain)) ex_chain 360000101 ex_node
       ex_busy
       = Some (True, ex_node\<lparr> fDisconnect := True \<rparr>)"
    using r s
    by (simp add: SendMessages_block_timeout_def Let_def ex_chain_def
          BLOCK_DOWNLOAD_TIMEOUT_BASE_def BLOCK_DOWNLOAD_TIMEOUT_PER_PEER_def
          ex_busy_def inflight_state_def ex_defs)
  have c3: "SendMessages_block_timeout
       (BLOCK_DOWNLOAD_TIMEOUT_BASE (nPowTargetSpacing ex_chain))
       (BLOCK_DOWNLOAD_TIMEOUT_PER_PEER (nPowTargetSpacing ex_chain)) ex_chain 360000100 ex_node
       ex_busy
       = Some (False, ex_node)"
    using r
    by (simp add: SendMessages_block_timeout_def Let_def ex_chain_def
          BLOCK_DOWNLOAD_TIMEOUT_BASE_def BLOCK_DOWNLOAD_TIMEOUT_PER_PEER_def
          ex_busy_def inflight_state_def ex_defs)
  from reachable_ex_busy c1 n(2) c2 c3 show ?thesis by blast
qed


section \<open>Version handshake\<close>

lemma UpdatePreferredDownload_row:
  assumes "UpdatePreferredDownload node st = Some st'" "State st p = Some s"
  shows "\<exists>s'. State st' p = Some s' \<and> fCurrentlyConnected s' = fCurrentlyConnected s"
  using assms
  by (auto simp: UpdatePreferredDownload_def State_def put_State_def Let_def split: option.splits)

lemma version_accept_result:
  assumes v: "version_accept env hs pfrom msg ev0 st = Some (r, pfrom1, st1, ev1)"
    and row: "State st (GetId pfrom) = Some state0"
  shows "GetId pfrom1 = GetId pfrom" "fInbound pfrom1 = fInbound pfrom"
    "nLocalServices pfrom1 = nLocalServices pfrom"
    "nVersion pfrom1 = (if v_nVersion msg = 10300 then 300 else v_nVersion msg)"
    "\<exists>state1. State st1 (GetId pfrom) = Some state1
        \<and> fCurrentlyConnected state1 = fCurrentlyConnected state0"
proof -
  let ?st0 = "(if v_nServiceInt msg AND NODE_WITNESS env \<noteq> 0 then
                        (case State st (GetId pfrom) of
                           None \<Rightarrow> None
                         | Some state \<Rightarrow>
                            Some (put_State (GetId pfrom) (state\<lparr> fHaveWitness := True \<rparr>) st))
                      else Some st)"
  from v obtain sta where sta: "?st0 = Some sta"
    unfolding version_accept_def by (cases ?st0) simp_all
  from v sta obtain stb where upd: "UpdatePreferredDownload (version_recorded env pfrom msg) sta = Some stb"
    unfolding version_accept_def
    by (cases "UpdatePreferredDownload (version_recorded env pfrom msg) sta") simp_all
  from v sta upd have res: "stb = st1"
    "GetId pfrom1 = GetId pfrom" "fInbound pfrom1 = fInbound pfrom"
    "nLocalServices pfrom1 = nLocalServices pfrom"
    "nVersion pfrom1 = (if v_nVersion msg = 10300 then 300 else v_nVersion msg)"
    unfolding version_accept_def Let_def
    by (auto simp: version_recorded_def split: if_splits)
  from sta row have "\<exists>s. State sta (GetId pfrom) = Some s
        \<and> fCurrentlyConnected s = fCurrentlyConnected state0"
    by (auto simp: State_def put_State_def split: if_splits)
  then obtain s where s: "State sta (GetId pfrom) = Some s"
    "fCurrentlyConnected s = fCurrentlyConnected state0" by blast
  from UpdatePreferredDownload_row [OF upd s(1)] s(2) res(1)
  show "\<exists>state1. State st1 (GetId pfrom) = Some state1
        \<and> fCurrentlyConnected state1 = fCurrentlyConnected state0" by auto
  show "GetId pfrom1 = GetId pfrom" "fInbound pfrom1 = fInbound pfrom"
    "nLocalServices pfrom1 = nLocalServices pfrom"
    "nVersion pfrom1 = (if v_nVersion msg = 10300 then 300 else v_nVersion msg)"
    by (rule res)+
qed

lemma ProcessVersionMsg_accepts:
  assumes v: "ProcessVersionMsg env hs pfrom msg st = Some (True, pfrom1, st1, ev1)"
    and nd: "\<not> fDisconnect pfrom1"
  shows "nVersion pfrom = 0"
    "(if tip_signals_contract hs then SBTC_CONTRACT_VERSION env else MIN_PEER_PROTO_VERSION env)
       \<le> v_nVersion msg"
    "\<exists>ev0. version_accept env hs pfrom msg ev0 st = Some (True, pfrom1, st1, ev1)"
proof -
  show c0: "nVersion pfrom = 0"
  proof (rule ccontr)
    assume "nVersion pfrom \<noteq> 0"
    from this v show False by (simp add: ProcessVersionMsg_def split: option.splits)
  qed
  have c1: "version_refused env hs pfrom msg = None"
  proof (cases "version_refused env hs pfrom msg")
    case None
    then show ?thesis .
  next
    case (Some a)
    from c0 Some v nd show ?thesis
      by (cases a) (auto simp: ProcessVersionMsg_def Let_def)
  qed
  then show "(if tip_signals_contract hs then SBTC_CONTRACT_VERSION env else MIN_PEER_PROTO_VERSION env)
       \<le> v_nVersion msg"
    by (simp add: version_refused_def split: if_splits)
  from c0 c1 v show "\<exists>ev0. version_accept env hs pfrom msg ev0 st = Some (True, pfrom1, st1, ev1)"
    by (auto simp: ProcessVersionMsg_def Let_def)
qed

text \<open>
  Claim C9, as the code has it (with \<^verbatim>\<open>-dropmessagestest\<close> unset, and the two version
  thresholds \<^verbatim>\<open>MIN_PEER_PROTO_VERSION\<close> and \<^verbatim>\<open>SBTC_CONTRACT_VERSION\<close> positive).  Take a
  known peer whose \<^verbatim>\<open>version\<close> message \<^verbatim>\<open>ProcessMessage\<close> accepted: it returned true and
  did not mark the node for disconnection.  When the \<^verbatim>\<open>verack\<close> follows:

  \<^item> if by then the tip is past the contract fork height and the peer's version is below
    \<^verbatim>\<open>SBTC_CONTRACT_VERSION\<close>, the \<^verbatim>\<open>verack\<close> is refused: a \<^verbatim>\<open>reject\<close> is sent, the node is
    marked for disconnection, \<^verbatim>\<open>ProcessMessage\<close> returns false and the peer's row is as it
    was;
  \<^item> otherwise \<^verbatim>\<open>ProcessMessage\<close> returns true, sets \<^verbatim>\<open>fSuccessfullyConnected\<close>, and sends
    \<^verbatim>\<open>sendheaders\<close> if the peer's version is at least \<^verbatim>\<open>SENDHEADERS_VERSION\<close>, then, if
    it is at least \<^verbatim>\<open>SHORT_IDS_BLOCKS_VERSION\<close>, \<^verbatim>\<open>sendcmpct\<close> version 2 if the local node
    offers \<^verbatim>\<open>NODE_WITNESS\<close> and \<^verbatim>\<open>sendcmpct\<close> version 1.  \<^verbatim>\<open>fCurrentlyConnected\<close> is set
    for an outbound peer; for an inbound peer it is left as it was.
\<close>
theorem version_verack_handshake:
  assumes "State st (GetId pfrom) = Some state0"
    and "0 < MIN_PEER_PROTO_VERSION env" "0 < SBTC_CONTRACT_VERSION env"
    and "ProcessMessage_handshake env hs pfrom (CmdVersion msg) st = Some (True, pfrom1, st1, ev1)"
    and "\<not> fDisconnect pfrom1"
  shows "(tip_past_contract_fork hs' \<and> nVersion pfrom1 < SBTC_CONTRACT_VERSION env \<longrightarrow>
           ProcessMessage_handshake env hs' pfrom1 CmdVerack st1
             = Some (False, pfrom1\<lparr> fDisconnect := True \<rparr>, st1,
                     [PushMessage (GetId pfrom)
                        (REJECT_VERSION ''Version must be %d or greater'')]))
       \<and> (\<not> (tip_past_contract_fork hs' \<and> nVersion pfrom1 < SBTC_CONTRACT_VERSION env) \<longrightarrow>
           (\<exists>pfrom2 st2 state2.
              ProcessMessage_handshake env hs' pfrom1 CmdVerack st1
                = Some (True, pfrom2, st2,
                        (if SENDHEADERS_VERSION env \<le> nVersion pfrom1
                         then [PushMessage (GetId pfrom) SENDHEADERS] else [])
                        @ (if SHORT_IDS_BLOCKS_VERSION env \<le> nVersion pfrom1 then
                             (if nLocalServices pfrom AND NODE_WITNESS env \<noteq> 0
                              then [PushMessage (GetId pfrom) (SENDCMPCT False 2)] else [])
                             @ [PushMessage (GetId pfrom) (SENDCMPCT False 1)]
                           else []))
            \<and> fSuccessfullyConnected pfrom2
            \<and> State st2 (GetId pfrom) = Some state2
            \<and> fCurrentlyConnected state2 = (\<not> fInbound pfrom \<or> fCurrentlyConnected state0)))"
proof -
  from assms(4,5) have v: "ProcessVersionMsg env hs pfrom msg st = Some (True, pfrom1, st1, ev1)"
    by (auto simp: ProcessMessage_handshake_def split: if_splits)
  note a = ProcessVersionMsg_accepts [OF v assms(5)]
  from a(3) obtain ev0 where acc: "version_accept env hs pfrom msg ev0 st = Some (True, pfrom1, st1, ev1)"
    by blast
  note r = version_accept_result [OF acc assms(1)]
  from r(5) obtain state1 where s1: "State st1 (GetId pfrom) = Some state1"
    "fCurrentlyConnected state1 = fCurrentlyConnected state0" by blast
  from a(2) assms(2,3) have "0 < v_nVersion msg" by (auto split: if_splits)
  with r(4) have nz: "nVersion pfrom1 \<noteq> 0" by (auto split: if_splits)
  have refused: "ProcessMessage_handshake env hs' pfrom1 CmdVerack st1
             = Some (False, pfrom1\<lparr> fDisconnect := True \<rparr>, st1,
                     [PushMessage (GetId pfrom)
                        (REJECT_VERSION ''Version must be %d or greater'')])"
    if "tip_past_contract_fork hs' \<and> nVersion pfrom1 < SBTC_CONTRACT_VERSION env"
    using that nz r(1) by (simp add: ProcessMessage_handshake_def)
  have accepted: "\<exists>pfrom2 st2 state2.
              ProcessMessage_handshake env hs' pfrom1 CmdVerack st1
                = Some (True, pfrom2, st2,
                        (if SENDHEADERS_VERSION env \<le> nVersion pfrom1
                         then [PushMessage (GetId pfrom) SENDHEADERS] else [])
                        @ (if SHORT_IDS_BLOCKS_VERSION env \<le> nVersion pfrom1 then
                             (if nLocalServices pfrom AND NODE_WITNESS env \<noteq> 0
                              then [PushMessage (GetId pfrom) (SENDCMPCT False 2)] else [])
                             @ [PushMessage (GetId pfrom) (SENDCMPCT False 1)]
                           else []))
            \<and> fSuccessfullyConnected pfrom2
            \<and> State st2 (GetId pfrom) = Some state2
            \<and> fCurrentlyConnected state2 = (\<not> fInbound pfrom \<or> fCurrentlyConnected state0)"
    if "\<not> (tip_past_contract_fork hs' \<and> nVersion pfrom1 < SBTC_CONTRACT_VERSION env)"
    using that nz s1 r(1,2,3)
    by (cases "fInbound pfrom")
       (simp_all add: ProcessMessage_handshake_def ProcessVerAckMsg_def State_def put_State_def)
  from refused accepted show ?thesis by blast
qed


lemmas handshake_defs = ProcessMessage_handshake_def ProcessVersionMsg_def version_refused_def
  version_accept_def version_recorded_def version_getaddr_def version_events_def
  UpdatePreferredDownload_def ProcessVerAckMsg_def Misbehaving_def version_then_verack_def
  ex_env_def ex_hs_def ex_version_def ex_inbound_def ex_outbound_def ex_store_in_def

theorem version_verack_handshake_witness:
  "State ex_store (GetId ex_outbound) = Some (CNodeState_ctor ''203.0.113.7:8333'' ''peer7'')
   \<and> 0 < MIN_PEER_PROTO_VERSION ex_env \<and> 0 < SBTC_CONTRACT_VERSION ex_env
   \<and> (\<exists>pfrom1 st1 ev1.
         ProcessMessage_handshake ex_env ex_hs ex_outbound (CmdVersion ex_version) ex_store
           = Some (True, pfrom1, st1, ev1)
       \<and> \<not> fDisconnect pfrom1 \<and> nVersion pfrom1 = 70015
       \<and> (\<exists>pfrom2 st2 state2.
             ProcessMessage_handshake ex_env ex_hs pfrom1 CmdVerack st1
               = Some (True, pfrom2, st2,
                       [PushMessage 7 SENDHEADERS, PushMessage 7 (SENDCMPCT False 2),
                        PushMessage 7 (SENDCMPCT False 1)])
           \<and> fSuccessfullyConnected pfrom2 \<and> State st2 7 = Some state2
           \<and> fCurrentlyConnected state2)
       \<and> ProcessMessage_handshake ex_env (ex_hs\<lparr> tip_past_contract_fork := True \<rparr>) pfrom1
             CmdVerack st1
           = Some (False, pfrom1\<lparr> fDisconnect := True \<rparr>, st1,
                   [PushMessage 7 (REJECT_VERSION ''Version must be %d or greater'')]))"
proof -
  have n: "GetId ex_outbound = 7" "\<not> fInbound ex_outbound" "nLocalServices ex_outbound = 9"
    by (simp_all add: ex_outbound_def ex_node_def)
  have r: "State ex_store (GetId ex_outbound) = Some (CNodeState_ctor ''203.0.113.7:8333'' ''peer7'')"
    by (simp add: n ex_store_row)
  have p: "0 < MIN_PEER_PROTO_VERSION ex_env" "0 < SBTC_CONTRACT_VERSION ex_env"
    by (simp_all add: ex_env_def)
  have "\<exists>pfrom1 st1 ev1.
         ProcessMessage_handshake ex_env ex_hs ex_outbound (CmdVersion ex_version) ex_store
           = Some (True, pfrom1, st1, ev1)
       \<and> \<not> fDisconnect pfrom1 \<and> nVersion pfrom1 = 70015"
    by (simp add: handshake_defs ex_defs Let_def)
  then obtain pfrom1 st1 ev1 where
    v: "ProcessMessage_handshake ex_env ex_hs ex_outbound (CmdVersion ex_version) ex_store
           = Some (True, pfrom1, st1, ev1)"
    and nd: "\<not> fDisconnect pfrom1" and ver: "nVersion pfrom1 = 70015" by blast
  have nf: "\<not> (tip_past_contract_fork ex_hs \<and> nVersion pfrom1 < SBTC_CONTRACT_VERSION ex_env)"
    by (simp add: ex_hs_def)
  from version_verack_handshake [OF r p v nd, of ex_hs, THEN conjunct2, rule_format, OF nf] n ver
  have ok: "\<exists>pfrom2 st2 state2.
             ProcessMessage_handshake ex_env ex_hs pfrom1 CmdVerack st1
               = Some (True, pfrom2, st2,
                       [PushMessage 7 SENDHEADERS, PushMessage 7 (SENDCMPCT False 2),
                        PushMessage 7 (SENDCMPCT False 1)])
           \<and> fSuccessfullyConnected pfrom2 \<and> State st2 7 = Some state2
           \<and> fCurrentlyConnected state2"
    by (simp add: ex_env_def)
  have pf: "tip_past_contract_fork (ex_hs\<lparr> tip_past_contract_fork := True \<rparr>)
            \<and> nVersion pfrom1 < SBTC_CONTRACT_VERSION ex_env"
    by (simp add: ver ex_env_def)
  from version_verack_handshake [OF r p v nd, of "ex_hs\<lparr> tip_past_contract_fork := True \<rparr>",
        THEN conjunct1, rule_format, OF pf] n
  have refused: "ProcessMessage_handshake ex_env (ex_hs\<lparr> tip_past_contract_fork := True \<rparr>) pfrom1
             CmdVerack st1
           = Some (False, pfrom1\<lparr> fDisconnect := True \<rparr>, st1,
                   [PushMessage 7 (REJECT_VERSION ''Version must be %d or greater'')])"
    by simp
  with ok v nd ver r p show ?thesis by blast
qed

text \<open>The claim as the specification words it has \<^verbatim>\<open>currently_connected\<close> true after the
  handshake for any known peer.  For the inbound peer 9 a valid \<^verbatim>\<open>version\<close> followed by
  \<^verbatim>\<open>verack\<close> is accepted (both calls return true, the three messages are sent, the node
  is \<^verbatim>\<open>fSuccessfullyConnected\<close>), and \<^verbatim>\<open>fCurrentlyConnected\<close> is still false.\<close>
theorem version_verack_inbound_counterexample:
  "State ex_store_in (GetId ex_inbound) = Some (CNodeState_ctor ''198.51.100.9:50001'' ''peer9'')
   \<and> map_option
        (\<lambda>((r1, ev1), (r2, pfrom2, st2, ev2)).
            (r1, r2, fDisconnect pfrom2, fSuccessfullyConnected pfrom2,
             map_option fCurrentlyConnected (State st2 9), ev2))
        (version_then_verack ex_env ex_hs ex_inbound ex_version ex_store_in)
      = Some (True, True, False, True, Some False,
              [PushMessage 9 SENDHEADERS, PushMessage 9 (SENDCMPCT False 2),
               PushMessage 9 (SENDCMPCT False 1)])"
  by (simp add: handshake_defs ex_defs Let_def)


section \<open>FindNextBlocksToDownload\<close>

text \<open>
  Claim C4, as the code has it.  For a known peer, \<^verbatim>\<open>FindNextBlocksToDownload\<close> with a
  positive count first refreshes the peer's best known block from its last unknown hash
  (\<^verbatim>\<open>ProcessBlockAvailability\<close>, which writes these two fields only).  If after that
  the peer has no best known block, or one whose chain work is below the active tip's or
  below \<^verbatim>\<open>nMinimumChainWork\<close>, the function returns no blocks, leaves the staller as it
  was, and the state is the refreshed one; so blocks are returned only if the refreshed
  best known block has at least the tip's work and at least the minimum work.  With count
  zero nothing is touched.
\<close>
theorem FindNextBlocksToDownload_requires_work:
  assumes "State st nodeid = Some state"
  shows "\<exists>state1.
           ProcessBlockAvailability c nodeid st = Some (put_State nodeid state1 st)
         \<and> state1 = state\<lparr> pindexBestKnownBlock := pindexBestKnownBlock state1,
                            hashLastUnknownBlock := hashLastUnknownBlock state1 \<rparr>
         \<and> (count = 0 \<longrightarrow>
              FindNextBlocksToDownload c nodeid count nodeStaller st = Some ([], nodeStaller, st))
         \<and> (0 < count
              \<and> (pindexBestKnownBlock state1 = None
                 \<or> (\<exists>best tip. pindexBestKnownBlock state1 = Some best \<and> Tip c = Some tip
                       \<and> (work c best < work c tip \<or> work c best < nMinimumChainWork c)))
              \<longrightarrow> FindNextBlocksToDownload c nodeid count nodeStaller st
                    = Some ([], nodeStaller, put_State nodeid state1 st))
         \<and> (\<forall>vBlocks nodeStaller' st'.
               FindNextBlocksToDownload c nodeid count nodeStaller st
                 = Some (vBlocks, nodeStaller', st') \<and> vBlocks \<noteq> []
               \<longrightarrow> (\<exists>best tip. pindexBestKnownBlock state1 = Some best \<and> Tip c = Some tip
                      \<and> work c tip \<le> work c best \<and> nMinimumChainWork c \<le> work c best))"
proof -
  from ProcessBlockAvailability_known [OF assms, of c] obtain state1 where
    p: "ProcessBlockAvailability c nodeid st = Some (put_State nodeid state1 st)"
    and s1: "state1 = state\<lparr> pindexBestKnownBlock := pindexBestKnownBlock state1,
                            hashLastUnknownBlock := hashLastUnknownBlock state1 \<rparr>"
    by blast
  have row1: "State (put_State nodeid state1 st) nodeid = Some state1"
    by (simp add: State_def put_State_def)
  have zero: "FindNextBlocksToDownload c nodeid count nodeStaller st = Some ([], nodeStaller, st)"
    if "count = 0"
    using that by (simp add: FindNextBlocksToDownload_def)
  have fail: "FindNextBlocksToDownload c nodeid count nodeStaller st
                    = Some ([], nodeStaller, put_State nodeid state1 st)"
    if "0 < count \<and> (pindexBestKnownBlock state1 = None
                 \<or> (\<exists>best tip. pindexBestKnownBlock state1 = Some best \<and> Tip c = Some tip
                       \<and> (work c best < work c tip \<or> work c best < nMinimumChainWork c)))"
    unfolding FindNextBlocksToDownload_def using that assms p row1
    by auto
  have need: "\<exists>best tip. pindexBestKnownBlock state1 = Some best \<and> Tip c = Some tip
                      \<and> work c tip \<le> work c best \<and> nMinimumChainWork c \<le> work c best"
    if r: "FindNextBlocksToDownload c nodeid count nodeStaller st
                 = Some (vBlocks, nodeStaller', st') \<and> vBlocks \<noteq> []"
    for vBlocks nodeStaller' st'
  proof (rule ccontr)
    assume n: "\<not> (\<exists>best tip. pindexBestKnownBlock state1 = Some best \<and> Tip c = Some tip
                      \<and> work c tip \<le> work c best \<and> nMinimumChainWork c \<le> work c best)"
    from r zero have pos: "0 < count" by (cases "count = 0") auto
    show False
    proof (cases "pindexBestKnownBlock state1")
      case None
      with fail pos r show False by simp
    next
      case (Some best)
      show False
      proof (cases "Tip c")
        case None
        with Some r pos assms p row1 show False
          unfolding FindNextBlocksToDownload_def by simp
      next
        case (Some tip)
        with n \<open>pindexBestKnownBlock state1 = Some best\<close>
        have "work c best < work c tip \<or> work c best < nMinimumChainWork c" by auto
        with fail pos Some \<open>pindexBestKnownBlock state1 = Some best\<close> r show False by simp
      qed
    qed
  qed
  from p s1 zero fail need show ?thesis by blast
qed


theorem FindNextBlocksToDownload_requires_work_witness:
  "State ex_announced 7 = Some ex_announced_row
   \<and> (0 :: nat) < 16
   \<and> Tip ex_chain = Some 2 \<and> work ex_chain 1 < work ex_chain 2
   \<and> FindNextBlocksToDownload ex_chain 7 16 (- 1) ex_announced
       = Some ([], - 1,
               put_State 7
                 (ex_announced_row\<lparr> pindexBestKnownBlock := Some 1, hashLastUnknownBlock := 0 \<rparr>)
                 ex_announced)
   \<and> FindNextBlocksToDownload ex_chain 7 16 (- 1) ex_ahead = Some ([3, 4, 5], - 1,
        put_State 7
          ((CNodeState_ctor ''203.0.113.7:8333'' ''peer7'')
             \<lparr> pindexBestKnownBlock := Some 5, pindexLastCommonBlock := Some 2 \<rparr>) ex_store)"
proof -
  let ?s1 = "ex_announced_row\<lparr> pindexBestKnownBlock := Some 1, hashLastUnknownBlock := 0 \<rparr>"
  from FindNextBlocksToDownload_requires_work [OF ex_announced_row_eq, of ex_chain 16 "- 1"]
  obtain state1 where
    p: "ProcessBlockAvailability ex_chain 7 ex_announced = Some (put_State 7 state1 ex_announced)"
    and f: "0 < (16 :: nat)
              \<and> (pindexBestKnownBlock state1 = None
                 \<or> (\<exists>best tip. pindexBestKnownBlock state1 = Some best \<and> Tip ex_chain = Some tip
                       \<and> (work ex_chain best < work ex_chain tip
                          \<or> work ex_chain best < nMinimumChainWork ex_chain)))
              \<longrightarrow> FindNextBlocksToDownload ex_chain 7 16 (- 1) ex_announced
                    = Some ([], - 1, put_State 7 state1 ex_announced)"
    by blast
  from p ex_announced_refresh have "put_State 7 state1 ex_announced = put_State 7 ?s1 ex_announced"
    by simp
  then have "State (put_State 7 state1 ex_announced) 7 = State (put_State 7 ?s1 ex_announced) 7"
    by simp
  then have s1: "state1 = ?s1" by (simp add: State_def put_State_def)
  have t: "Tip ex_chain = Some 2" "work ex_chain 1 < work ex_chain 2"
    by (simp_all add: ex_chain_def work_def)
  from f s1 t have c1: "FindNextBlocksToDownload ex_chain 7 16 (- 1) ex_announced
       = Some ([], - 1, put_State 7 ?s1 ex_announced)"
    by simp
  have c2: "FindNextBlocksToDownload ex_chain 7 16 (- 1) ex_ahead = Some ([3, 4, 5], - 1,
        put_State 7
          ((CNodeState_ctor ''203.0.113.7:8333'' ''peer7'')
             \<lparr> pindexBestKnownBlock := Some 5, pindexLastCommonBlock := Some 2 \<rparr>) ex_store)"
    by (simp add: FindNextBlocksToDownload_def ProcessBlockAvailability_def ex_ahead_def ex_defs
          ex_chain_def work_def Let_def BLOCK_DOWNLOAD_WINDOW_def fetch_loop.simps
          eval_nat_numeral)
  from ex_announced_row_eq t c1 c2 show ?thesis by simp
qed

text \<open>The claim as the specification words it has the peer's state unchanged when the
  work condition fails.  Peer 7 has no best known block and has announced the hash 2;
  block 1, which has that hash, has less work than the tip.  The function returns no
  blocks, and the peer's best known block and last unknown hash have changed.\<close>
theorem FindNextBlocksToDownload_state_counterexample:
  "pindexBestKnownBlock ex_announced_row = None
   \<and> State ex_announced 7 = Some ex_announced_row
   \<and> work ex_chain 1 < work ex_chain 2
   \<and> map_option (\<lambda>(vBlocks, nodeStaller, st'). (vBlocks, nodeStaller, State st' 7))
        (FindNextBlocksToDownload ex_chain 7 16 (- 1) ex_announced)
      = Some ([], - 1,
              Some (ex_announced_row\<lparr> pindexBestKnownBlock := Some 1,
                                       hashLastUnknownBlock := 0 \<rparr>))
   \<and> ex_announced_row\<lparr> pindexBestKnownBlock := Some 1, hashLastUnknownBlock := 0 \<rparr>
       \<noteq> ex_announced_row"
  by (simp add: FindNextBlocksToDownload_def ProcessBlockAvailability_def ex_announced_def
        ex_announced_row_def ex_defs ex_chain_def work_def Let_def)


section \<open>Header continuity\<close>

lemma check_continuity_break:
  assumes "\<forall>header \<in> set headers. GetHash c header \<noteq> 0"
    and "Suc i < length headers"
    and "hashPrevBlock (headers ! Suc i) \<noteq> GetHash c (headers ! i)"
  shows "fst (check_continuity c hashLastBlock headers) = False"
  using assms
proof (induction headers arbitrary: hashLastBlock i)
  case Nil
  then show ?case by simp
next
  case (Cons x xs)
  show ?case
  proof (cases "hashLastBlock \<noteq> 0 \<and> hashPrevBlock x \<noteq> hashLastBlock")
    case True
    then show ?thesis by simp
  next
    case False
    then have step: "check_continuity c hashLastBlock (x # xs) = check_continuity c (GetHash c x) xs"
      by auto
    show ?thesis
    proof (cases i)
      case 0
      with Cons.prems obtain y ys where xs: "xs = y # ys" by (cases xs) auto
      with 0 Cons.prems have "GetHash c x \<noteq> 0" "hashPrevBlock y \<noteq> GetHash c x" by auto
      with step xs show ?thesis by simp
    next
      case (Suc j)
      with Cons.prems have "\<forall>header \<in> set xs. GetHash c header \<noteq> 0" "Suc j < length xs"
        "hashPrevBlock (xs ! Suc j) \<noteq> GetHash c (xs ! j)" by auto
      from Cons.IH [OF this] step show ?thesis by simp
    qed
  qed
qed

text \<open>
  Claim C5.  For a known peer and a non-empty headers batch whose first header's parent
  is known: if some header's previous-block hash differs from the hash of the header
  before it (no header of the batch hashing to the null hash, and the score staying
  within a C++ \<^verbatim>\<open>int\<close>), \<^verbatim>\<open>ProcessHeadersMessage\<close> returns false, adds exactly 20 to the
  sender's misbehaviour score (latching \<open>fShouldBan\<close> if that crosses the threshold),
  changes nothing else and sends nothing; in particular no header is handed to
  \<^verbatim>\<open>ProcessNewBlockHeaders\<close>, whatever that call would have returned.
\<close>
theorem headers_continuity_break:
  assumes "State st (GetId pfrom) = Some state"
    and "headers \<noteq> []" "DoesBlockExist c (hashPrevBlock (hd headers))"
    and "Suc i < length headers" "hashPrevBlock (headers ! Suc i) \<noteq> GetHash c (headers ! i)"
    and "\<forall>header \<in> set headers. GetHash c header \<noteq> 0"
    and "- (2 ^ 31) \<le> nMisbehavior state + 20" "nMisbehavior state + 20 \<le> 2 ^ 31 - 1"
  shows "ProcessHeadersMessage env c c2 res pfrom headers punish_duplicate_invalid st
       = Some (False, pfrom,
               put_State (GetId pfrom)
                 (state\<lparr> nMisbehavior := nMisbehavior state + 20,
                         fShouldBan := (fShouldBan state
                            \<or> (arg_banscore env \<le> nMisbehavior state + 20
                               \<and> nMisbehavior state < arg_banscore env)) \<rparr>) st,
               [])"
proof -
  from check_continuity_break [OF assms(6,4,5), of 0]
  obtain hl where cc: "check_continuity c 0 headers = (False, hl)"
    by (cases "check_continuity c 0 headers") auto
  have m: "Misbehaving (arg_banscore env) (GetId pfrom) 20 st
       = Some (put_State (GetId pfrom)
                 (state\<lparr> nMisbehavior := nMisbehavior state + 20,
                         fShouldBan := (fShouldBan state
                            \<or> (arg_banscore env \<le> nMisbehavior state + 20
                               \<and> nMisbehavior state < arg_banscore env)) \<rparr>) st)"
    using assms(1,7,8) by (auto simp: Misbehaving_def int_add_def Let_def)
  show ?thesis
    unfolding ProcessHeadersMessage_def using assms(2,3) cc m by simp
qed

theorem headers_continuity_break_witness:
  "State ex_store (GetId ex_node) = Some (CNodeState_ctor ''203.0.113.7:8333'' ''peer7'')
   \<and> ex_broken_batch \<noteq> [] \<and> DoesBlockExist ex_chain (hashPrevBlock (hd ex_broken_batch))
   \<and> Suc 0 < length ex_broken_batch
   \<and> hashPrevBlock (ex_broken_batch ! Suc 0) \<noteq> GetHash ex_chain (ex_broken_batch ! 0)
   \<and> GetHash ex_chain (ex_broken_batch ! 0) \<noteq> 0 \<and> GetHash ex_chain (ex_broken_batch ! 1) \<noteq> 0
   \<and> ProcessHeadersMessage ex_env ex_chain ex_chain ex_result ex_node ex_broken_batch True ex_store
       = Some (False, ex_node,
               put_State 7
                 ((CNodeState_ctor ''203.0.113.7:8333'' ''peer7'')\<lparr> nMisbehavior := 20 \<rparr>)
                 ex_store,
               [])"
proof -
  have n: "GetId ex_node = 7" by (simp add: ex_node_def)
  have r: "State ex_store (GetId ex_node) = Some (CNodeState_ctor ''203.0.113.7:8333'' ''peer7'')"
    by (simp add: n ex_store_row)
  have h: "ex_broken_batch \<noteq> []" "DoesBlockExist ex_chain (hashPrevBlock (hd ex_broken_batch))"
    "Suc 0 < length ex_broken_batch"
    "hashPrevBlock (ex_broken_batch ! Suc 0) \<noteq> GetHash ex_chain (ex_broken_batch ! 0)"
    "\<forall>header \<in> set ex_broken_batch. GetHash ex_chain header \<noteq> 0"
    by (simp_all add: ex_broken_batch_def ex_header_def ex_chain_def)
  have z: "GetHash ex_chain (ex_broken_batch ! 0) \<noteq> 0" "GetHash ex_chain (ex_broken_batch ! 1) \<noteq> 0"
    by (simp_all add: ex_broken_batch_def ex_header_def ex_chain_def)
  have b: "- (2 ^ 31) \<le> nMisbehavior (CNodeState_ctor ''203.0.113.7:8333'' ''peer7'') + 20"
    "nMisbehavior (CNodeState_ctor ''203.0.113.7:8333'' ''peer7'') + 20 \<le> 2 ^ 31 - 1"
    by (simp_all add: CNodeState_ctor_def)
  from headers_continuity_break [OF r h b, of ex_env ex_chain ex_result True]
  have "ProcessHeadersMessage ex_env ex_chain ex_chain ex_result ex_node ex_broken_batch True ex_store
       = Some (False, ex_node,
               put_State 7
                 ((CNodeState_ctor ''203.0.113.7:8333'' ''peer7'')\<lparr> nMisbehavior := 20 \<rparr>)
                 ex_store,
               [])"
    by (simp add: n CNodeState_ctor_def ex_env_def)
  with r h(1-4) z show ?thesis by blast
qed


section \<open>Headers that do not connect\<close>





end
